(* ===== verification/Prelude.thy ===== *)
theory Prelude
  imports Complex_Main "HOL-Library.AList"
begin

text \<open>
  Shared vocabulary of the development: the Python exceptions that the modelled code raises or
  lets through, programs over an explicit state that either return or raise (the state reached
  so far survives an exception, as it does in Python), dictionaries in insertion order, and the
  preorder contract under which facts about single operations lift to whole programs.
\<close>

named_theorems prog_simps \<open>unfolding rules of the program combinators\<close>
named_theorems dict_simps \<open>characteristic equations of dictionaries\<close>

section \<open>Exceptions\<close>

text \<open>
  A run id is the canonical text of a UUID; two ids are equal exactly when their texts are.
  Every exception but RunNotFoundError carries the text that \<open>str(exc)\<close> yields.
\<close>

type_synonym uuid = string
type_synonym unix_ts = rat

datatype exn =
    RunNotFoundError uuid
  | RunLeaseLostError string
  | ValueError string
  | KeyError string
  | TypeError string
  | OSError string
  | OverflowError string
  | AttributeError string
  | OtherError string

text \<open>\<open>repr\<close> of a UUID, which is what a missing dictionary key prints as, and \<open>str(exc)\<close>.\<close>

definition uuid_repr :: "uuid \<Rightarrow> string" where
  "uuid_repr k = ''UUID('' @ [CHR 0x27] @ k @ [CHR 0x27] @ '')''"

fun exn_text :: "exn \<Rightarrow> string" where
  "exn_text (RunNotFoundError k) = ''Run '' @ k @ '' not found''"
| "exn_text (RunLeaseLostError m) = m"
| "exn_text (ValueError m) = m"
| "exn_text (KeyError m) = m"
| "exn_text (TypeError m) = m"
| "exn_text (OSError m) = m"
| "exn_text (OverflowError m) = m"
| "exn_text (AttributeError m) = m"
| "exn_text (OtherError m) = m"

section \<open>Programs with state and exceptions\<close>

type_synonym ('e, 's, 'a) eprog = "'s \<Rightarrow> ('e + 'a) \<times> 's"
type_synonym ('s, 'a) prog = "(exn, 's, 'a) eprog"

definition ret :: "'a \<Rightarrow> ('e, 's, 'a) eprog" where
  [prog_simps]: "ret x = (\<lambda>s. (Inr x, s))"

definition throw :: "'e \<Rightarrow> ('e, 's, 'a) eprog" where
  [prog_simps]: "throw e = (\<lambda>s. (Inl e, s))"

definition bindM :: "('e, 's, 'a) eprog \<Rightarrow> ('a \<Rightarrow> ('e, 's, 'b) eprog) \<Rightarrow> ('e, 's, 'b) eprog" where
  "bindM m f = (\<lambda>s. case m s of (Inl e, s') \<Rightarrow> (Inl e, s') | (Inr x, s') \<Rightarrow> f x s')"

definition gets :: "('s \<Rightarrow> 'a) \<Rightarrow> ('e, 's, 'a) eprog" where
  [prog_simps]: "gets f = (\<lambda>s. (Inr (f s), s))"

definition modify :: "('s \<Rightarrow> 's) \<Rightarrow> ('e, 's, unit) eprog" where
  [prog_simps]: "modify f = (\<lambda>s. (Inr (), f s))"

definition liftE :: "'e + 'a \<Rightarrow> ('e, 's, 'a) eprog" where
  [prog_simps]: "liftE r = (\<lambda>s. (r, s))"

definition try_except :: "('e, 's, 'a) eprog \<Rightarrow> ('e \<Rightarrow> ('e, 's, 'a) eprog) \<Rightarrow> ('e, 's, 'a) eprog" where
  "try_except m h = (\<lambda>s. case m s of (Inl e, s') \<Rightarrow> h e s' | (Inr x, s') \<Rightarrow> (Inr x, s'))"

lemma bindM_Inl [prog_simps]: "m s = (Inl e, s') \<Longrightarrow> bindM m f s = (Inl e, s')"
  by (simp add: bindM_def)

lemma bindM_Inr [prog_simps]: "m s = (Inr x, s') \<Longrightarrow> bindM m f s = f x s'"
  by (simp add: bindM_def)

lemma try_except_Inl [prog_simps]: "m s = (Inl e, s') \<Longrightarrow> try_except m h s = h e s'"
  by (simp add: try_except_def)

lemma try_except_Inr [prog_simps]: "m s = (Inr x, s') \<Longrightarrow> try_except m h s = (Inr x, s')"
  by (simp add: try_except_def)

lemma bindM_ret [simp]: "bindM (ret x) f = f x"
  by (simp add: bindM_def ret_def)

lemma bindM_throw [simp]: "bindM (throw e) f = throw e"
  by (simp add: bindM_def throw_def)

lemma ret_bindM [simp]: "bindM m ret = m"
  by (rule ext) (simp add: bindM_def ret_def split: prod.splits sum.splits)

lemma bindM_assoc: "bindM (bindM m f) g = bindM m (\<lambda>x. bindM (f x) g)"
  by (rule ext) (simp add: bindM_def split: prod.splits sum.splits)

lemma try_except_ret [simp]: "try_except (ret x) h = ret x"
  by (simp add: try_except_def ret_def)

lemma try_except_throw [simp]: "try_except (throw e) h = h e"
  by (simp add: try_except_def throw_def)

section \<open>What a program does to the state, as a preorder\<close>

text \<open>
  \<open>effect_in R m\<close>: whether \<open>m\<close> returns or raises, the state it leaves is \<open>R\<close>-above
  the state it started from. For a preorder this is closed under the combinators, so it is
  proved for the store operations and inherited by every service, route and loop over them.
\<close>

definition effect_in :: "('s \<Rightarrow> 's \<Rightarrow> bool) \<Rightarrow> ('e, 's, 'a) eprog \<Rightarrow> bool" where
  "effect_in R m \<longleftrightarrow> (\<forall>s. R s (snd (m s)))"

lemma effect_inI: "(\<And>s. R s (snd (m s))) \<Longrightarrow> effect_in R m"
  by (simp add: effect_in_def)

lemma effect_inD: "effect_in R m \<Longrightarrow> m s = (r, s') \<Longrightarrow> R s s'"
  by (metis effect_in_def snd_conv)

locale effect_preorder =
  fixes R :: "'s \<Rightarrow> 's \<Rightarrow> bool"
  assumes R_refl: "R s s"
    and R_trans: "R s t \<Longrightarrow> R t u \<Longrightarrow> R s u"
begin

lemma effect_ret: "effect_in R (ret x)"
  by (simp add: effect_in_def ret_def R_refl)

lemma effect_throw: "effect_in R (throw e)"
  by (simp add: effect_in_def throw_def R_refl)

lemma effect_gets: "effect_in R (gets f)"
  by (simp add: effect_in_def gets_def R_refl)

lemma effect_liftE: "effect_in R (liftE r)"
  by (simp add: effect_in_def liftE_def R_refl)

lemma effect_bindM_at:
  assumes "R s (snd (m s))" and "\<And>x. effect_in R (f x)"
  shows "R s (snd (bindM m f s))"
proof -
  have "\<And>x t. R t (snd (f x t))" using assms(2) by (simp add: effect_in_def)
  with assms(1) show ?thesis
    by (auto simp: bindM_def split: prod.splits sum.splits intro: R_trans)
qed

lemma effect_bindM:
  assumes "effect_in R m" and "\<And>x. effect_in R (f x)"
  shows "effect_in R (bindM m f)"
proof (rule effect_inI)
  fix s
  have "R s (snd (m s))" using assms(1) by (simp add: effect_in_def)
  then show "R s (snd (bindM m f s))" using assms(2) by (rule effect_bindM_at)
qed

lemma effect_try_except:
  assumes "effect_in R m" and "\<And>e. effect_in R (h e)"
  shows "effect_in R (try_except m h)"
proof (rule effect_inI)
  fix s
  have "R s (snd (m s))" using assms(1) by (simp add: effect_in_def)
  moreover have "\<And>e t. R t (snd (h e t))" using assms(2) by (simp add: effect_in_def)
  ultimately show "R s (snd (try_except m h s))"
    by (auto simp: try_except_def split: prod.splits sum.splits intro: R_trans)
qed

lemma effect_if:
  "effect_in R m \<Longrightarrow> effect_in R n \<Longrightarrow> effect_in R (if b then m else n)"
  by simp

lemma effect_case_option:
  assumes "effect_in R m" and "\<And>x. effect_in R (f x)"
  shows "effect_in R (case v of None \<Rightarrow> m | Some x \<Rightarrow> f x)"
  using assms by (cases v) auto

lemmas effect_intros =
  effect_ret effect_throw effect_gets effect_liftE effect_bindM
  effect_try_except effect_if effect_case_option

end

section \<open>Pre- and postconditions of programs\<close>

text \<open>
  \<open>valid P m Q E\<close>: started in a state with \<open>P\<close>, the program \<open>m\<close> returns a value and a
  state with \<open>Q\<close>, or raises with \<open>E\<close> of the exception and the state. Programs are total
  functions, so this is total correctness.
\<close>

named_theorems prog_rules \<open>rules for pre- and postconditions\<close>

definition valid ::
    "('s \<Rightarrow> bool) \<Rightarrow> ('e, 's, 'a) eprog \<Rightarrow> ('a \<Rightarrow> 's \<Rightarrow> bool) \<Rightarrow> ('e \<Rightarrow> 's \<Rightarrow> bool) \<Rightarrow> bool" where
  "valid P m Q E \<longleftrightarrow>
     (\<forall>s. P s \<longrightarrow> (case m s of (Inr x, s') \<Rightarrow> Q x s' | (Inl e, s') \<Rightarrow> E e s'))"

lemma validI:
  "(\<And>s. P s \<Longrightarrow> case m s of (Inr x, s') \<Rightarrow> Q x s' | (Inl e, s') \<Rightarrow> E e s') \<Longrightarrow> valid P m Q E"
  by (simp add: valid_def)

lemma validE: "valid P m Q E \<Longrightarrow> P s \<Longrightarrow> case m s of (Inr x, s') \<Rightarrow> Q x s' | (Inl e, s') \<Rightarrow> E e s'"
  by (simp add: valid_def)

lemma validD_Inr: "valid P m Q E \<Longrightarrow> P s \<Longrightarrow> m s = (Inr x, s') \<Longrightarrow> Q x s'"
  by (force simp: valid_def)

lemma validD_Inl: "valid P m Q E \<Longrightarrow> P s \<Longrightarrow> m s = (Inl e, s') \<Longrightarrow> E e s'"
  by (force simp: valid_def)

lemma valid_weaken:
  "valid P' m Q' E' \<Longrightarrow> (\<And>s. P s \<Longrightarrow> P' s) \<Longrightarrow> (\<And>x s. Q' x s \<Longrightarrow> Q x s) \<Longrightarrow>
     (\<And>e s. E' e s \<Longrightarrow> E e s) \<Longrightarrow> valid P m Q E"
  unfolding valid_def by (fastforce split: prod.splits sum.splits)

lemma valid_ret [prog_rules]: "(\<And>s. P s \<Longrightarrow> Q x s) \<Longrightarrow> valid P (ret x) Q E"
  by (simp add: valid_def ret_def)

lemma valid_throw [prog_rules]: "(\<And>s. P s \<Longrightarrow> E e s) \<Longrightarrow> valid P (throw e) Q E"
  by (simp add: valid_def throw_def)

lemma valid_gets [prog_rules]: "(\<And>s. P s \<Longrightarrow> Q (f s) s) \<Longrightarrow> valid P (gets f) Q E"
  by (simp add: valid_def gets_def)

lemma valid_modify [prog_rules]: "(\<And>s. P s \<Longrightarrow> Q () (f s)) \<Longrightarrow> valid P (modify f) Q E"
  by (simp add: valid_def modify_def)

lemma valid_liftE [prog_rules]:
  "(\<And>x s. r = Inr x \<Longrightarrow> P s \<Longrightarrow> Q x s) \<Longrightarrow> (\<And>e s. r = Inl e \<Longrightarrow> P s \<Longrightarrow> E e s) \<Longrightarrow>
     valid P (liftE r) Q E"
  by (cases r) (simp_all add: valid_def liftE_def)

lemma valid_bindM [prog_rules]:
  assumes "valid P m R E" and "\<And>x. valid (R x) (f x) Q E"
  shows "valid P (bindM m f) Q E"
proof (rule validI)
  fix s
  assume P: "P s"
  obtain r t where m: "m s = (r, t)" by fastforce
  show "case bindM m f s of (Inr x, s') \<Rightarrow> Q x s' | (Inl e, s') \<Rightarrow> E e s'"
  proof (cases r)
    case (Inl e)
    then show ?thesis using validD_Inl [OF assms(1) P] m by (simp add: bindM_def)
  next
    case (Inr x)
    then have "R x t" using validD_Inr [OF assms(1) P] m by simp
    then show ?thesis using assms(2) m Inr by (simp add: bindM_def valid_def)
  qed
qed

lemma valid_bind_weak:
  "valid P m R E' \<Longrightarrow> (\<And>e s. E' e s \<Longrightarrow> E e s) \<Longrightarrow> (\<And>s. P' s \<Longrightarrow> P s) \<Longrightarrow>
     (\<And>x. valid (R x) (f x) Q E) \<Longrightarrow> valid P' (bindM m f) Q E"
  by (rule valid_bindM [where R = R]) (auto elim: valid_weaken)

lemma valid_if [prog_rules]:
  "(b \<Longrightarrow> valid P m Q E) \<Longrightarrow> (\<not> b \<Longrightarrow> valid P n Q E) \<Longrightarrow> valid P (if b then m else n) Q E"
  by simp

lemma valid_case_option [prog_rules]:
  "(v = None \<Longrightarrow> valid P m Q E) \<Longrightarrow> (\<And>x. v = Some x \<Longrightarrow> valid P (f x) Q E) \<Longrightarrow>
     valid P (case v of None \<Rightarrow> m | Some x \<Rightarrow> f x) Q E"
  by (cases v) auto

section \<open>Dictionaries in insertion order\<close>

text \<open>
  A Python dict keeps its keys in insertion order and assigning an existing key replaces the
  value in place, which is what \<open>AList.update\<close> does. Lookup is \<open>map_of\<close>.
\<close>

type_synonym ('k, 'v) dict = "('k \<times> 'v) list"

abbreviation dict_set :: "'k \<Rightarrow> 'v \<Rightarrow> ('k, 'v) dict \<Rightarrow> ('k, 'v) dict" where
  "dict_set \<equiv> AList.update"

abbreviation dict_keys :: "('k, 'v) dict \<Rightarrow> 'k list" where
  "dict_keys d \<equiv> map fst d"

lemma map_of_dict_set [dict_simps]: "map_of (dict_set k v d) = (map_of d)(k \<mapsto> v)"
  by (rule update_conv')

lemma keys_dict_set [dict_simps]:
  "dict_keys (dict_set k v d) = (if k \<in> set (dict_keys d) then dict_keys d else dict_keys d @ [k])"
  by (rule update_keys)

lemma keys_dict_set_present:
  "map_of d k = Some u \<Longrightarrow> dict_keys (dict_set k v d) = dict_keys d"
  by (simp add: keys_dict_set) (metis domI dom_map_of_conv_image_fst list.set_map)

lemma distinct_dict_set: "distinct (dict_keys d) \<Longrightarrow> distinct (dict_keys (dict_set k v d))"
  by (rule distinct_update)

lemma map_of_key: "map_of d k = Some v \<Longrightarrow> k \<in> set (dict_keys d)"
  by (metis domI dom_map_of_conv_image_fst list.set_map)

lemma key_map_of: "k \<in> set (dict_keys d) \<Longrightarrow> \<exists>v. map_of d k = Some v"
  by (metis domD dom_map_of_conv_image_fst list.set_map)

lemma map_of_None_keys: "map_of d k = None \<longleftrightarrow> k \<notin> set (dict_keys d)"
  by (simp add: map_of_eq_None_iff)

text \<open>Two writes to one key: the second one wins, in the place of the first.\<close>

lemma dict_set_twice [simp]: "dict_set k v (dict_set k u d) = dict_set k v d"
  by (induction d) auto

section \<open>Option and list helpers\<close>

text \<open>\<open>next((x for x in xs if p(x)), None)\<close> is \<open>List.find\<close>.\<close>

lemma find_Some_in: "List.find P xs = Some x \<Longrightarrow> x \<in> set xs \<and> P x"
  by (auto simp: find_Some_iff)

lemma find_None_all: "List.find P xs = None \<longleftrightarrow> (\<forall>x \<in> set xs. \<not> P x)"
  by (induction xs) auto

text \<open>\<open>xs[:n]\<close>, also for a negative \<open>n\<close>.\<close>

definition slice_to :: "int \<Rightarrow> 'a list \<Rightarrow> 'a list" where
  "slice_to n xs = (if n < 0 then take (length xs - nat (- n)) xs else take (nat n) xs)"

lemma set_slice_to: "set (slice_to n xs) \<subseteq> set xs"
  by (auto simp: slice_to_def dest: in_set_takeD)

text \<open>\<open>a or b\<close> on an optional string: the empty string counts as missing.\<close>

definition or_else :: "string option \<Rightarrow> string \<Rightarrow> string" where
  "or_else v d = (case v of None \<Rightarrow> d | Some [] \<Rightarrow> d | Some t \<Rightarrow> t)"

lemma or_else_simps [simp]:
  "or_else None d = d" "or_else (Some []) d = d" "t \<noteq> [] \<Longrightarrow> or_else (Some t) d = t"
  by (auto simp: or_else_def split: list.splits)

lemma or_else_nonempty: "d \<noteq> [] \<Longrightarrow> or_else v d \<noteq> []"
  by (auto simp: or_else_def split: option.splits list.splits)

text \<open>\<open>a or b\<close> on two optional strings.\<close>

definition or_opt :: "string option \<Rightarrow> string option \<Rightarrow> string option" where
  "or_opt v w = (case v of None \<Rightarrow> w | Some [] \<Rightarrow> w | Some t \<Rightarrow> Some t)"

lemma or_opt_simps [simp]:
  "or_opt None w = w" "or_opt (Some []) w = w" "t \<noteq> [] \<Longrightarrow> or_opt (Some t) w = Some t"
  by (auto simp: or_opt_def split: list.splits)

text \<open>\<open>{**d, **e}\<close>: the entries of the second dictionary win.\<close>

definition dict_merge :: "('k, 'v) dict \<Rightarrow> ('k, 'v) dict \<Rightarrow> ('k, 'v) dict" where
  "dict_merge d e = foldl (\<lambda>acc (k, v). dict_set k v acc) d e"

lemma map_of_dict_merge_keys:
  "k \<notin> set (dict_keys e) \<Longrightarrow> map_of (dict_merge d e) k = map_of d k"
  by (induction e arbitrary: d) (auto simp: dict_merge_def map_of_dict_set)

lemma map_of_dict_merge:
  "distinct (dict_keys e) \<Longrightarrow> map_of e k = Some v \<Longrightarrow> map_of (dict_merge d e) k = Some v"
proof (induction e arbitrary: d)
  case (Cons x e)
  obtain k' v' where x: "x = (k', v')" by (cases x)
  have step: "dict_merge d (x # e) = dict_merge (dict_set k' v' d) e"
    by (simp add: dict_merge_def x)
  show ?case
  proof (cases "k' = k")
    case True
    then have "k \<notin> set (dict_keys e)" using Cons.prems(1) x by auto
    then show ?thesis using step True Cons.prems(2) x by (simp add: map_of_dict_merge_keys map_of_dict_set)
  next
    case False
    then show ?thesis using step Cons x by simp
  qed
qed simp

end
