(* ===== verification/Values.thy ===== *)
theory Values
  imports Prelude "HOL-Library.Sublist"
begin

text \<open>
  Python values as the code meets them in JSON payloads and event payloads, and the string and
  number operations of the standard library that the code applies to them. Text is ASCII text:
  a \<open>string\<close> is a list of characters, and case folding is the ASCII one.
\<close>

section \<open>Values\<close>

text \<open>Floats are exact rationals plus the three special values that JSON parsing can yield.\<close>

datatype pyfloat = Fin rat | PosInf | NegInf | NaN

datatype pyval =
    PNone
  | PBool bool
  | PInt int
  | PFloat pyfloat
  | PStr string
  | PList "pyval list"
  | PDict "(string \<times> pyval) list"

type_synonym pydict = "(string \<times> pyval) list"

text \<open>Truth value of \<open>if v\<close>, \<open>not v\<close> and \<open>v or w\<close>.\<close>

fun truthy :: "pyval \<Rightarrow> bool" where
  "truthy PNone = False"
| "truthy (PBool b) = b"
| "truthy (PInt i) = (i \<noteq> 0)"
| "truthy (PFloat f) = (f \<noteq> Fin 0)"
| "truthy (PStr t) = (t \<noteq> [])"
| "truthy (PList xs) = (xs \<noteq> [])"
| "truthy (PDict d) = (d \<noteq> [])"

text \<open>\<open>d.get(k)\<close> and \<open>d.get(k, default)\<close>.\<close>

definition pget :: "pydict \<Rightarrow> string \<Rightarrow> pyval" where
  "pget d k = (case map_of d k of None \<Rightarrow> PNone | Some v \<Rightarrow> v)"

definition pget_default :: "pydict \<Rightarrow> string \<Rightarrow> pyval \<Rightarrow> pyval" where
  "pget_default d k v = (case map_of d k of None \<Rightarrow> v | Some w \<Rightarrow> w)"

lemma pget_Nil [simp]: "pget [] k = PNone"
  by (simp add: pget_def)

lemma pget_Cons [simp]: "pget ((k', v) # d) k = (if k' = k then v else pget d k)"
  by (simp add: pget_def)

lemma pget_default_simps [simp]:
  "pget_default [] k v = v"
  "pget_default ((k', w) # d) k v = (if k' = k then w else pget_default d k v)"
  by (simp_all add: pget_default_def)

text \<open>\<open>isinstance(v, dict)\<close>, \<open>isinstance(v, list)\<close>, \<open>isinstance(v, str)\<close>.\<close>

fun as_dict :: "pyval \<Rightarrow> pydict option" where
  "as_dict (PDict d) = Some d"
| "as_dict _ = None"

fun as_list :: "pyval \<Rightarrow> pyval list option" where
  "as_list (PList xs) = Some xs"
| "as_list _ = None"

fun as_str :: "pyval \<Rightarrow> string option" where
  "as_str (PStr t) = Some t"
| "as_str _ = None"

lemma as_dict_Some [simp]: "as_dict v = Some d \<longleftrightarrow> v = PDict d"
  by (cases v) auto

lemma as_list_Some [simp]: "as_list v = Some xs \<longleftrightarrow> v = PList xs"
  by (cases v) auto

lemma as_str_Some [simp]: "as_str v = Some t \<longleftrightarrow> v = PStr t"
  by (cases v) auto

text \<open>
  What \<open>json.loads(text)\<close> does: a value, a JSONDecodeError, or another exception (too many digits, too
  deep nesting).
\<close>

datatype json_outcome = Decoded pyval | NotJson | JsonRaises exn

text \<open>An optional string as the value the code stores for it.\<close>

definition of_opt_str :: "string option \<Rightarrow> pyval" where
  "of_opt_str v = (case v of None \<Rightarrow> PNone | Some t \<Rightarrow> PStr t)"

section \<open>Characters and strings\<close>

definition code_of :: "char \<Rightarrow> nat" where
  "code_of c = of_char c"

definition ascii_lower :: "char \<Rightarrow> char" where
  "ascii_lower c = (if 65 \<le> code_of c \<and> code_of c \<le> 90 then char_of (code_of c + 32) else c)"

text \<open>\<open>str.casefold()\<close> and \<open>str.lower()\<close> on ASCII text.\<close>

definition casefold :: "string \<Rightarrow> string" where
  "casefold = map ascii_lower"

lemma code_of_bound: "code_of c < 256"
  by (simp add: code_of_def)

lemma code_of_ascii_lower:
  "code_of (ascii_lower c) = (if 65 \<le> code_of c \<and> code_of c \<le> 90 then code_of c + 32 else code_of c)"
proof (cases "65 \<le> code_of c \<and> code_of c \<le> 90")
  case True
  then have "code_of c + 32 < 256" by linarith
  then show ?thesis
    using True by (simp add: ascii_lower_def code_of_def)
next
  case False
  then show ?thesis by (auto simp: ascii_lower_def)
qed

lemma ascii_lower_idem: "ascii_lower (ascii_lower c) = ascii_lower c"
proof -
  have "\<not> (65 \<le> code_of (ascii_lower c) \<and> code_of (ascii_lower c) \<le> 90)"
    by (auto simp: code_of_ascii_lower)
  then show ?thesis by (subst ascii_lower_def) (rule if_not_P)
qed

lemma casefold_idem [simp]: "casefold (casefold t) = casefold t"
  by (simp add: casefold_def ascii_lower_idem)

lemma casefold_Nil_iff [simp]: "casefold t = [] \<longleftrightarrow> t = []"
  by (simp add: casefold_def)

text \<open>Whitespace as \<open>str.strip\<close>, \<open>str.split\<close> and \<open>int\<close> see it.\<close>

definition is_space :: "char \<Rightarrow> bool" where
  "is_space c = (let n = code_of c in n = 32 \<or> 9 \<le> n \<and> n \<le> 13 \<or> 28 \<le> n \<and> n \<le> 31)"

definition strip :: "string \<Rightarrow> string" where
  "strip t = rev (dropWhile is_space (rev (dropWhile is_space t)))"

definition startswith :: "string \<Rightarrow> string \<Rightarrow> bool" where
  "startswith t p = prefix p t"

definition substring_of :: "string \<Rightarrow> string \<Rightarrow> bool" where
  "substring_of p t = sublist p t"

section \<open>Numbers in text\<close>

definition is_digit :: "char \<Rightarrow> bool" where
  "is_digit c = (48 \<le> code_of c \<and> code_of c \<le> 57)"

definition digit_value :: "char \<Rightarrow> nat" where
  "digit_value c = code_of c - 48"

text \<open>
  The digits of an \<open>int\<close> literal: single underscores may separate digits, and the first and
  the last character are digits. The flag says whether the character before was a digit.
\<close>

fun parse_digits :: "bool \<Rightarrow> nat \<Rightarrow> string \<Rightarrow> nat option" where
  "parse_digits after_digit n [] = (if after_digit then Some n else None)"
| "parse_digits after_digit n (c # cs) =
     (if is_digit c then parse_digits True (10 * n + digit_value c) cs
      else if c = CHR ''_'' \<and> after_digit then parse_digits False n cs
      else None)"

text \<open>\<open>int(text)\<close>: \<open>None\<close> is the ValueError, also raised beyond 4300 digits.\<close>

definition int_max_str_digits :: nat where
  "int_max_str_digits = 4300"

fun parse_signed :: "string \<Rightarrow> int option" where
  "parse_signed (c # cs) =
     (if c = CHR ''-'' then map_option (\<lambda>n. - int n) (parse_digits False 0 cs)
      else if c = CHR ''+'' then map_option int (parse_digits False 0 cs)
      else map_option int (parse_digits False 0 (c # cs)))"
| "parse_signed [] = None"

definition int_of_text :: "string \<Rightarrow> int option" where
  "int_of_text t =
     (if length (filter is_digit t) > int_max_str_digits then None else parse_signed (strip t))"

text \<open>\<open>str(n)\<close> for an integer.\<close>

definition digit_char :: "nat \<Rightarrow> char" where
  "digit_char n = char_of (48 + n)"

fun nat_text :: "nat \<Rightarrow> string" where
  "nat_text n = (if n < 10 then [digit_char n] else nat_text (n div 10) @ [digit_char (n mod 10)])"

declare nat_text.simps [simp del]

definition int_text :: "int \<Rightarrow> string" where
  "int_text i = (if i < 0 then CHR ''-'' # nat_text (nat (- i)) else nat_text (nat i))"

lemma digit_char_digit:
  assumes "n < 10"
  shows "is_digit (digit_char n)" and "digit_value (digit_char n) = n"
  using assms by (simp_all add: is_digit_def digit_char_def digit_value_def code_of_def)

lemma parse_digits_append:
  "list_all is_digit xs \<Longrightarrow> xs \<noteq> [] \<Longrightarrow>
     parse_digits b n (xs @ ys) =
       parse_digits True (fold (\<lambda>c k. 10 * k + digit_value c) xs n) ys"
proof (induction xs arbitrary: b n)
  case (Cons c xs)
  then show ?case by (cases "xs = []") auto
qed simp

lemma nat_text_digits: "list_all is_digit (nat_text n)"
proof (induction n rule: nat_text.induct)
  case (1 n)
  show ?case
  proof (cases "n < 10")
    case True
    then show ?thesis by (subst nat_text.simps) (simp add: digit_char_digit)
  next
    case False
    with "1.IH" show ?thesis
      by (subst nat_text.simps) (simp add: digit_char_digit)
  qed
qed

lemma nat_text_nonempty [simp]: "nat_text n \<noteq> []"
  by (subst nat_text.simps) simp

lemma fold_nat_text: "fold (\<lambda>c k. 10 * k + digit_value c) (nat_text n) 0 = n"
proof (induction n rule: nat_text.induct)
  case (1 n)
  show ?case
  proof (cases "n < 10")
    case True
    then show ?thesis by (subst nat_text.simps) (simp add: digit_char_digit)
  next
    case False
    with "1.IH" show ?thesis
      by (subst nat_text.simps) (simp add: digit_char_digit)
  qed
qed

lemma parse_nat_text: "parse_digits False 0 (nat_text n) = Some n"
  using parse_digits_append [OF nat_text_digits, of n False 0 "[]"]
  by (simp add: fold_nat_text)

text \<open>Reading back a printed number gives the number, below the interpreter's digit limit.\<close>

lemma digit_not_sign: "is_digit c \<Longrightarrow> c \<noteq> CHR ''-'' \<and> c \<noteq> CHR ''+'' \<and> \<not> is_space c"
  by (auto simp: is_digit_def code_of_def is_space_def Let_def)

lemma dropWhile_hd: "xs \<noteq> [] \<Longrightarrow> \<not> P (hd xs) \<Longrightarrow> dropWhile P xs = xs"
  by (cases xs) auto

lemma strip_id: "xs \<noteq> [] \<Longrightarrow> \<not> is_space (hd xs) \<Longrightarrow> \<not> is_space (last xs) \<Longrightarrow> strip xs = xs"
  by (simp add: strip_def dropWhile_hd hd_rev)

lemma parse_signed_nat_text: "parse_signed (nat_text n) = Some (int n)"
proof -
  obtain c cs where nt: "nat_text n = c # cs" by (meson nat_text_nonempty neq_Nil_conv)
  then have "is_digit c" using nat_text_digits [of n] by simp
  with nt show ?thesis using parse_nat_text [of n] by (simp add: digit_not_sign)
qed

lemma strip_int_text: "strip (int_text i) = int_text i"
proof (rule strip_id)
  have digits: "\<And>n. \<not> is_space (hd (nat_text n)) \<and> \<not> is_space (last (nat_text n))"
    using nat_text_digits by (metis digit_not_sign hd_in_set last_in_set list_all_iff nat_text_nonempty)
  show "int_text i \<noteq> []" by (simp add: int_text_def)
  show "\<not> is_space (hd (int_text i))"
    using digits by (simp add: int_text_def is_space_def code_of_def Let_def)
  show "\<not> is_space (last (int_text i))"
    using digits by (simp add: int_text_def)
qed

lemma int_of_text_int_text:
  assumes "length (filter is_digit (int_text i)) \<le> int_max_str_digits"
  shows "int_of_text (int_text i) = Some i"
  using assms by (auto simp: int_of_text_def strip_int_text)
    (auto simp: int_text_def parse_nat_text parse_signed_nat_text)

end
