(* ===== verification/RunModel.thy ===== *)
theory RunModel
  imports Values
begin

text \<open>
  The data that the API side and the worker side share (\<open>contracts/domain/runs\<close>): status
  codes, the run record, run events, the claim; the transition table and the policy that guards
  every status change; and the three-valued transition request of the processing store.
\<close>

section \<open>Status codes\<close>

datatype RunStatusCode =
    CREATED | ENQUEUED | RUNNING | SUCCEEDED | FAILED | CANCELLED | TIMED_OUT | RETRYING

fun code_name :: "RunStatusCode \<Rightarrow> string" where
  "code_name CREATED = ''CREATED''"
| "code_name ENQUEUED = ''ENQUEUED''"
| "code_name RUNNING = ''RUNNING''"
| "code_name SUCCEEDED = ''SUCCEEDED''"
| "code_name FAILED = ''FAILED''"
| "code_name CANCELLED = ''CANCELLED''"
| "code_name TIMED_OUT = ''TIMED_OUT''"
| "code_name RETRYING = ''RETRYING''"

instantiation RunStatusCode :: enum
begin

definition enum_RunStatusCode :: "RunStatusCode list" where
  "enum_RunStatusCode =
     [CREATED, ENQUEUED, RUNNING, SUCCEEDED, FAILED, CANCELLED, TIMED_OUT, RETRYING]"

definition enum_all_RunStatusCode :: "(RunStatusCode \<Rightarrow> bool) \<Rightarrow> bool" where
  "enum_all_RunStatusCode P = list_all P enum_class.enum"

definition enum_ex_RunStatusCode :: "(RunStatusCode \<Rightarrow> bool) \<Rightarrow> bool" where
  "enum_ex_RunStatusCode P = list_ex P enum_class.enum"

instance proof
  have all: "c \<in> set enum_class.enum" for c :: RunStatusCode
    by (cases c) (simp_all add: enum_RunStatusCode_def)
  show "(UNIV :: RunStatusCode set) = set enum_class.enum" using all by auto
  show "distinct (enum_class.enum :: RunStatusCode list)" by (simp add: enum_RunStatusCode_def)
  fix P :: "RunStatusCode \<Rightarrow> bool"
  show "enum_class.enum_all P \<longleftrightarrow> Ball UNIV P"
    using all by (auto simp: enum_all_RunStatusCode_def list_all_iff)
  show "enum_class.enum_ex P \<longleftrightarrow> Bex UNIV P"
    using all by (auto simp: enum_ex_RunStatusCode_def list_ex_iff)
qed

end

text \<open>\<open>f"{status}"\<close> of an enum member.\<close>

definition code_text :: "RunStatusCode \<Rightarrow> string" where
  "code_text c = ''RunStatusCode.'' @ code_name c"

definition TERMINAL_RUN_STATUSES :: "RunStatusCode set" where
  "TERMINAL_RUN_STATUSES = {SUCCEEDED, FAILED, CANCELLED}"

lemma terminal_simps [simp]:
  "SUCCEEDED \<in> TERMINAL_RUN_STATUSES" "FAILED \<in> TERMINAL_RUN_STATUSES"
  "CANCELLED \<in> TERMINAL_RUN_STATUSES" "CREATED \<notin> TERMINAL_RUN_STATUSES"
  "ENQUEUED \<notin> TERMINAL_RUN_STATUSES" "RUNNING \<notin> TERMINAL_RUN_STATUSES"
  "TIMED_OUT \<notin> TERMINAL_RUN_STATUSES" "RETRYING \<notin> TERMINAL_RUN_STATUSES"
  by (simp_all add: TERMINAL_RUN_STATUSES_def)

section \<open>Run records, events, requests and claims\<close>

record RunStatus =
  rs_id :: uuid
  rs_status :: RunStatusCode
  rs_result :: "pydict option"
  rs_error :: "string option"
  rs_claimed_worker :: "string option"
  rs_claim_expiration :: "unix_ts option"
  rs_retry_count :: "int option"
  rs_cancel_requested :: bool

text \<open>The constructor call with the four mandatory fields; the rest take their defaults.\<close>

definition new_run_status ::
    "uuid \<Rightarrow> RunStatusCode \<Rightarrow> pydict option \<Rightarrow> string option \<Rightarrow> RunStatus" where
  "new_run_status i c res err =
     \<lparr> rs_id = i, rs_status = c, rs_result = res, rs_error = err, rs_claimed_worker = None,
       rs_claim_expiration = None, rs_retry_count = Some 0, rs_cancel_requested = False \<rparr>"

lemma new_run_status_sel [simp]:
  "rs_id (new_run_status i c res err) = i"
  "rs_status (new_run_status i c res err) = c"
  "rs_result (new_run_status i c res err) = res"
  "rs_error (new_run_status i c res err) = err"
  "rs_claimed_worker (new_run_status i c res err) = None"
  "rs_claim_expiration (new_run_status i c res err) = None"
  "rs_retry_count (new_run_status i c res err) = Some 0"
  "rs_cancel_requested (new_run_status i c res err) = False"
  by (simp_all add: new_run_status_def)

record RunEvent =
  ev_run_id :: uuid
  ev_sequence_nr :: int
  ev_event_type :: string
  ev_payload :: pydict
  ev_timestamp_utc :: unix_ts

record RunRequest =
  req_prompt :: string
  req_history :: "string list"
  req_user_id :: string

record ClaimedRun =
  cl_id :: uuid
  cl_claim_type :: string
  cl_run_status :: RunStatus

section \<open>The transition table and its policy\<close>

type_synonym transition_rules = "(RunStatusCode, RunStatusCode list) dict"

definition DEFAULT_TRANSITION_RULES :: transition_rules where
  "DEFAULT_TRANSITION_RULES =
     [(CREATED, [ENQUEUED, CANCELLED]),
      (ENQUEUED, [RUNNING, CANCELLED]),
      (RUNNING, [SUCCEEDED, FAILED, CANCELLED, TIMED_OUT]),
      (SUCCEEDED, []),
      (FAILED, []),
      (CANCELLED, []),
      (TIMED_OUT, [RETRYING]),
      (RETRYING, [ENQUEUED])]"

text \<open>The policy object: \<open>if not transition_rules\<close> holds for a missing and for an empty table.\<close>

definition RunTransitionPolicy :: "transition_rules option \<Rightarrow> transition_rules" where
  "RunTransitionPolicy rules =
     (case rules of
        None \<Rightarrow> DEFAULT_TRANSITION_RULES
      | Some r \<Rightarrow> if r = [] then DEFAULT_TRANSITION_RULES else r)"

definition validate :: "transition_rules \<Rightarrow> RunStatus \<Rightarrow> RunStatusCode \<Rightarrow> exn + unit" where
  "validate rules run_status new_status =
     (case map_of rules (rs_status run_status) of
        None \<Rightarrow> Inl (ValueError (''Unknown run status: '' @ code_text (rs_status run_status)))
      | Some allowed \<Rightarrow>
          if new_status \<notin> set allowed
          then Inl (ValueError (''Invalid transition: '' @ code_text (rs_status run_status)
                                @ '' -> '' @ code_text new_status))
          else Inr ())"

text \<open>What the default table allows, as a relation.\<close>

fun allowed :: "RunStatusCode \<Rightarrow> RunStatusCode \<Rightarrow> bool" where
  "allowed CREATED c = (c \<in> {ENQUEUED, CANCELLED})"
| "allowed ENQUEUED c = (c \<in> {RUNNING, CANCELLED})"
| "allowed RUNNING c = (c \<in> {SUCCEEDED, FAILED, CANCELLED, TIMED_OUT})"
| "allowed TIMED_OUT c = (c = RETRYING)"
| "allowed RETRYING c = (c = ENQUEUED)"
| "allowed _ c = False"

abbreviation default_policy :: transition_rules where
  "default_policy \<equiv> RunTransitionPolicy None"

lemma validate_default:
  "validate default_policy rs c =
     (if allowed (rs_status rs) c then Inr ()
      else Inl (ValueError (''Invalid transition: '' @ code_text (rs_status rs)
                            @ '' -> '' @ code_text c)))"
  by (cases "rs_status rs"; cases c)
     (simp_all add: validate_def RunTransitionPolicy_def DEFAULT_TRANSITION_RULES_def)

lemma allowed_from_terminal: "c \<in> TERMINAL_RUN_STATUSES \<Longrightarrow> \<not> allowed c d"
  by (auto simp: TERMINAL_RUN_STATUSES_def)

lemma terminal_iff_stuck: "c \<in> TERMINAL_RUN_STATUSES \<longleftrightarrow> (\<forall>d. \<not> allowed c d)"
  by (cases c) (auto simp: TERMINAL_RUN_STATUSES_def)

section \<open>Transition requests\<close>

text \<open>A field of a request is unset, or given (possibly as \<open>None\<close>).\<close>

datatype 'a field_value = UNSET_FIELD | Given 'a

record TransitionRequestParams =
  tr_result :: "pydict option field_value"
  tr_error :: "string option field_value"
  tr_worker_id :: "string option field_value"
  tr_retry_count :: "int option field_value"
  tr_expiration_unix_ts :: "unix_ts option field_value"

definition no_params :: TransitionRequestParams where
  "no_params = \<lparr> tr_result = UNSET_FIELD, tr_error = UNSET_FIELD, tr_worker_id = UNSET_FIELD,
                 tr_retry_count = UNSET_FIELD, tr_expiration_unix_ts = UNSET_FIELD \<rparr>"

fun get_value_or_fallback :: "'a field_value \<Rightarrow> 'a \<Rightarrow> 'a" where
  "get_value_or_fallback UNSET_FIELD fallback = fallback"
| "get_value_or_fallback (Given v) fallback = v"

lemma no_params_sel [simp]:
  "tr_result no_params = UNSET_FIELD" "tr_error no_params = UNSET_FIELD"
  "tr_worker_id no_params = UNSET_FIELD" "tr_retry_count no_params = UNSET_FIELD"
  "tr_expiration_unix_ts no_params = UNSET_FIELD"
  by (simp_all add: no_params_def)

end
