(* ===== verification/EventLog.thy ===== *)
theory EventLog
  imports RunModel
begin

text \<open>
  The append-only event log (\<open>contracts/services/event_log.py\<close>) and its in-memory
  implementation (\<open>local_runtime/event_log/in_memory.py\<close>). Inside the log's lock nothing
  suspends, so each operation is one atomic function of the log; the timestamp it takes is an
  argument.
\<close>

section \<open>The in-memory log\<close>

record event_log =
  internal_run_events :: "uuid \<rightharpoonup> RunEvent list"
  next_sequence_nr :: "uuid \<rightharpoonup> int"

definition empty_event_log :: event_log where
  "empty_event_log = \<lparr> internal_run_events = Map.empty, next_sequence_nr = Map.empty \<rparr>"

definition run_missing :: "uuid \<Rightarrow> exn" where
  "run_missing run_id = ValueError (''Run '' @ run_id @ '' not found'')"

definition init_run_stream :: "uuid \<Rightarrow> (event_log, unit) prog" where
  "init_run_stream run_id = (\<lambda>l.
     if run_id \<in> dom (internal_run_events l) then (Inr (), l)
     else (Inr (), l\<lparr> internal_run_events := (internal_run_events l)(run_id \<mapsto> []),
                      next_sequence_nr := (next_sequence_nr l)(run_id \<mapsto> 1) \<rparr>))"

definition append_event ::
    "unix_ts \<Rightarrow> uuid \<Rightarrow> string \<Rightarrow> pydict \<Rightarrow> (event_log, RunEvent) prog" where
  "append_event now run_id event_type payload = (\<lambda>l.
     case internal_run_events l run_id of
       None \<Rightarrow> (Inl (run_missing run_id), l)
     | Some events \<Rightarrow>
         (case next_sequence_nr l run_id of
            None \<Rightarrow> (Inl (KeyError (uuid_repr run_id)), l)
          | Some sequence_nr \<Rightarrow>
              let run_event = \<lparr> ev_run_id = run_id, ev_sequence_nr = sequence_nr,
                                ev_event_type = event_type, ev_payload = payload,
                                ev_timestamp_utc = now \<rparr>
              in (Inr run_event,
                  l\<lparr> next_sequence_nr := (next_sequence_nr l)(run_id \<mapsto> sequence_nr + 1),
                     internal_run_events :=
                       (internal_run_events l)(run_id \<mapsto> events @ [run_event]) \<rparr>)))"

definition list_events :: "uuid \<Rightarrow> int option \<Rightarrow> (event_log, RunEvent list) prog" where
  "list_events run_id after_sequence = (\<lambda>l.
     case internal_run_events l run_id of
       None \<Rightarrow> (Inl (run_missing run_id), l)
     | Some events \<Rightarrow>
         (Inr (case after_sequence of
                 None \<Rightarrow> events
               | Some n \<Rightarrow> filter (\<lambda>run_event. ev_sequence_nr run_event > n) events), l))"

section \<open>Well-formed logs\<close>

text \<open>
  Every stream numbers its events 1, 2, 3, \<dots> without gaps, its counter is the next number,
  and its events carry its run id.
\<close>

definition stream_ok :: "uuid \<Rightarrow> RunEvent list \<Rightarrow> bool" where
  "stream_ok run_id es \<longleftrightarrow>
     map ev_sequence_nr es = [1..int (length es)] \<and> (\<forall>e \<in> set es. ev_run_id e = run_id)"

definition log_ok :: "event_log \<Rightarrow> bool" where
  "log_ok l \<longleftrightarrow>
     dom (next_sequence_nr l) = dom (internal_run_events l) \<and>
     (\<forall>r es. internal_run_events l r = Some es \<longrightarrow>
        stream_ok r es \<and> next_sequence_nr l r = Some (int (length es) + 1))"

lemma log_ok_empty: "log_ok empty_event_log"
  by (simp add: log_ok_def empty_event_log_def)

lemma upto_snoc: "[1..int (Suc n)] = [1..int n] @ [int (Suc n)]"
  using upto_rec2 [of 1 "int (Suc n)"] by simp

lemma stream_ok_snoc:
  "stream_ok r es \<Longrightarrow> ev_run_id e = r \<Longrightarrow> ev_sequence_nr e = int (length es) + 1 \<Longrightarrow>
     stream_ok r (es @ [e])"
  using upto_snoc [of "length es"] by (auto simp: stream_ok_def add.commute)

lemma stream_ok_nth:
  assumes "stream_ok r es" and "i < length es"
  shows "ev_sequence_nr (es ! i) = int i + 1"
proof -
  have "map ev_sequence_nr es ! i = [1..int (length es)] ! i"
    using assms(1) by (simp add: stream_ok_def)
  then show ?thesis using assms(2) by simp
qed

text \<open>The event that \<open>append_event\<close> adds to a well-formed log.\<close>

definition next_event :: "unix_ts \<Rightarrow> uuid \<Rightarrow> string \<Rightarrow> pydict \<Rightarrow> RunEvent list \<Rightarrow> RunEvent" where
  "next_event now r ty pl es =
     \<lparr> ev_run_id = r, ev_sequence_nr = int (length es) + 1, ev_event_type = ty,
       ev_payload = pl, ev_timestamp_utc = now \<rparr>"

lemma next_event_sel [simp]:
  "ev_run_id (next_event now r ty pl es) = r"
  "ev_sequence_nr (next_event now r ty pl es) = int (length es) + 1"
  "ev_event_type (next_event now r ty pl es) = ty"
  "ev_payload (next_event now r ty pl es) = pl"
  "ev_timestamp_utc (next_event now r ty pl es) = now"
  by (simp_all add: next_event_def)

definition log_with :: "uuid \<Rightarrow> RunEvent list \<Rightarrow> event_log \<Rightarrow> event_log" where
  "log_with r es l =
     l\<lparr> next_sequence_nr := (next_sequence_nr l)(r \<mapsto> int (length es) + 1),
        internal_run_events := (internal_run_events l)(r \<mapsto> es) \<rparr>"

lemma append_event_ok:
  assumes "log_ok l" and "internal_run_events l r = Some es"
  shows "append_event now r ty pl l =
           (Inr (next_event now r ty pl es), log_with r (es @ [next_event now r ty pl es]) l)"
proof -
  have "next_sequence_nr l r = Some (int (length es) + 1)"
    using assms by (auto simp: log_ok_def)
  with assms(2) show ?thesis
    by (simp add: append_event_def next_event_def log_with_def Let_def add.commute)
qed

lemma log_with_events [simp]:
  "internal_run_events (log_with r es l) = (internal_run_events l)(r \<mapsto> es)"
  by (simp add: log_with_def)

lemma log_ok_log_with: "log_ok l \<Longrightarrow> stream_ok r es \<Longrightarrow> log_ok (log_with r es l)"
  unfolding log_ok_def by (auto simp: log_with_def)

lemma append_event_missing:
  "internal_run_events l r = None \<Longrightarrow> append_event now r ty pl l = (Inl (run_missing r), l)"
  by (simp add: append_event_def)

lemma log_ok_append_event: "log_ok l \<Longrightarrow> log_ok (snd (append_event now r ty pl l))"
proof (cases "internal_run_events l r")
  case None
  then show "log_ok l \<Longrightarrow> ?thesis" by (simp add: append_event_missing)
next
  case (Some es)
  assume ok: "log_ok l"
  with Some have "stream_ok r es" by (auto simp: log_ok_def)
  then have "stream_ok r (es @ [next_event now r ty pl es])" by (simp add: stream_ok_snoc)
  with ok Some show ?thesis by (simp add: append_event_ok log_ok_log_with)
qed

lemma log_ok_init: "log_ok l \<Longrightarrow> log_ok (snd (init_run_stream r l))"
  by (auto simp: log_ok_def init_run_stream_def stream_ok_def split: if_splits)

lemma log_ok_stream: "log_ok l \<Longrightarrow> internal_run_events l r = Some es \<Longrightarrow> stream_ok r es"
  by (auto simp: log_ok_def)

lemma list_events_state: "snd (list_events r a l) = l"
  by (simp add: list_events_def split: option.splits)

section \<open>The contract of an event log\<close>

text \<open>
  What the stores, the API and a polling reader rely on. \<open>stream\<close> is the abstract content:
  the events of a run, oldest first.
\<close>

fun append_all ::
    "(unix_ts \<Rightarrow> uuid \<Rightarrow> string \<Rightarrow> pydict \<Rightarrow> ('l, RunEvent) prog) \<Rightarrow>
     uuid \<Rightarrow> (unix_ts \<times> string \<times> pydict) list \<Rightarrow> ('l, unit) prog" where
  "append_all append_op r [] = ret ()"
| "append_all append_op r ((now, ty, pl) # xs) =
     bindM (append_op now r ty pl) (\<lambda>_. append_all append_op r xs)"

text \<open>
  The interface itself; \<open>append_all\<close> above is a client that appends a batch through it.
\<close>

locale event_log_contract =
  fixes init :: "uuid \<Rightarrow> ('l, unit) prog"
    and append_op :: "unix_ts \<Rightarrow> uuid \<Rightarrow> string \<Rightarrow> pydict \<Rightarrow> ('l, RunEvent) prog"
    and listing :: "uuid \<Rightarrow> int option \<Rightarrow> ('l, RunEvent list) prog"
    and stream :: "'l \<Rightarrow> uuid \<rightharpoonup> RunEvent list"
    and ok :: "'l \<Rightarrow> bool"
  assumes init_ok: "ok l \<Longrightarrow> ok (snd (init r l))"
    and init_new: "ok l \<Longrightarrow> stream l r = None \<Longrightarrow>
          fst (init r l) = Inr () \<and> stream (snd (init r l)) = (stream l)(r \<mapsto> [])"
    and init_old: "ok l \<Longrightarrow> stream l r = Some es \<Longrightarrow> init r l = (Inr (), l)"
    and append_keeps_ok: "ok l \<Longrightarrow> ok (snd (append_op now r ty pl l))"
    and append_law: "ok l \<Longrightarrow> stream l r = Some es \<Longrightarrow>
          fst (append_op now r ty pl l) = Inr (next_event now r ty pl es) \<and>
          stream (snd (append_op now r ty pl l)) =
            (stream l)(r \<mapsto> es @ [next_event now r ty pl es])"
    and append_absent: "ok l \<Longrightarrow> stream l r = None \<Longrightarrow>
          append_op now r ty pl l = (Inl (run_missing r), l)"
    and listing_law: "ok l \<Longrightarrow> stream l r = Some es \<Longrightarrow>
          listing r a l = (Inr (case a of None \<Rightarrow> es
                                 | Some n \<Rightarrow> filter (\<lambda>e. ev_sequence_nr e > n) es), l)"
    and listing_absent: "ok l \<Longrightarrow> stream l r = None \<Longrightarrow> listing r a l = (Inl (run_missing r), l)"
    and numbered: "ok l \<Longrightarrow> stream l r = Some es \<Longrightarrow> stream_ok r es"
begin

lemma append_all_extends:
  "ok l \<Longrightarrow> stream l r = Some es \<Longrightarrow>
     ok (snd (append_all append_op r xs l)) \<and>
     (\<exists>new. stream (snd (append_all append_op r xs l)) r = Some (es @ new) \<and> length new = length xs)"
proof (induction xs arbitrary: l es)
  case Nil
  then show ?case by (auto simp: ret_def)
next
  case (Cons x xs)
  obtain now ty pl where x: "x = (now, ty, pl)" by (cases x)
  let ?e = "next_event now r ty pl es"
  obtain l' where a: "append_op now r ty pl l = (Inr ?e, l')"
    and l': "stream l' = (stream l)(r \<mapsto> es @ [?e])"
    using append_law [OF Cons.prems, of now ty pl] by (metis prod.collapse)
  have "ok l'" using append_keeps_ok [OF Cons.prems(1), of now r ty pl] a by simp
  moreover have "stream l' r = Some (es @ [?e])" using l' by simp
  ultimately obtain new where
      "ok (snd (append_all append_op r xs l'))" and
      "stream (snd (append_all append_op r xs l')) r = Some ((es @ [?e]) @ new)" and
      "length new = length xs"
    using Cons.IH by blast
  then show ?case using a x by (auto simp: bindM_Inr)
qed

text \<open>
  A reader that has seen the first \<open>k\<close> events and asks for those after sequence number
  \<open>k\<close> gets exactly the rest, in order: polling neither repeats nor loses an event.
\<close>

lemma listing_after:
  assumes "ok l" and s: "stream l r = Some es" and "k \<le> length es"
  shows "listing r (Some (int k)) l = (Inr (drop k es), l)"
proof -
  have num: "ev_sequence_nr (es ! i) = int i + 1" if "i < length es" for i
    using stream_ok_nth numbered [OF assms(1) s] that by blast
  have "filter (\<lambda>e. ev_sequence_nr e > int k) (take k es) = []"
    by (auto simp: filter_empty_conv in_set_conv_nth num)
  moreover have "filter (\<lambda>e. ev_sequence_nr e > int k) (drop k es) = drop k es"
    by (auto simp: filter_id_conv in_set_conv_nth num)
  moreover have "es = take k es @ drop k es" by simp
  ultimately have "filter (\<lambda>e. ev_sequence_nr e > int k) es = drop k es"
    by (metis append_Nil filter_append)
  then show ?thesis using listing_law [OF assms(1) s, of "Some (int k)"] by simp
qed

lemma listing_pages:
  assumes "ok l" and s: "stream l r = Some es"
  shows "\<exists>new. listing r (Some (int (length es))) (snd (append_all append_op r xs l)) =
                 (Inr new, snd (append_all append_op r xs l)) \<and>
               stream (snd (append_all append_op r xs l)) r = Some (es @ new) \<and> length new = length xs"
proof -
  let ?l = "snd (append_all append_op r xs l)"
  obtain new where ok: "ok ?l" and st: "stream ?l r = Some (es @ new)" and len: "length new = length xs"
    using append_all_extends [OF assms] by blast
  have "listing r (Some (int (length es))) ?l = (Inr (drop (length es) (es @ new)), ?l)"
    by (rule listing_after [OF ok st]) simp
  with st len show ?thesis by auto
qed

end

interpretation mem_log: event_log_contract
  init_run_stream append_event list_events internal_run_events log_ok
proof unfold_locales
  fix l r
  assume "log_ok l"
  then show "log_ok (snd (init_run_stream r l))" by (rule log_ok_init)
next
  fix l r now ty pl es
  assume ok: "log_ok l" and some: "internal_run_events l r = Some es"
  show "fst (append_event now r ty pl l) = Inr (next_event now r ty pl es) \<and>
        internal_run_events (snd (append_event now r ty pl l)) =
          (internal_run_events l)(r \<mapsto> es @ [next_event now r ty pl es])"
    using append_event_ok [OF ok some] by simp
qed (auto simp: log_ok_append_event append_event_missing list_events_def log_ok_stream
       init_run_stream_def split: option.splits)

section \<open>Properties of the log\<close>

text \<open>
  The event log numbers each run's events 1, 2, 3, ... without gaps, keeps its counter one ahead
  of them and keeps that under every operation: creating a stream, appending (also when it
  raises), and listing.
\<close>

theorem event_log_stays_numbered:
  assumes "log_ok l"
  shows "log_ok (snd (init_run_stream r l)) \<and> log_ok (snd (append_event now r ty pl l)) \<and>
         log_ok (snd (list_events r a l))"
  using assms by (simp add: log_ok_init log_ok_append_event list_events_state)

text \<open>
  A reader that has seen all \<open>es\<close> of a run and, after any batch of appends, asks for the
  events after the last number it saw gets exactly the appended events, in order.
\<close>

theorem polling_loses_nothing:
  assumes "log_ok l" and "internal_run_events l r = Some es"
  shows "\<exists>new. list_events r (Some (int (length es))) (snd (append_all append_event r xs l)) =
                 (Inr new, snd (append_all append_event r xs l)) \<and>
               internal_run_events (snd (append_all append_event r xs l)) r = Some (es @ new) \<and>
               length new = length xs"
  using assms by (rule mem_log.listing_pages)

end
