(* ===== verification/SignalQueue.thy ===== *)
theory SignalQueue
  imports Prelude
begin

text \<open>
  The worker wake-up signal (\<open>local_runtime/run_signal_queue/queue.py\<close>): an
  \<open>asyncio.Event\<close> that \<open>notify\<close> sets and \<open>wait\<close> clears when it returns.
\<close>

record signal_queue =
  sq_event :: bool
  sq_default_timeout :: rat

definition new_signal_queue :: signal_queue where
  "new_signal_queue = \<lparr> sq_event = False, sq_default_timeout = 5 \<rparr>"

definition notify :: "signal_queue \<Rightarrow> signal_queue" where
  "notify q = q\<lparr> sq_event := True \<rparr>"

text \<open>\<open>timeout or self._default_timeout\<close>: no timeout and a zero one both mean the default.\<close>

definition effective_timeout :: "signal_queue \<Rightarrow> rat option \<Rightarrow> rat" where
  "effective_timeout q timeout =
     (case timeout of None \<Rightarrow> sq_default_timeout q
      | Some t \<Rightarrow> if t = 0 then sq_default_timeout q else t)"

datatype wake = Signalled | WaitTimedOut

text \<open>
  \<open>wait\<close> returns at once when the event is set; otherwise when a notification comes within
  the timeout (\<open>notified_after\<close> is how long after the start it comes, if it comes at all) or
  when the timeout elapses. It yields why it returned and how long it took. The event is cleared
  on every path.
\<close>

definition wait :: "rat option \<Rightarrow> rat option \<Rightarrow> signal_queue \<Rightarrow> (wake \<times> rat) \<times> signal_queue" where
  "wait timeout notified_after q =
     (let limit = effective_timeout q timeout;
          outcome = (if sq_event q then (Signalled, 0)
                     else case notified_after of
                            None \<Rightarrow> (WaitTimedOut, limit)
                          | Some d \<Rightarrow> if d < limit then (Signalled, d) else (WaitTimedOut, limit))
      in (outcome, q\<lparr> sq_event := False \<rparr>))"

lemma notify_event [simp]: "sq_event (notify q)"
  by (simp add: notify_def)

lemma wait_clears [simp]: "sq_event (snd (wait t n q)) = False"
  by (simp add: wait_def Let_def)

section \<open>Properties\<close>

text \<open>
  A notification sent while no one waits is not lost: the next wait returns at once, signalled,
  and consumes it; the wait after that blocks until a new notification or its timeout.
\<close>

theorem notify_is_not_lost:
  "fst (wait t n (notify q)) = (Signalled, 0) \<and>
   fst (wait t' None (snd (wait t n (notify q)))) = (WaitTimedOut, effective_timeout q t')"
  by (cases t') (simp_all add: wait_def notify_def Let_def effective_timeout_def)

text \<open>
  A wait never takes longer than its effective timeout, which is positive for every timeout
  that is not negative when the default is positive; so a missed notification delays a worker by
  at most that much.
\<close>

theorem wait_is_bounded:
  assumes "0 < sq_default_timeout q" and "\<And>t. timeout = Some t \<Longrightarrow> 0 \<le> t"
  shows "snd (fst (wait timeout n q)) \<le> effective_timeout q timeout \<and>
         0 < effective_timeout q timeout \<and> (timeout = None \<longrightarrow> effective_timeout q timeout = sq_default_timeout q)"
  using assms by (cases timeout; cases n) (auto simp: wait_def effective_timeout_def Let_def order_less_le)

end
