(* ===== verification/Runtime.thy ===== *)
theory Runtime
  imports EventLog SignalQueue
begin

text \<open>
  The in-memory runtime that API and workers share (\<open>local_runtime/provider.py\<close>): the run
  dictionary, the event log and the wake-up signal; the primitive accesses both stores make to
  it; and the abstract specification of the stores: one step changes one run along its life
  cycle and appends the event that says so.

  Both stores hold their asyncio lock over a whole operation, and the only things awaited inside
  are the log's operations, which never suspend. So an operation of a store is one atomic
  function of the runtime; it reads the clock once, as the argument \<open>now\<close>.
\<close>

section \<open>The shared state\<close>

record runtime =
  rt_runs :: "(uuid, RunStatus) dict"
  rt_events :: event_log
  rt_signal :: signal_queue

definition create_default_in_memory_runtime :: runtime where
  "create_default_in_memory_runtime =
     \<lparr> rt_runs = [], rt_events = empty_event_log, rt_signal = new_signal_queue \<rparr>"

text \<open>\<open>self._runs[run_id]\<close> and \<open>self._runs[run_id] = run_status\<close>.\<close>

definition get_item :: "uuid \<Rightarrow> (runtime, RunStatus) prog" where
  "get_item run_id = (\<lambda>s. case map_of (rt_runs s) run_id of
     None \<Rightarrow> (Inl (KeyError (uuid_repr run_id)), s) | Some rs \<Rightarrow> (Inr rs, s))"

definition set_item :: "uuid \<Rightarrow> RunStatus \<Rightarrow> (runtime, unit) prog" where
  "set_item run_id rs = modify (\<lambda>s. s\<lparr> rt_runs := dict_set run_id rs (rt_runs s) \<rparr>)"

text \<open>\<open>if run_id not in self._runs: raise RunNotFoundError\<close>, then the lookup.\<close>

definition get_found :: "uuid \<Rightarrow> (runtime, RunStatus) prog" where
  "get_found run_id = (\<lambda>s. case map_of (rt_runs s) run_id of
     None \<Rightarrow> (Inl (RunNotFoundError run_id), s) | Some rs \<Rightarrow> (Inr rs, s))"

text \<open>An operation of the event log, on the runtime's log.\<close>

definition with_log :: "(event_log, 'a) prog \<Rightarrow> (runtime, 'a) prog" where
  "with_log m = (\<lambda>s. case m (rt_events s) of (r, l) \<Rightarrow> (r, s\<lparr> rt_events := l \<rparr>))"

abbreviation log_append ::
    "unix_ts \<Rightarrow> uuid \<Rightarrow> string \<Rightarrow> pydict \<Rightarrow> (runtime, RunEvent) prog" where
  "log_append now run_id ty pl \<equiv> with_log (append_event now run_id ty pl)"

definition notify_signal :: "(runtime, unit) prog" where
  "notify_signal = modify (\<lambda>s. s\<lparr> rt_signal := notify (rt_signal s) \<rparr>)"

definition wait_signal :: "rat option \<Rightarrow> rat option \<Rightarrow> (runtime, wake \<times> rat) prog" where
  "wait_signal timeout notified_after =
     (\<lambda>s. case wait timeout notified_after (rt_signal s) of
            (r, q) \<Rightarrow> (Inr r, s\<lparr> rt_signal := q \<rparr>))"

section \<open>Lease times\<close>

definition has_claim_expired :: "unix_ts \<Rightarrow> RunStatus \<Rightarrow> bool" where
  "has_claim_expired now run_status =
     (case rs_claim_expiration run_status of
        None \<Rightarrow> False
      | Some t \<Rightarrow> if t = 0 then False else if now > t then True else False)"

definition get_new_expiration_ts :: "unix_ts \<Rightarrow> unix_ts" where
  "get_new_expiration_ts now = now + 30"

section \<open>Well-formed runtimes\<close>

definition run_ok :: "uuid \<Rightarrow> RunStatus \<Rightarrow> bool" where
  "run_ok k rs \<longleftrightarrow>
     rs_id rs = k \<and> rs_retry_count rs \<noteq> None \<and>
     (rs_status rs = RUNNING \<longrightarrow> rs_claimed_worker rs \<noteq> None \<and> rs_claim_expiration rs \<noteq> None)"

definition runtime_ok :: "runtime \<Rightarrow> bool" where
  "runtime_ok s \<longleftrightarrow>
     distinct (dict_keys (rt_runs s)) \<and> log_ok (rt_events s) \<and>
     dom (internal_run_events (rt_events s)) = set (dict_keys (rt_runs s)) \<and>
     (\<forall>k rs. map_of (rt_runs s) k = Some rs \<longrightarrow> run_ok k rs)"

abbreviation run_of :: "runtime \<Rightarrow> uuid \<Rightarrow> RunStatus option" where
  "run_of s k \<equiv> map_of (rt_runs s) k"

abbreviation stream_of :: "runtime \<Rightarrow> uuid \<Rightarrow> RunEvent list option" where
  "stream_of s k \<equiv> internal_run_events (rt_events s) k"

lemma runtime_ok_default: "runtime_ok create_default_in_memory_runtime"
  by (simp add: runtime_ok_def create_default_in_memory_runtime_def log_ok_empty)
     (simp add: empty_event_log_def)

lemma runtime_ok_log: "runtime_ok s \<Longrightarrow> log_ok (rt_events s)"
  by (simp add: runtime_ok_def)

lemma runtime_ok_run: "runtime_ok s \<Longrightarrow> run_of s k = Some rs \<Longrightarrow> run_ok k rs"
  by (simp add: runtime_ok_def)

lemma runtime_ok_stream: "runtime_ok s \<Longrightarrow> run_of s k = Some rs \<Longrightarrow> \<exists>es. stream_of s k = Some es"
  by (metis domD map_of_key runtime_ok_def)

lemma runtime_ok_signal [simp]: "runtime_ok (s\<lparr> rt_signal := q \<rparr>) = runtime_ok s"
  by (simp add: runtime_ok_def)

lemma runtime_update_order:
  "s\<lparr> rt_events := l, rt_runs := d \<rparr> = s\<lparr> rt_runs := d, rt_events := l \<rparr>"
  by simp

section \<open>Committing a change\<close>

text \<open>The run is replaced and, with an event, the event is appended to its stream.\<close>

definition log_extend :: "unix_ts \<Rightarrow> uuid \<Rightarrow> (string \<times> pydict) option \<Rightarrow> event_log \<Rightarrow> event_log" where
  "log_extend now k ev l =
     (case ev of None \<Rightarrow> l | Some (ty, pl) \<Rightarrow> snd (append_event now k ty pl l))"

definition commit ::
    "unix_ts \<Rightarrow> uuid \<Rightarrow> RunStatus \<Rightarrow> (string \<times> pydict) option \<Rightarrow> runtime \<Rightarrow> runtime" where
  "commit now k rs ev s =
     s\<lparr> rt_runs := dict_set k rs (rt_runs s), rt_events := log_extend now k ev (rt_events s) \<rparr>"

lemma commit_signal [simp]: "rt_signal (commit now k rs ev s) = rt_signal s"
  by (simp add: commit_def)

lemma commit_run [simp]:
  "run_of (commit now k rs ev s) k' = (if k' = k then Some rs else run_of s k')"
  by (simp add: commit_def map_of_dict_set)

lemma commit_keys:
  "run_of s k = Some rs0 \<Longrightarrow> dict_keys (rt_runs (commit now k rs ev s)) = dict_keys (rt_runs s)"
  by (simp add: commit_def keys_dict_set_present)

lemma stream_of_commit:
  assumes "runtime_ok s" and "stream_of s k = Some es"
  shows "internal_run_events (rt_events (commit now k rs ev s)) =
           (case ev of None \<Rightarrow> internal_run_events (rt_events s)
            | Some (ty, pl) \<Rightarrow>
                (internal_run_events (rt_events s))(k \<mapsto> es @ [next_event now k ty pl es]))"
  using append_event_ok [OF runtime_ok_log [OF assms(1)] assms(2)]
  by (auto simp: commit_def log_extend_def split: option.splits)

lemma log_ok_extend: "log_ok l \<Longrightarrow> log_ok (log_extend now k ev l)"
  by (auto simp: log_extend_def log_ok_append_event split: option.splits)

lemma runtime_ok_commit:
  assumes ok: "runtime_ok s" and run: "run_of s k = Some rs0" and rs: "run_ok k rs"
  shows "runtime_ok (commit now k rs ev s)"
proof -
  let ?t = "commit now k rs ev s"
  obtain es where es: "stream_of s k = Some es" using runtime_ok_stream [OF ok run] ..
  have keys: "dict_keys (rt_runs ?t) = dict_keys (rt_runs s)" by (rule commit_keys [OF run])
  have "dom (internal_run_events (rt_events ?t)) = dom (internal_run_events (rt_events s))"
    using stream_of_commit [OF ok es] es by (auto split: option.splits)
  moreover have "log_ok (rt_events ?t)"
    using runtime_ok_log [OF ok] by (simp add: commit_def log_ok_extend)
  ultimately show ?thesis
    using ok keys rs unfolding runtime_ok_def by auto
qed

text \<open>The two primitives in sequence are one commit.\<close>

lemma set_then_append:
  assumes ok: "runtime_ok s" and run: "run_of s k = Some rs0"
  shows "bindM (set_item k rs) (\<lambda>_. bindM (log_append now k ty pl) f) s =
           f (next_event now k ty pl (the (stream_of s k))) (commit now k rs (Some (ty, pl)) s)"
proof -
  obtain es where es: "stream_of s k = Some es" using runtime_ok_stream [OF ok run] ..
  note app = append_event_ok [OF runtime_ok_log [OF ok] es]
  show ?thesis
    by (simp add: bindM_def set_item_def modify_def with_log_def app commit_def log_extend_def es)
qed

section \<open>The life cycle of a run\<close>

text \<open>
  The abstract specification: what one atomic operation may do to one run, and the event it
  records. \<open>TIMED_OUT\<close> and \<open>RETRYING\<close> do not appear as results: lease recovery passes
  through them inside one operation. An executor may record events of its own (\<open>emit\<close>), of
  types that the stores do not use.
\<close>

definition lifecycle_types :: "string set" where
  "lifecycle_types = {''created'', ''enqueued'', ''claimed'', ''claim_expired'', ''claim_lost'',
     ''run_failed'', ''run_succeeded'', ''cancelled'', ''cancel requested''}"

inductive life_step ::
    "unix_ts \<Rightarrow> RunStatus \<Rightarrow> (string \<times> pydict) option \<Rightarrow> RunStatus \<Rightarrow> bool" for now where
  enqueue: "rs_status rs \<in> {CREATED, RETRYING} \<Longrightarrow>
    life_step now rs (Some (''enqueued'', []))
      (new_run_status (rs_id rs) ENQUEUED (rs_result rs) (rs_error rs))"
| claim: "rs_status rs = ENQUEUED \<Longrightarrow> \<not> rs_cancel_requested rs \<Longrightarrow>
    life_step now rs (Some (''claimed'', [(''worker'', PStr w)]))
      (rs\<lparr> rs_status := RUNNING, rs_claimed_worker := Some w,
           rs_claim_expiration := Some (get_new_expiration_ts now) \<rparr>)"
| expire: "rs_status rs = RUNNING \<Longrightarrow> has_claim_expired now rs \<Longrightarrow> rs_retry_count rs = Some n \<Longrightarrow>
    life_step now rs (Some (''claim_expired'', []))
      (rs\<lparr> rs_status := ENQUEUED, rs_claimed_worker := Some w, rs_retry_count := Some (n + 1) \<rparr>)"
| beat: "rs_status rs = RUNNING \<Longrightarrow> rs_claimed_worker rs = Some w \<Longrightarrow>
    life_step now rs None (rs\<lparr> rs_claim_expiration := Some (get_new_expiration_ts now) \<rparr>)"
| lost: "rs_status rs = RUNNING \<Longrightarrow> rs_claimed_worker rs \<noteq> Some w \<Longrightarrow>
    life_step now rs (Some (''claim_lost'', [(''worker'', PStr w)])) rs"
| fail: "rs_status rs = RUNNING \<Longrightarrow>
    life_step now rs (Some (''run_failed'', [(''error'', PStr e)]))
      (rs\<lparr> rs_status := FAILED, rs_error := Some e \<rparr>)"
| succeed: "rs_status rs = RUNNING \<Longrightarrow>
    life_step now rs (Some (''run_succeeded'', [(''result'', PStr ''done'')]))
      (rs\<lparr> rs_status := SUCCEEDED, rs_result := Some d \<rparr>)"
| cancel: "rs_status rs \<in> {CREATED, ENQUEUED, RUNNING} \<Longrightarrow>
    life_step now rs (Some (''cancelled'', [])) (rs\<lparr> rs_status := CANCELLED \<rparr>)"
| mark_cancel: "rs_status rs \<in> {CREATED, ENQUEUED, RUNNING} \<Longrightarrow>
    life_step now rs (Some (''cancelled'', []))
      (new_run_status (rs_id rs) CANCELLED (rs_result rs) (rs_error rs))"
| request: "rs_status rs \<notin> TERMINAL_RUN_STATUSES \<Longrightarrow> \<not> rs_cancel_requested rs \<Longrightarrow>
    life_step now rs (Some (''cancel requested'', [])) (rs\<lparr> rs_cancel_requested := True \<rparr>)"
| emit: "ty \<notin> lifecycle_types \<Longrightarrow> life_step now rs (Some (ty, pl)) rs"

inductive_cases life_stepE: "life_step now rs ev rs'"

lemma life_step_run_ok: "life_step now rs ev rs' \<Longrightarrow> run_ok k rs \<Longrightarrow> run_ok k rs'"
  by (erule life_step.cases) (auto simp: run_ok_def)

lemma life_step_terminal:
  "life_step now rs ev rs' \<Longrightarrow> rs_status rs \<in> TERMINAL_RUN_STATUSES \<Longrightarrow> rs' = rs"
  by (erule life_step.cases) (auto simp: TERMINAL_RUN_STATUSES_def)

section \<open>The abstract store\<close>

definition created_run :: "unix_ts \<Rightarrow> uuid \<Rightarrow> string \<Rightarrow> runtime \<Rightarrow> runtime" where
  "created_run now k user_id s =
     s\<lparr> rt_runs := dict_set k (new_run_status k CREATED None None) (rt_runs s),
        rt_events := snd (append_event now k ''created'' [(''user_id'', PStr user_id)]
                            (snd (init_run_stream k (rt_events s)))) \<rparr>"

inductive store_step :: "unix_ts \<Rightarrow> runtime \<Rightarrow> runtime \<Rightarrow> bool" for now where
  create: "run_of s k = None \<Longrightarrow> store_step now s (created_run now k user s)"
| life: "run_of s k = Some rs \<Longrightarrow> life_step now rs ev rs' \<Longrightarrow>
    store_step now s (commit now k rs' ev s)"
| signal: "store_step now s (s\<lparr> rt_signal := q \<rparr>)"

lemma created_run_stream:
  assumes "runtime_ok s" and "run_of s k = None"
  shows "internal_run_events (rt_events (created_run now k u s)) =
           (internal_run_events (rt_events s))
             (k \<mapsto> [next_event now k ''created'' [(''user_id'', PStr u)] []])"
    and "log_ok (rt_events (created_run now k u s))"
proof -
  have none: "stream_of s k = None"
    using assms by (metis domIff map_of_None_keys runtime_ok_def)
  let ?l = "snd (init_run_stream k (rt_events s))"
  have ok: "log_ok ?l" using assms(1) by (simp add: log_ok_init runtime_ok_log)
  have st: "internal_run_events ?l = (internal_run_events (rt_events s))(k \<mapsto> [])"
    using none by (auto simp: init_run_stream_def)
  then have sk: "internal_run_events ?l k = Some []" by simp
  show "internal_run_events (rt_events (created_run now k u s)) =
           (internal_run_events (rt_events s))
             (k \<mapsto> [next_event now k ''created'' [(''user_id'', PStr u)] []])"
    using append_event_ok [OF ok sk] st by (simp add: created_run_def)
  show "log_ok (rt_events (created_run now k u s))"
    using log_ok_append_event [OF ok] by (simp add: created_run_def)
qed

lemma created_run_of [simp]:
  "run_of (created_run now k u s) k' =
     (if k' = k then Some (new_run_status k CREATED None None) else run_of s k')"
  by (simp add: created_run_def map_of_dict_set)

lemma runtime_ok_created:
  assumes "runtime_ok s" and "run_of s k = None"
  shows "runtime_ok (created_run now k u s)"
proof -
  let ?t = "created_run now k u s"
  have fresh: "k \<notin> set (dict_keys (rt_runs s))" using assms(2) by (simp add: map_of_None_keys)
  then have keys: "dict_keys (rt_runs ?t) = dict_keys (rt_runs s) @ [k]"
    by (simp add: created_run_def keys_dict_set)
  show ?thesis
    using assms(1) fresh keys created_run_stream [OF assms, of now u]
    unfolding runtime_ok_def by (auto simp: run_ok_def)
qed

lemma store_step_ok: "store_step now s t \<Longrightarrow> runtime_ok s \<Longrightarrow> runtime_ok t"
proof (induction rule: store_step.induct)
  case (life s k rs ev rs')
  then have "run_ok k rs'" by (meson life_step_run_ok runtime_ok_run)
  with life show ?case by (blast intro: runtime_ok_commit)
qed (simp_all add: runtime_ok_created)

text \<open>
  The simulation relation of an operation: from a well-formed runtime it does a sequence of
  abstract steps and stays well-formed. It is a preorder, so it composes.
\<close>

definition store_effect :: "unix_ts \<Rightarrow> runtime \<Rightarrow> runtime \<Rightarrow> bool" where
  "store_effect now s t \<longleftrightarrow> (runtime_ok s \<longrightarrow> runtime_ok t \<and> (store_step now)\<^sup>*\<^sup>* s t)"

interpretation store: effect_preorder "store_effect now" for now
  by unfold_locales (auto simp: store_effect_def)

lemma store_effect_step: "store_step now s t \<Longrightarrow> store_effect now s t"
  by (auto simp: store_effect_def store_step_ok)

text \<open>Only well-formed runtimes matter, so each operation is looked at through its case lemma.\<close>

lemma effect_inI_ok:
  "(\<And>s. runtime_ok s \<Longrightarrow> store_effect now s (snd (m s))) \<Longrightarrow> effect_in (store_effect now) m"
  by (auto intro!: effect_inI simp: store_effect_def)

lemma effect_commit:
  "run_of s k = Some rs \<Longrightarrow> life_step now rs ev rs' \<Longrightarrow> store_effect now s (commit now k rs' ev s)"
  by (rule store_effect_step [OF store_step.life])

lemma store_effect_same: "store_effect now s s"
  by (simp add: store_effect_def)

lemma get_item_run: "run_of s k = Some rs \<Longrightarrow> get_item k s = (Inr rs, s)"
  by (simp add: get_item_def)

lemma get_item_missing: "run_of s k = None \<Longrightarrow> get_item k s = (Inl (KeyError (uuid_repr k)), s)"
  by (simp add: get_item_def)

lemma get_found_run: "run_of s k = Some rs \<Longrightarrow> get_found k s = (Inr rs, s)"
  by (simp add: get_found_def)

lemma get_found_missing: "run_of s k = None \<Longrightarrow> get_found k s = (Inl (RunNotFoundError k), s)"
  by (simp add: get_found_def)

lemmas lookup_simps = get_item_run get_item_missing get_found_run get_found_missing

lemma effect_reads:
  "effect_in (store_effect now) (get_item k)" "effect_in (store_effect now) (get_found k)"
  by (auto intro!: effect_inI simp: get_item_def get_found_def store_effect_same split: option.split)

lemma effect_wait: "effect_in (store_effect now) (wait_signal t n)"
  by (rule effect_inI)
     (simp add: wait_signal_def store_effect_step store_step.signal split: prod.split)

lemma effect_notify: "effect_in (store_effect now) notify_signal"
  by (rule effect_inI)
     (simp add: notify_signal_def modify_def store_effect_step store_step.signal)

end
