(* ===== verification/IntakeStore.thy ===== *)
theory IntakeStore
  imports Runtime
begin

text \<open>
  The API side of the run store (\<open>local_runtime/run_store/intake.py\<close>, the protocol
  \<open>RunIntakeStore\<close> of \<open>services/agent/store.py\<close>): one definition per method, then what each
  method does on every branch, and that each is a sequence of abstract store steps.
\<close>

section \<open>Operations\<close>

text \<open>The id that \<open>uuid4()\<close> yields is an argument.\<close>

definition create_run :: "unix_ts \<Rightarrow> uuid \<Rightarrow> RunRequest \<Rightarrow> (runtime, RunStatus) prog" where
  "create_run now run_id run_request =
     (let run_status = new_run_status run_id CREATED None None in
      bindM (set_item run_id run_status) (\<lambda>_.
      bindM (with_log (init_run_stream run_id)) (\<lambda>_.
      bindM (log_append now run_id ''created'' [(''user_id'', PStr (req_user_id run_request))]) (\<lambda>_.
      ret run_status))))"

definition intake_get_status :: "uuid \<Rightarrow> (runtime, RunStatus) prog" where
  "intake_get_status run_id = get_found run_id"

definition mark_enqueued :: "transition_rules \<Rightarrow> unix_ts \<Rightarrow> uuid \<Rightarrow> (runtime, unit) prog" where
  "mark_enqueued policy now run_id =
     bindM (get_item run_id) (\<lambda>run_status.
     bindM (liftE (validate policy run_status ENQUEUED)) (\<lambda>_.
     bindM (set_item run_id
              (new_run_status (rs_id run_status) ENQUEUED (rs_result run_status)
                 (rs_error run_status))) (\<lambda>_.
     bindM (log_append now run_id ''enqueued'' []) (\<lambda>_.
     ret ()))))"

definition mark_cancelled :: "transition_rules \<Rightarrow> unix_ts \<Rightarrow> uuid \<Rightarrow> (runtime, bool) prog" where
  "mark_cancelled policy now run_id =
     bindM (get_found run_id) (\<lambda>run_status.
     if rs_status run_status \<in> TERMINAL_RUN_STATUSES then ret False
     else
       bindM (liftE (validate policy run_status CANCELLED)) (\<lambda>_.
       bindM (set_item run_id
                (new_run_status (rs_id run_status) CANCELLED (rs_result run_status)
                   (rs_error run_status))) (\<lambda>_.
       bindM (log_append now run_id ''cancelled'' []) (\<lambda>_.
       ret True))))"

definition request_cancellation :: "unix_ts \<Rightarrow> uuid \<Rightarrow> (runtime, bool) prog" where
  "request_cancellation now run_id =
     bindM (get_found run_id) (\<lambda>run_status.
     if rs_status run_status \<in> TERMINAL_RUN_STATUSES then ret False
     else if rs_cancel_requested run_status then ret False
     else
       bindM (set_item run_id
                \<lparr> rs_id = rs_id run_status,
                  rs_status = rs_status run_status,
                  rs_result = rs_result run_status,
                  rs_error = rs_error run_status,
                  rs_claimed_worker = rs_claimed_worker run_status,
                  rs_claim_expiration = rs_claim_expiration run_status,
                  rs_retry_count = rs_retry_count run_status,
                  rs_cancel_requested = True \<rparr>) (\<lambda>_.
       bindM (log_append now run_id ''cancel requested'' []) (\<lambda>_.
       ret True)))"

definition get_events :: "uuid \<Rightarrow> int option \<Rightarrow> (runtime, RunEvent list) prog" where
  "get_events run_id after_sequence =
     bindM (get_found run_id) (\<lambda>_. with_log (list_events run_id after_sequence))"

section \<open>What each operation does\<close>

lemma create_run_fresh:
  assumes "runtime_ok s" and "run_of s k = None"
  shows "create_run now k req s =
           (Inr (new_run_status k CREATED None None), created_run now k (req_user_id req) s)"
proof -
  have none: "stream_of s k = None"
    using assms by (metis domIff map_of_None_keys runtime_ok_def)
  obtain l where init: "init_run_stream k (rt_events s) = (Inr (), l)"
    using none by (simp add: init_run_stream_def domIff)
  then have ok: "log_ok l"
    using log_ok_init [OF runtime_ok_log [OF assms(1)], of k] by simp
  have "internal_run_events l k = Some []"
    using none init by (auto simp: init_run_stream_def domIff)
  note app = append_event_ok [OF ok this]
  show ?thesis
    by (simp add: create_run_def Let_def bindM_def set_item_def modify_def with_log_def ret_def
        created_run_def init app)
qed

lemma mark_enqueued_cases:
  assumes ok: "runtime_ok s"
  shows "mark_enqueued default_policy now k s =
    (case run_of s k of
       None \<Rightarrow> (Inl (KeyError (uuid_repr k)), s)
     | Some rs \<Rightarrow>
         if rs_status rs \<in> {CREATED, RETRYING}
         then (Inr (), commit now k (new_run_status (rs_id rs) ENQUEUED (rs_result rs) (rs_error rs))
                         (Some (''enqueued'', [])) s)
         else (Inl (ValueError (''Invalid transition: '' @ code_text (rs_status rs)
                      @ '' -> '' @ code_text ENQUEUED)), s))"
proof (cases "run_of s k")
  case None
  then show ?thesis by (simp add: mark_enqueued_def bindM_Inl lookup_simps)
next
  case (Some rs)
  then show ?thesis
    by (cases "rs_status rs")
       (simp_all add: mark_enqueued_def bindM_Inr lookup_simps validate_default liftE_def
          bindM_Inl [of "\<lambda>s. (Inl _, s)"] ret_def set_then_append [OF ok Some])
qed

lemma mark_cancelled_cases:
  assumes ok: "runtime_ok s"
  shows "mark_cancelled default_policy now k s =
    (case run_of s k of
       None \<Rightarrow> (Inl (RunNotFoundError k), s)
     | Some rs \<Rightarrow>
         if rs_status rs \<in> TERMINAL_RUN_STATUSES then (Inr False, s)
         else if rs_status rs \<in> {CREATED, ENQUEUED, RUNNING}
         then (Inr True, commit now k (new_run_status (rs_id rs) CANCELLED (rs_result rs) (rs_error rs))
                           (Some (''cancelled'', [])) s)
         else (Inl (ValueError (''Invalid transition: '' @ code_text (rs_status rs)
                      @ '' -> '' @ code_text CANCELLED)), s))"
proof (cases "run_of s k")
  case None
  then show ?thesis by (simp add: mark_cancelled_def bindM_Inl lookup_simps)
next
  case (Some rs)
  then show ?thesis
    by (cases "rs_status rs")
       (simp_all add: mark_cancelled_def bindM_Inr lookup_simps validate_default liftE_def
          bindM_Inl [of "\<lambda>s. (Inl _, s)"] ret_def set_then_append [OF ok Some])
qed

lemma request_cancellation_cases:
  assumes ok: "runtime_ok s"
  shows "request_cancellation now k s =
    (case run_of s k of
       None \<Rightarrow> (Inl (RunNotFoundError k), s)
     | Some rs \<Rightarrow>
         if rs_status rs \<in> TERMINAL_RUN_STATUSES \<or> rs_cancel_requested rs then (Inr False, s)
         else (Inr True, commit now k (rs\<lparr> rs_cancel_requested := True \<rparr>)
                           (Some (''cancel requested'', [])) s))"
proof (cases "run_of s k")
  case None
  then show ?thesis by (simp add: request_cancellation_def bindM_Inl lookup_simps)
next
  case (Some rs)
  then show ?thesis
    by (cases rs) (auto simp: request_cancellation_def bindM_Inr lookup_simps ret_def
        set_then_append [OF ok Some])
qed

lemma get_events_cases:
  assumes ok: "runtime_ok s"
  shows "get_events k a s =
    (case run_of s k of
       None \<Rightarrow> (Inl (RunNotFoundError k), s)
     | Some rs \<Rightarrow>
         (Inr (case a of None \<Rightarrow> the (stream_of s k)
               | Some n \<Rightarrow> filter (\<lambda>e. ev_sequence_nr e > n) (the (stream_of s k))), s))"
proof (cases "run_of s k")
  case None
  then show ?thesis by (simp add: get_events_def bindM_Inl lookup_simps)
next
  case (Some rs)
  then obtain es where "stream_of s k = Some es" using runtime_ok_stream [OF ok] by blast
  with Some show ?thesis
    by (cases a) (simp_all add: get_events_def bindM_Inr lookup_simps with_log_def list_events_def)
qed

section \<open>Every operation implements the abstract store\<close>

lemma effect_mark_enqueued: "effect_in (store_effect now) (mark_enqueued default_policy now k)"
  by (rule effect_inI_ok)
     (auto simp: mark_enqueued_cases store_effect_same intro!: effect_commit life_step.enqueue
        split: option.split)

lemma effect_mark_cancelled: "effect_in (store_effect now) (mark_cancelled default_policy now k)"
  by (rule effect_inI_ok)
     (auto simp: mark_cancelled_cases store_effect_same intro!: effect_commit life_step.mark_cancel
        split: option.split)

lemma effect_request_cancellation: "effect_in (store_effect now) (request_cancellation now k)"
  by (rule effect_inI_ok)
     (auto simp: request_cancellation_cases store_effect_same intro!: effect_commit life_step.request
        split: option.split)

lemma effect_get_events: "effect_in (store_effect now) (get_events k a)"
  by (rule effect_inI_ok) (auto simp: get_events_cases store_effect_same split: option.split)

lemma effect_create_run:
  assumes "run_of s k = None"
  shows "store_effect now s (snd (create_run now k req s))"
proof (cases "runtime_ok s")
  case True
  then show ?thesis
    using assms by (simp add: create_run_fresh store_effect_step store_step.create)
qed (simp add: store_effect_def)

end
