(* ===== verification/ProcessingStore.thy ===== *)
theory ProcessingStore
  imports IntakeStore
begin

text \<open>
  The worker side of the run store (\<open>local_runtime/run_store/processing.py\<close>, the protocol
  \<open>RunProcessingStore\<close>): claiming with lease recovery, heartbeats, and the terminal
  transitions; what each does on every branch; and that each implements the abstract store.
\<close>

section \<open>Operations\<close>

definition transition_locked ::
    "transition_rules \<Rightarrow> uuid \<Rightarrow> RunStatusCode \<Rightarrow> TransitionRequestParams option \<Rightarrow>
     (runtime, unit) prog" where
  "transition_locked policy run_id target_status transition_request =
     bindM (get_item run_id) (\<lambda>run_status.
     let request = (case transition_request of None \<Rightarrow> no_params | Some p \<Rightarrow> p) in
     bindM (liftE (validate policy run_status target_status)) (\<lambda>_.
     set_item run_id
       \<lparr> rs_id = rs_id run_status,
         rs_status = target_status,
         rs_result = get_value_or_fallback (tr_result request) (rs_result run_status),
         rs_error = get_value_or_fallback (tr_error request) (rs_error run_status),
         rs_claimed_worker =
           get_value_or_fallback (tr_worker_id request) (rs_claimed_worker run_status),
         rs_claim_expiration =
           get_value_or_fallback (tr_expiration_unix_ts request) (rs_claim_expiration run_status),
         rs_retry_count =
           get_value_or_fallback (tr_retry_count request) (rs_retry_count run_status),
         rs_cancel_requested = rs_cancel_requested run_status \<rparr>))"

definition set_cancelled_locked :: "transition_rules \<Rightarrow> unix_ts \<Rightarrow> uuid \<Rightarrow> (runtime, unit) prog" where
  "set_cancelled_locked policy now run_id =
     bindM (transition_locked policy run_id CANCELLED (Some no_params)) (\<lambda>_.
     bindM (log_append now run_id ''cancelled'' []) (\<lambda>_.
     ret ()))"

text \<open>\<open>run_status.retry_count + 1\<close>: adding to \<open>None\<close> raises.\<close>

definition next_retry :: "RunStatus \<Rightarrow> exn + int" where
  "next_retry run_status =
     (case rs_retry_count run_status of
        None \<Rightarrow> Inl (TypeError ''unsupported operand type(s) for +: NoneType and int'')
      | Some n \<Rightarrow> Inr (n + 1))"

definition recover_expired_runs ::
    "transition_rules \<Rightarrow> uuid \<Rightarrow> RunStatus \<Rightarrow> string \<Rightarrow> (runtime, unit) prog" where
  "recover_expired_runs policy run_id run_status worker_id =
     (let transition_request = no_params\<lparr> tr_worker_id := Given (Some worker_id) \<rparr> in
      bindM (transition_locked policy run_id TIMED_OUT (Some transition_request)) (\<lambda>_.
      bindM (liftE (next_retry run_status)) (\<lambda>retry_count.
      let updated_retry = no_params\<lparr> tr_worker_id := Given (Some worker_id),
                                     tr_retry_count := Given (Some retry_count) \<rparr> in
      bindM (transition_locked policy run_id RETRYING (Some updated_retry)) (\<lambda>_.
      transition_locked policy run_id ENQUEUED (Some transition_request)))))"

text \<open>
  The two loops of \<open>claim_run\<close> over \<open>self._runs.items()\<close>. Only values of present keys are
  replaced while iterating, so the keys are those at the start, and the value of each key is the
  one stored when the iteration reaches it.
\<close>

fun expire_loop ::
    "transition_rules \<Rightarrow> unix_ts \<Rightarrow> string \<Rightarrow> uuid list \<Rightarrow> (runtime, unit) prog" where
  "expire_loop policy now worker_id [] = ret ()"
| "expire_loop policy now worker_id (run_id # rest) =
     bindM (get_item run_id) (\<lambda>run_status.
     if rs_status run_status \<noteq> RUNNING then expire_loop policy now worker_id rest
     else if \<not> has_claim_expired now run_status then expire_loop policy now worker_id rest
     else
       bindM (log_append now run_id ''claim_expired'' []) (\<lambda>_.
       bindM (recover_expired_runs policy run_id run_status worker_id) (\<lambda>_.
       expire_loop policy now worker_id rest)))"

fun claim_loop ::
    "transition_rules \<Rightarrow> unix_ts \<Rightarrow> string \<Rightarrow> uuid list \<Rightarrow> (runtime, ClaimedRun option) prog" where
  "claim_loop policy now worker_id [] = ret None"
| "claim_loop policy now worker_id (run_id # rest) =
     bindM (get_item run_id) (\<lambda>run_status.
     if rs_status run_status = ENQUEUED then
       (if rs_cancel_requested run_status then
          bindM (set_cancelled_locked policy now run_id) (\<lambda>_.
          claim_loop policy now worker_id rest)
        else
          let transition_request =
                no_params\<lparr> tr_worker_id := Given (Some worker_id),
                           tr_expiration_unix_ts := Given (Some (get_new_expiration_ts now)) \<rparr> in
          bindM (transition_locked policy run_id RUNNING (Some transition_request)) (\<lambda>_.
          bindM (log_append now run_id ''claimed'' [(''worker'', PStr worker_id)]) (\<lambda>_.
          bindM (get_item run_id) (\<lambda>claimed.
          ret (Some \<lparr> cl_id = run_id, cl_claim_type = ''enqueued'', cl_run_status = claimed \<rparr>)))))
     else claim_loop policy now worker_id rest)"

definition claim_run ::
    "transition_rules \<Rightarrow> unix_ts \<Rightarrow> string \<Rightarrow> (runtime, ClaimedRun option) prog" where
  "claim_run policy now worker_id =
     bindM (gets (\<lambda>s. dict_keys (rt_runs s))) (\<lambda>run_ids.
     bindM (expire_loop policy now worker_id run_ids) (\<lambda>_.
     bindM (gets (\<lambda>s. dict_keys (rt_runs s))) (\<lambda>run_ids.
     claim_loop policy now worker_id run_ids)))"

definition heartbeat :: "unix_ts \<Rightarrow> uuid \<Rightarrow> string \<Rightarrow> (runtime, RunStatus) prog" where
  "heartbeat now run_id worker_id =
     bindM (get_item run_id) (\<lambda>run_status.
     if rs_status run_status = CANCELLED then ret run_status
     else if rs_status run_status \<noteq> RUNNING then ret run_status
     else if rs_claimed_worker run_status \<noteq> Some worker_id then
       bindM (log_append now run_id ''claim_lost'' [(''worker'', PStr worker_id)]) (\<lambda>_.
       throw (RunLeaseLostError (''Run '' @ run_id @ '' is not claimed by '' @ worker_id)))
     else
       let updated_run_status =
             \<lparr> rs_id = rs_id run_status,
               rs_status = RUNNING,
               rs_result = rs_result run_status,
               rs_error = rs_error run_status,
               rs_claimed_worker = Some worker_id,
               rs_claim_expiration = Some (get_new_expiration_ts now),
               rs_retry_count = rs_retry_count run_status,
               rs_cancel_requested = rs_cancel_requested run_status \<rparr> in
       bindM (set_item run_id updated_run_status) (\<lambda>_.
       ret updated_run_status))"

definition set_failed :: "transition_rules \<Rightarrow> unix_ts \<Rightarrow> uuid \<Rightarrow> string \<Rightarrow> (runtime, unit) prog" where
  "set_failed policy now run_id error =
     (let transition_request = no_params\<lparr> tr_error := Given (Some error) \<rparr> in
      bindM (transition_locked policy run_id FAILED (Some transition_request)) (\<lambda>_.
      bindM (log_append now run_id ''run_failed'' [(''error'', PStr error)]) (\<lambda>_.
      ret ())))"

definition set_succeeded :: "transition_rules \<Rightarrow> unix_ts \<Rightarrow> uuid \<Rightarrow> pydict \<Rightarrow> (runtime, unit) prog" where
  "set_succeeded policy now run_id result =
     (let transition_request = no_params\<lparr> tr_result := Given (Some result) \<rparr> in
      bindM (transition_locked policy run_id SUCCEEDED (Some transition_request)) (\<lambda>_.
      bindM (log_append now run_id ''run_succeeded'' [(''result'', PStr ''done'')]) (\<lambda>_.
      ret ())))"

definition processing_get_status :: "uuid \<Rightarrow> (runtime, RunStatus) prog" where
  "processing_get_status run_id = get_found run_id"

definition set_cancelled :: "transition_rules \<Rightarrow> unix_ts \<Rightarrow> uuid \<Rightarrow> (runtime, unit) prog" where
  "set_cancelled policy now run_id = set_cancelled_locked policy now run_id"

section \<open>Transitions\<close>

definition apply_request :: "RunStatusCode \<Rightarrow> TransitionRequestParams \<Rightarrow> RunStatus \<Rightarrow> RunStatus" where
  "apply_request c p rs =
     rs\<lparr> rs_status := c,
         rs_result := get_value_or_fallback (tr_result p) (rs_result rs),
         rs_error := get_value_or_fallback (tr_error p) (rs_error rs),
         rs_claimed_worker := get_value_or_fallback (tr_worker_id p) (rs_claimed_worker rs),
         rs_claim_expiration := get_value_or_fallback (tr_expiration_unix_ts p) (rs_claim_expiration rs),
         rs_retry_count := get_value_or_fallback (tr_retry_count p) (rs_retry_count rs) \<rparr>"

definition invalid_transition :: "RunStatusCode \<Rightarrow> RunStatusCode \<Rightarrow> exn" where
  "invalid_transition c d =
     ValueError (''Invalid transition: '' @ code_text c @ '' -> '' @ code_text d)"

lemma transition_allowed:
  assumes "run_of s k = Some rs" and "allowed (rs_status rs) c"
  shows "transition_locked default_policy k c (Some p) s = set_item k (apply_request c p rs) s"
  using assms
  by (cases rs) (simp add: transition_locked_def bindM_Inr lookup_simps validate_default liftE_def
      apply_request_def)

lemma transition_refused:
  assumes "run_of s k = Some rs" and "\<not> allowed (rs_status rs) c"
  shows "transition_locked default_policy k c (Some p) s =
           (Inl (invalid_transition (rs_status rs) c), s)"
  using assms
  by (simp add: transition_locked_def bindM_Inr lookup_simps validate_default liftE_def
      bindM_Inl [of "\<lambda>s. (Inl _, s)"] invalid_transition_def)

lemma transition_missing:
  "run_of s k = None \<Longrightarrow> transition_locked default_policy k c (Some p) s = (Inl (KeyError (uuid_repr k)), s)"
  by (simp add: transition_locked_def bindM_Inl lookup_simps)

text \<open>A transition followed by its event: the shape of every terminal operation.\<close>

lemma transition_then_append:
  assumes ok: "runtime_ok s"
  shows "bindM (transition_locked default_policy k c (Some p))
           (\<lambda>_. bindM (log_append now k ty pl) (\<lambda>_. ret ())) s =
    (case run_of s k of
       None \<Rightarrow> (Inl (KeyError (uuid_repr k)), s)
     | Some rs \<Rightarrow>
         if allowed (rs_status rs) c
         then (Inr (), commit now k (apply_request c p rs) (Some (ty, pl)) s)
         else (Inl (invalid_transition (rs_status rs) c), s))"
proof (cases "run_of s k")
  case None
  then show ?thesis by (simp add: bindM_Inl transition_missing)
next
  case (Some rs)
  show ?thesis
  proof (cases "allowed (rs_status rs) c")
    case True
    have "bindM (transition_locked default_policy k c (Some p))
           (\<lambda>_. bindM (log_append now k ty pl) (\<lambda>_. ret ())) s =
          bindM (set_item k (apply_request c p rs))
           (\<lambda>_. bindM (log_append now k ty pl) (\<lambda>_. ret ())) s"
      using transition_allowed [OF Some True, of p] by (simp add: bindM_def)
    then show ?thesis
      using Some True set_then_append [OF ok Some] by (simp add: ret_def)
  next
    case False
    then show ?thesis using Some by (simp add: bindM_Inl transition_refused)
  qed
qed

lemma set_failed_cases:
  assumes "runtime_ok s"
  shows "set_failed default_policy now k e s =
    (case run_of s k of
       None \<Rightarrow> (Inl (KeyError (uuid_repr k)), s)
     | Some rs \<Rightarrow>
         if rs_status rs = RUNNING
         then (Inr (), commit now k (rs\<lparr> rs_status := FAILED, rs_error := Some e \<rparr>)
                         (Some (''run_failed'', [(''error'', PStr e)])) s)
         else (Inl (invalid_transition (rs_status rs) FAILED), s))"
proof -
  have "allowed c FAILED = (c = RUNNING)" for c by (cases c) auto
  then show ?thesis
    unfolding set_failed_def Let_def transition_then_append [OF assms]
    by (simp add: apply_request_def split: option.split)
qed

lemma set_succeeded_cases:
  assumes "runtime_ok s"
  shows "set_succeeded default_policy now k d s =
    (case run_of s k of
       None \<Rightarrow> (Inl (KeyError (uuid_repr k)), s)
     | Some rs \<Rightarrow>
         if rs_status rs = RUNNING
         then (Inr (), commit now k (rs\<lparr> rs_status := SUCCEEDED, rs_result := Some d \<rparr>)
                         (Some (''run_succeeded'', [(''result'', PStr ''done'')])) s)
         else (Inl (invalid_transition (rs_status rs) SUCCEEDED), s))"
proof -
  have "allowed c SUCCEEDED = (c = RUNNING)" for c by (cases c) auto
  then show ?thesis
    unfolding set_succeeded_def Let_def transition_then_append [OF assms]
    by (simp add: apply_request_def split: option.split)
qed

lemma set_cancelled_cases:
  assumes "runtime_ok s"
  shows "set_cancelled default_policy now k s =
    (case run_of s k of
       None \<Rightarrow> (Inl (KeyError (uuid_repr k)), s)
     | Some rs \<Rightarrow>
         if rs_status rs \<in> {CREATED, ENQUEUED, RUNNING}
         then (Inr (), commit now k (rs\<lparr> rs_status := CANCELLED \<rparr>) (Some (''cancelled'', [])) s)
         else (Inl (invalid_transition (rs_status rs) CANCELLED), s))"
proof -
  have "allowed c CANCELLED = (c \<in> {CREATED, ENQUEUED, RUNNING})" for c by (cases c) auto
  then show ?thesis
    unfolding set_cancelled_def set_cancelled_locked_def transition_then_append [OF assms]
    by (simp add: apply_request_def split: option.split)
qed

lemma commit_without_event:
  "set_item k rs s = (Inr (), commit now k rs None s)"
  by (simp add: set_item_def modify_def commit_def log_extend_def)

lemma heartbeat_cases:
  assumes ok: "runtime_ok s"
  shows "heartbeat now k w s =
    (case run_of s k of
       None \<Rightarrow> (Inl (KeyError (uuid_repr k)), s)
     | Some rs \<Rightarrow>
         if rs_status rs \<noteq> RUNNING then (Inr rs, s)
         else if rs_claimed_worker rs \<noteq> Some w
         then (Inl (RunLeaseLostError (''Run '' @ k @ '' is not claimed by '' @ w)),
               commit now k rs (Some (''claim_lost'', [(''worker'', PStr w)])) s)
         else (Inr (rs\<lparr> rs_claim_expiration := Some (get_new_expiration_ts now) \<rparr>),
               commit now k (rs\<lparr> rs_claim_expiration := Some (get_new_expiration_ts now) \<rparr>) None s))"
proof (cases "run_of s k")
  case None
  then show ?thesis by (simp add: heartbeat_def bindM_Inl lookup_simps)
next
  case (Some rs)
  then obtain es where es: "stream_of s k = Some es" using runtime_ok_stream [OF ok] by blast
  note app = append_event_ok [OF runtime_ok_log [OF ok] es]
  have same: "dict_set k rs (rt_runs s) = rt_runs s"
    using Some by (simp add: update_triv)
  show ?thesis
    using Some app same
    by (cases rs) (auto simp: heartbeat_def bindM_Inr lookup_simps ret_def Let_def throw_def
        with_log_def commit_def log_extend_def set_item_def modify_def bindM_def)
qed

end
