(* ===== verification/Claiming.thy ===== *)
theory Claiming
  imports ProcessingStore
begin

text \<open>
  What \<open>claim_run\<close> does as a whole: lease recovery over every run, then the first run in
  dictionary order that is enqueued and not cancelled. The loops are summarised by functions on
  single run records; the refinement to the abstract store of every processing operation
  follows.
\<close>

section \<open>The effect on one run\<close>

definition expired_lease :: "unix_ts \<Rightarrow> RunStatus \<Rightarrow> bool" where
  "expired_lease now rs \<longleftrightarrow> rs_status rs = RUNNING \<and> has_claim_expired now rs"

definition recovered :: "unix_ts \<Rightarrow> string \<Rightarrow> RunStatus \<Rightarrow> RunStatus" where
  "recovered now w rs =
     (if expired_lease now rs
      then rs\<lparr> rs_status := ENQUEUED, rs_claimed_worker := Some w,
               rs_retry_count := map_option (\<lambda>n. n + 1) (rs_retry_count rs) \<rparr>
      else rs)"

definition ready :: "RunStatus \<Rightarrow> bool" where
  "ready rs \<longleftrightarrow> rs_status rs = ENQUEUED \<and> \<not> rs_cancel_requested rs"

definition swept :: "RunStatus \<Rightarrow> RunStatus" where
  "swept rs = (if rs_status rs = ENQUEUED \<and> rs_cancel_requested rs
               then rs\<lparr> rs_status := CANCELLED \<rparr> else rs)"

definition claimed_by :: "unix_ts \<Rightarrow> string \<Rightarrow> RunStatus \<Rightarrow> RunStatus" where
  "claimed_by now w rs =
     rs\<lparr> rs_status := RUNNING, rs_claimed_worker := Some w,
         rs_claim_expiration := Some (get_new_expiration_ts now) \<rparr>"

definition ready_at :: "runtime \<Rightarrow> uuid \<Rightarrow> bool" where
  "ready_at s k = (case run_of s k of None \<Rightarrow> False | Some rs \<Rightarrow> ready rs)"

lemma run_ok_recovered: "run_ok k rs \<Longrightarrow> run_ok k (recovered now w rs)"
  by (auto simp: recovered_def run_ok_def)

lemma run_ok_claimed: "run_ok k rs \<Longrightarrow> run_ok k (claimed_by now w rs)"
  by (auto simp: claimed_by_def run_ok_def)

section \<open>Lease recovery\<close>

lemma recover_one:
  assumes ok: "runtime_ok s" and run: "run_of s k = Some rs" and exp: "expired_lease now rs"
  shows "bindM (log_append now k ''claim_expired'' [])
           (\<lambda>_. bindM (recover_expired_runs default_policy k rs w) f) s =
         f () (commit now k (recovered now w rs) (Some (''claim_expired'', [])) s)"
proof -
  obtain es where es: "stream_of s k = Some es" using runtime_ok_stream [OF ok run] ..
  obtain n where n: "rs_retry_count rs = Some n"
    using runtime_ok_run [OF ok run] by (auto simp: run_ok_def)
  have running: "rs_status rs = RUNNING" using exp by (simp add: expired_lease_def)
  note app = append_event_ok [OF runtime_ok_log [OF ok] es]
  show ?thesis
    using run exp n running
    by (simp add: bindM_def with_log_def app recover_expired_runs_def Let_def next_retry_def
        liftE_def transition_allowed map_of_dict_set set_item_def modify_def apply_request_def
        commit_def log_extend_def recovered_def runtime_update_order)
qed

lemma expire_loop_summary:
  assumes "runtime_ok s" and "distinct ks" and "set ks \<subseteq> set (dict_keys (rt_runs s))"
  shows "\<exists>t. expire_loop default_policy now w ks s = (Inr (), t) \<and> runtime_ok t \<and>
           (store_step now)\<^sup>*\<^sup>* s t \<and> dict_keys (rt_runs t) = dict_keys (rt_runs s) \<and>
           rt_signal t = rt_signal s \<and>
           (\<forall>k. run_of t k =
              (if k \<in> set ks then map_option (recovered now w) (run_of s k) else run_of s k))"
  using assms
proof (induction ks arbitrary: s)
  case Nil
  then show ?case by (simp add: ret_def)
next
  case (Cons k ks)
  obtain rs where run: "run_of s k = Some rs" using Cons.prems(3) key_map_of by fastforce
  show ?case
  proof (cases "expired_lease now rs")
    case False
    then have "expire_loop default_policy now w (k # ks) s = expire_loop default_policy now w ks s"
      using run by (simp add: bindM_Inr lookup_simps expired_lease_def)
    moreover have "recovered now w rs = rs" using False by (simp add: recovered_def)
    ultimately show ?thesis
      using Cons.IH [OF Cons.prems(1)] Cons.prems(2,3) run by fastforce
  next
    case True
    let ?s = "commit now k (recovered now w rs) (Some (''claim_expired'', [])) s"
    have go: "expire_loop default_policy now w (k # ks) s = expire_loop default_policy now w ks ?s"
      using run True recover_one [OF Cons.prems(1) run True]
      by (simp add: bindM_Inr lookup_simps expired_lease_def)
    obtain n where n: "rs_retry_count rs = Some n"
      using runtime_ok_run [OF Cons.prems(1) run] by (auto simp: run_ok_def)
    have life: "life_step now rs (Some (''claim_expired'', [])) (recovered now w rs)"
      using True n life_step.expire [of rs now n w] by (simp add: recovered_def expired_lease_def)
    have step: "store_step now s ?s" by (rule store_step.life [OF run life])
    have keys: "dict_keys (rt_runs ?s) = dict_keys (rt_runs s)" by (rule commit_keys [OF run])
    have "set ks \<subseteq> set (dict_keys (rt_runs ?s))" using Cons.prems(3) keys by simp
    from Cons.IH [OF store_step_ok [OF step Cons.prems(1)] _ this] Cons.prems(2)
    obtain t where t: "expire_loop default_policy now w ks ?s = (Inr (), t)" "runtime_ok t"
        "(store_step now)\<^sup>*\<^sup>* ?s t" "dict_keys (rt_runs t) = dict_keys (rt_runs ?s)"
        "rt_signal t = rt_signal ?s"
        "\<And>k'. run_of t k' = (if k' \<in> set ks then map_option (recovered now w) (run_of ?s k')
                              else run_of ?s k')"
      by auto
    show ?thesis
      using t go keys step Cons.prems(2) run
      by (intro exI [of _ t]) (auto intro: converse_rtranclp_into_rtranclp)
  qed
qed

section \<open>The claim loop\<close>

lemma claim_one:
  assumes ok: "runtime_ok s" and run: "run_of s k = Some rs" and rdy: "ready rs"
  shows "claim_loop default_policy now w (k # ks) s =
           (Inr (Some \<lparr> cl_id = k, cl_claim_type = ''enqueued'',
                        cl_run_status = claimed_by now w rs \<rparr>),
            commit now k (claimed_by now w rs) (Some (''claimed'', [(''worker'', PStr w)])) s)"
proof -
  obtain es where es: "stream_of s k = Some es" using runtime_ok_stream [OF ok run] ..
  note app = append_event_ok [OF runtime_ok_log [OF ok] es]
  have "rs_status rs = ENQUEUED" "\<not> rs_cancel_requested rs" using rdy by (simp_all add: ready_def)
  then show ?thesis
    using run
    by (simp add: bindM_def lookup_simps Let_def transition_allowed set_item_def modify_def
        with_log_def app map_of_dict_set ret_def apply_request_def claimed_by_def commit_def
        log_extend_def)
qed

lemma sweep_one:
  assumes ok: "runtime_ok s" and run: "run_of s k = Some rs"
    and "rs_status rs = ENQUEUED" and "rs_cancel_requested rs"
  shows "claim_loop default_policy now w (k # ks) s =
           claim_loop default_policy now w ks (commit now k (swept rs) (Some (''cancelled'', [])) s)"
  using set_cancelled_cases [OF ok, of now k] assms
  by (simp add: bindM_Inr lookup_simps set_cancelled_def swept_def)

lemma skip_one:
  assumes "run_of s k = Some rs" and "rs_status rs \<noteq> ENQUEUED"
  shows "claim_loop default_policy now w (k # ks) s = claim_loop default_policy now w ks s"
  using assms by (simp add: bindM_Inr lookup_simps)

definition claim_result ::
    "unix_ts \<Rightarrow> string \<Rightarrow> runtime \<Rightarrow> uuid list \<Rightarrow> ClaimedRun option" where
  "claim_result now w s ks =
     (case List.find (ready_at s) ks of
        None \<Rightarrow> None
      | Some k \<Rightarrow> Some \<lparr> cl_id = k, cl_claim_type = ''enqueued'',
                        cl_run_status = claimed_by now w (the (run_of s k)) \<rparr>)"

definition claim_effect ::
    "unix_ts \<Rightarrow> string \<Rightarrow> runtime \<Rightarrow> uuid list \<Rightarrow> uuid \<Rightarrow> RunStatus option" where
  "claim_effect now w s ks k =
     (if List.find (ready_at s) ks = Some k then map_option (claimed_by now w) (run_of s k)
      else if k \<in> set (takeWhile (\<lambda>k. \<not> ready_at s k) ks) then map_option swept (run_of s k)
      else run_of s k)"

lemma ready_at_other: "k \<noteq> k' \<Longrightarrow> ready_at (commit now k' rs ev s) k = ready_at s k"
  by (simp add: ready_at_def)

text \<open>\<open>t\<close> is what the loop over \<open>ks\<close> leaves of \<open>s\<close>, and it returns the summary's result.\<close>

definition claims_to :: "unix_ts \<Rightarrow> string \<Rightarrow> uuid list \<Rightarrow> runtime \<Rightarrow> runtime \<Rightarrow> bool" where
  "claims_to now w ks s t \<longleftrightarrow>
     claim_loop default_policy now w ks s = (Inr (claim_result now w s ks), t) \<and>
     runtime_ok t \<and> (store_step now)\<^sup>*\<^sup>* s t \<and> rt_signal t = rt_signal s \<and>
     dict_keys (rt_runs t) = dict_keys (rt_runs s) \<and>
     (\<forall>k. run_of t k = claim_effect now w s ks k)"

lemma claims_here:
  assumes ok: "runtime_ok s" and run: "run_of s k = Some rs" and rdy: "ready rs"
  shows "claims_to now w (k # ks) s
           (commit now k (claimed_by now w rs) (Some (''claimed'', [(''worker'', PStr w)])) s)"
proof -
  let ?t = "commit now k (claimed_by now w rs) (Some (''claimed'', [(''worker'', PStr w)])) s"
  have at: "ready_at s k" using rdy run by (simp add: ready_at_def)
  have "life_step now rs (Some (''claimed'', [(''worker'', PStr w)])) (claimed_by now w rs)"
    using rdy life_step.claim [of rs now w] by (simp add: claimed_by_def ready_def)
  then have step: "store_step now s ?t" by (rule store_step.life [OF run])
  show ?thesis
    unfolding claims_to_def
    using claim_one [OF ok run rdy, of now w ks] at run step store_step_ok [OF step ok] commit_keys [OF run]
    by (auto simp: claim_result_def claim_effect_def simp del: claim_loop.simps)
qed

lemma claims_after_sweep:
  assumes ok: "runtime_ok s" and run: "run_of s k = Some rs" and notin: "k \<notin> set ks"
    and enq: "rs_status rs = ENQUEUED" "rs_cancel_requested rs"
    and t: "claims_to now w ks (commit now k (swept rs) (Some (''cancelled'', [])) s) t"
  shows "claims_to now w (k # ks) s t"
proof -
  let ?s = "commit now k (swept rs) (Some (''cancelled'', [])) s"
  have "life_step now rs (Some (''cancelled'', [])) (swept rs)"
    using enq life_step.cancel [of rs now] by (simp add: swept_def)
  then have step: "store_step now s ?s" by (rule store_step.life [OF run])
  have at: "\<not> ready_at s k" using enq run by (simp add: ready_at_def ready_def)
  have "ready_at ?s x = ready_at s x" if "x \<in> set ks" for x
    using that notin by (metis ready_at_other)
  then have same: "List.find (ready_at ?s) ks = List.find (ready_at s) ks"
    "takeWhile (\<lambda>k. \<not> ready_at ?s k) ks = takeWhile (\<lambda>k. \<not> ready_at s k) ks"
    by (auto intro!: find_cong takeWhile_cong)
  have found: "List.find (ready_at s) ks = Some k' \<Longrightarrow> k' \<noteq> k" for k'
    using notin find_Some_in by metis
  have tw: "k' \<in> set (takeWhile (\<lambda>k. \<not> ready_at s k) ks) \<Longrightarrow> k' \<noteq> k" for k'
    using notin set_takeWhileD by metis
  have res: "claim_result now w ?s ks = claim_result now w s (k # ks)"
    using found at by (auto simp: claim_result_def same split: option.split)
  have eff: "claim_effect now w ?s ks k' = claim_effect now w s (k # ks) k'" for k'
    using found tw at run by (auto simp: claim_effect_def same)
  show ?thesis
    using t sweep_one [OF ok run enq] res eff commit_keys [OF run] step
    by (auto simp: claims_to_def simp del: claim_loop.simps intro: converse_rtranclp_into_rtranclp)
qed

lemma claims_after_skip:
  assumes run: "run_of s k = Some rs" and notin: "k \<notin> set ks" and "rs_status rs \<noteq> ENQUEUED"
    and t: "claims_to now w ks s t"
  shows "claims_to now w (k # ks) s t"
proof -
  have at: "\<not> ready_at s k" using assms(3) run by (simp add: ready_at_def ready_def)
  have res: "claim_result now w s (k # ks) = claim_result now w s ks"
    using at by (simp add: claim_result_def)
  have eff: "claim_effect now w s (k # ks) k' = claim_effect now w s ks k'" for k'
    using at run assms(3) notin by (auto simp: claim_effect_def swept_def dest: find_Some_in set_takeWhileD)
  show ?thesis
    using t skip_one [OF run assms(3)] res eff by (simp add: claims_to_def del: claim_loop.simps)
qed

lemma claim_loop_summary:
  "runtime_ok s \<Longrightarrow> distinct ks \<Longrightarrow> set ks \<subseteq> set (dict_keys (rt_runs s)) \<Longrightarrow>
     \<exists>t. claims_to now w ks s t"
proof (induction ks arbitrary: s)
  case Nil
  then show ?case by (simp add: ret_def claims_to_def claim_result_def claim_effect_def)
next
  case (Cons k ks)
  obtain rs where run: "run_of s k = Some rs" using Cons.prems(3) key_map_of by fastforce
  have notin: "k \<notin> set ks" and dist: "distinct ks" and sub: "set ks \<subseteq> set (dict_keys (rt_runs s))"
    using Cons.prems by auto
  consider "ready rs" | "rs_status rs = ENQUEUED" "rs_cancel_requested rs" | "rs_status rs \<noteq> ENQUEUED"
    by (auto simp: ready_def)
  then show ?case
  proof cases
    case 1
    then show ?thesis using claims_here [OF Cons.prems(1) run] by blast
  next
    case 2
    let ?s = "commit now k (swept rs) (Some (''cancelled'', [])) s"
    have "run_ok k (swept rs)"
      using runtime_ok_run [OF Cons.prems(1) run] by (simp add: run_ok_def swept_def)
    then have "runtime_ok ?s" by (rule runtime_ok_commit [OF Cons.prems(1) run])
    with Cons.IH [OF this dist] sub commit_keys [OF run]
    show ?thesis using claims_after_sweep [OF Cons.prems(1) run notin 2] by metis
  next
    case 3
    then show ?thesis
      using Cons.IH [OF Cons.prems(1) dist sub] claims_after_skip [OF run notin] by blast
  qed
qed

section \<open>The whole operation\<close>

text \<open>
  Whether a run can be claimed now: after lease recovery it would be enqueued and not cancelled.
\<close>

definition claimable :: "unix_ts \<Rightarrow> RunStatus \<Rightarrow> bool" where
  "claimable now rs \<longleftrightarrow>
     (rs_status rs = ENQUEUED \<or> expired_lease now rs) \<and> \<not> rs_cancel_requested rs"

definition claimable_at :: "unix_ts \<Rightarrow> runtime \<Rightarrow> uuid \<Rightarrow> bool" where
  "claimable_at now s k = (case run_of s k of None \<Rightarrow> False | Some rs \<Rightarrow> claimable now rs)"

definition first_claimable :: "unix_ts \<Rightarrow> runtime \<Rightarrow> uuid option" where
  "first_claimable now s = List.find (claimable_at now s) (dict_keys (rt_runs s))"

definition before_claim :: "unix_ts \<Rightarrow> runtime \<Rightarrow> uuid \<Rightarrow> bool" where
  "before_claim now s k \<longleftrightarrow>
     k \<in> set (takeWhile (\<lambda>k. \<not> claimable_at now s k) (dict_keys (rt_runs s)))"

lemma ready_recovered: "ready (recovered now w rs) = claimable now rs"
  by (auto simp: ready_def recovered_def claimable_def expired_lease_def)

text \<open>
  The summary of \<open>claim_run\<close>: its result, and for every run the record it leaves.
\<close>

lemma claim_run_summary:
  assumes ok: "runtime_ok s"
  shows "\<exists>t. claim_run default_policy now w s =
             (Inr (case first_claimable now s of
                     None \<Rightarrow> None
                   | Some k \<Rightarrow> Some \<lparr> cl_id = k, cl_claim_type = ''enqueued'',
                        cl_run_status = claimed_by now w (recovered now w (the (run_of s k))) \<rparr>), t) \<and>
           runtime_ok t \<and> (store_step now)\<^sup>*\<^sup>* s t \<and> rt_signal t = rt_signal s \<and>
           dict_keys (rt_runs t) = dict_keys (rt_runs s) \<and>
           (\<forall>k. run_of t k =
              (if first_claimable now s = Some k
               then map_option (\<lambda>rs. claimed_by now w (recovered now w rs)) (run_of s k)
               else if before_claim now s k
               then map_option (\<lambda>rs. swept (recovered now w rs)) (run_of s k)
               else map_option (recovered now w) (run_of s k)))"
proof -
  let ?ks = "dict_keys (rt_runs s)"
  have dist: "distinct ?ks" using ok by (simp add: runtime_ok_def)
  obtain u where u: "expire_loop default_policy now w ?ks s = (Inr (), u)" "runtime_ok u"
      "(store_step now)\<^sup>*\<^sup>* s u" "dict_keys (rt_runs u) = ?ks" "rt_signal u = rt_signal s"
      "\<And>k. run_of u k = (if k \<in> set ?ks then map_option (recovered now w) (run_of s k)
                         else run_of s k)"
    using expire_loop_summary [OF ok dist, of now w] by auto
  have run_u: "run_of u k = map_option (recovered now w) (run_of s k)" for k
    using u(6) [of k] map_of_None_keys [of "rt_runs s" k] by (cases "k \<in> set ?ks") auto
  have ready_u: "ready_at u = claimable_at now s"
    by (rule ext) (simp add: ready_at_def claimable_at_def run_u ready_recovered split: option.split)
  obtain t where t: "claims_to now w ?ks u t"
    using claim_loop_summary [OF u(2) dist] u(4) by auto
  have "claim_run default_policy now w s = claim_loop default_policy now w ?ks u"
    using u(1,4) by (simp add: claim_run_def bindM_def gets_def)
  moreover have "claim_result now w u ?ks =
      (case first_claimable now s of None \<Rightarrow> None
       | Some k \<Rightarrow> Some \<lparr> cl_id = k, cl_claim_type = ''enqueued'',
                        cl_run_status = claimed_by now w (recovered now w (the (run_of s k))) \<rparr>)"
    by (auto simp: claim_result_def ready_u first_claimable_def run_u claimable_at_def
        split: option.splits dest!: find_Some_in)
  moreover have "claim_effect now w u ?ks k =
      (if first_claimable now s = Some k
       then map_option (\<lambda>rs. claimed_by now w (recovered now w rs)) (run_of s k)
       else if before_claim now s k
       then map_option (\<lambda>rs. swept (recovered now w rs)) (run_of s k)
       else map_option (recovered now w) (run_of s k))" for k
    by (simp add: claim_effect_def ready_u first_claimable_def before_claim_def run_u
        option.map_comp comp_def)
  moreover have "(store_step now)\<^sup>*\<^sup>* s t" using u(3) t by (auto simp: claims_to_def)
  ultimately show ?thesis
    using t u(4,5) by (intro exI [of _ t]) (simp add: claims_to_def)
qed

section \<open>Every processing operation implements the abstract store\<close>

lemma effect_claim_run: "effect_in (store_effect now) (claim_run default_policy now w)"
proof (rule effect_inI)
  fix s
  show "store_effect now s (snd (claim_run default_policy now w s))"
    using claim_run_summary [of s now w] by (auto simp: store_effect_def)
qed

lemma effect_set_failed: "effect_in (store_effect now) (set_failed default_policy now k e)"
  by (rule effect_inI_ok)
     (auto simp: set_failed_cases store_effect_same intro!: effect_commit life_step.fail
        split: option.split)

lemma effect_set_succeeded: "effect_in (store_effect now) (set_succeeded default_policy now k d)"
  by (rule effect_inI_ok)
     (auto simp: set_succeeded_cases store_effect_same intro!: effect_commit life_step.succeed
        split: option.split)

lemma effect_set_cancelled: "effect_in (store_effect now) (set_cancelled default_policy now k)"
  by (rule effect_inI_ok)
     (auto simp: set_cancelled_cases store_effect_same intro!: effect_commit life_step.cancel
        split: option.split)

lemma effect_heartbeat: "effect_in (store_effect now) (heartbeat now k w)"
  by (rule effect_inI_ok)
     (auto simp: heartbeat_cases store_effect_same
        intro!: effect_commit life_step.lost life_step.beat split: option.split)

lemmas processing_effects =
  effect_claim_run effect_set_failed effect_set_succeeded effect_set_cancelled effect_heartbeat

end
