(* ===== verification/Lifecycle.thy ===== *)
theory Lifecycle
  imports Claiming
begin

text \<open>
  The stores under any interleaving: an API process and any number of workers call the two
  stores in any order, at any times, for any runs. Reachable runtimes, what holds in all of
  them, and what no later call can undo; and the event log as a faithful source from which the
  state of every run can be folded.
\<close>

section \<open>Calls and reachable runtimes\<close>

definition emit_event ::
    "unix_ts \<Rightarrow> uuid \<Rightarrow> string \<Rightarrow> pydict \<Rightarrow> (runtime, RunEvent) prog" where
  "emit_event now run_id event_type payload = log_append now run_id event_type payload"

datatype store_call =
    CallCreateRun unix_ts uuid RunRequest
  | CallMarkEnqueued unix_ts uuid
  | CallMarkCancelled unix_ts uuid
  | CallRequestCancellation unix_ts uuid
  | CallClaimRun unix_ts string
  | CallHeartbeat unix_ts uuid string
  | CallSetFailed unix_ts uuid string
  | CallSetSucceeded unix_ts uuid pydict
  | CallSetCancelled unix_ts uuid
  | CallEmitEvent unix_ts uuid string pydict
  | CallNotify
  | CallWait "rat option" "rat option"

text \<open>The runtime a call leaves, whether it returned or raised.\<close>

fun after_call :: "store_call \<Rightarrow> runtime \<Rightarrow> runtime" where
  "after_call (CallCreateRun now k req) s = snd (create_run now k req s)"
| "after_call (CallMarkEnqueued now k) s = snd (mark_enqueued default_policy now k s)"
| "after_call (CallMarkCancelled now k) s = snd (mark_cancelled default_policy now k s)"
| "after_call (CallRequestCancellation now k) s = snd (request_cancellation now k s)"
| "after_call (CallClaimRun now w) s = snd (claim_run default_policy now w s)"
| "after_call (CallHeartbeat now k w) s = snd (heartbeat now k w s)"
| "after_call (CallSetFailed now k e) s = snd (set_failed default_policy now k e s)"
| "after_call (CallSetSucceeded now k d) s = snd (set_succeeded default_policy now k d s)"
| "after_call (CallSetCancelled now k) s = snd (set_cancelled default_policy now k s)"
| "after_call (CallEmitEvent now k ty pl) s = snd (emit_event now k ty pl s)"
| "after_call CallNotify s = snd (notify_signal s)"
| "after_call (CallWait t n) s = snd (wait_signal t n s)"

text \<open>
  What the environment guarantees: \<open>uuid4()\<close> yields an id not in use, and executors do not
  forge the stores' own event types.
\<close>

fun call_allowed :: "runtime \<Rightarrow> store_call \<Rightarrow> bool" where
  "call_allowed s (CallCreateRun now k req) = (run_of s k = None)"
| "call_allowed s (CallEmitEvent now k ty pl) = (ty \<notin> lifecycle_types)"
| "call_allowed s _ = True"

fun call_time :: "store_call \<Rightarrow> unix_ts" where
  "call_time (CallCreateRun now k req) = now"
| "call_time (CallMarkEnqueued now k) = now"
| "call_time (CallMarkCancelled now k) = now"
| "call_time (CallRequestCancellation now k) = now"
| "call_time (CallClaimRun now w) = now"
| "call_time (CallHeartbeat now k w) = now"
| "call_time (CallSetFailed now k e) = now"
| "call_time (CallSetSucceeded now k d) = now"
| "call_time (CallSetCancelled now k) = now"
| "call_time (CallEmitEvent now k ty pl) = now"
| "call_time CallNotify = 0"
| "call_time (CallWait t n) = 0"

inductive later :: "runtime \<Rightarrow> runtime \<Rightarrow> bool" where
  here: "later s s"
| call: "later s t \<Longrightarrow> call_allowed t c \<Longrightarrow> later s (after_call c t)"

definition reachable :: "runtime \<Rightarrow> bool" where
  "reachable s \<longleftrightarrow> later create_default_in_memory_runtime s"

text \<open>Running a list of calls; \<open>None\<close> when the environment's guarantee fails.\<close>

fun run_calls :: "store_call list \<Rightarrow> runtime \<Rightarrow> runtime option" where
  "run_calls [] s = Some s"
| "run_calls (c # cs) s = (if call_allowed s c then run_calls cs (after_call c s) else None)"

section \<open>Calls are abstract store steps\<close>

lemma effect_emit_event:
  assumes "ty \<notin> lifecycle_types"
  shows "effect_in (store_effect now) (emit_event now k ty pl)"
proof (rule effect_inI_ok)
  fix s
  assume ok: "runtime_ok s"
  show "store_effect now s (snd (emit_event now k ty pl s))"
  proof (cases "run_of s k")
    case None
    then have "stream_of s k = None" using ok by (metis domIff map_of_None_keys runtime_ok_def)
    then show ?thesis
      by (simp add: emit_event_def with_log_def append_event_missing store_effect_same)
  next
    case (Some rs)
    have "dict_set k rs (rt_runs s) = rt_runs s" using Some by (simp add: update_triv)
    then have "snd (emit_event now k ty pl s) = commit now k rs (Some (ty, pl)) s"
      by (simp add: emit_event_def with_log_def commit_def log_extend_def split: prod.split)
    then show ?thesis using Some assms by (auto intro: effect_commit life_step.emit)
  qed
qed

lemma after_call_effect:
  "call_allowed s c \<Longrightarrow> store_effect (call_time c) s (after_call c s)"
proof (cases c)
  case (CallCreateRun now k req)
  then show "call_allowed s c \<Longrightarrow> ?thesis" by (simp add: effect_create_run)
qed (use effect_mark_enqueued effect_mark_cancelled effect_request_cancellation processing_effects
       effect_emit_event effect_notify effect_wait in \<open>simp_all add: effect_in_def\<close>)

text \<open>
  The workhorse: a property that every abstract step preserves, at any time, holds later on
  whenever it holds now.
\<close>

lemma later_invariant:
  assumes "later s t" and ok: "runtime_ok s" and "P s"
    and step: "\<And>now u v. runtime_ok u \<Longrightarrow> P u \<Longrightarrow> store_step now u v \<Longrightarrow> P v"
  shows "runtime_ok t \<and> P t"
  using assms(1-3)
proof (induction rule: later.induct)
  case (call s t c)
  then have "(store_step (call_time c))\<^sup>*\<^sup>* t (after_call c t)" and "runtime_ok t \<and> P t"
    using after_call_effect [of t c] by (auto simp: store_effect_def)
  then show ?case
    by (induction rule: rtranclp_induct) (auto intro: step store_step_ok)
qed auto

lemma run_calls_later: "run_calls cs s = Some t \<Longrightarrow> later r s \<Longrightarrow> later r t"
  by (induction cs arbitrary: s) (auto split: if_splits intro: later.call)

lemma run_calls_reachable: "run_calls cs create_default_in_memory_runtime = Some t \<Longrightarrow> reachable t"
  unfolding reachable_def by (rule run_calls_later [OF _ later.here])

lemma later_trans: "later t u \<Longrightarrow> later s t \<Longrightarrow> later s u"
  by (induction rule: later.induct) (auto intro: later.call)

lemma reachable_later: "reachable s \<Longrightarrow> later s t \<Longrightarrow> reachable t"
  by (auto simp: reachable_def intro: later_trans)

lemma reachable_ok: "reachable s \<Longrightarrow> runtime_ok s"
  using later_invariant [of create_default_in_memory_runtime s "\<lambda>_. True"] runtime_ok_default
  by (auto simp: reachable_def)

section \<open>What a step does to one run\<close>

lemma store_step_run:
  assumes "store_step now s t" and "run_of s k = Some rs"
  shows "\<exists>rs'. run_of t k = Some rs' \<and> (rs' = rs \<or> (\<exists>ev. life_step now rs ev rs'))"
  using assms
proof (induction rule: store_step.induct)
  case (life s k' rs0 ev rs')
  then show ?case by (cases "k = k'") auto
qed auto

lemma store_step_new_run:
  assumes "store_step now s t" and "run_of s k = None" and "run_of t k = Some rs"
  shows "rs = new_run_status k CREATED None None"
  using assms by (induction rule: store_step.induct) (auto split: if_splits)

text \<open>A relation on records that every life step keeps, and so every later runtime.\<close>

lemma later_run:
  assumes "later s t" and "runtime_ok s" and run: "run_of s k = Some rs"
    and refl: "R rs rs" and step: "\<And>now a ev b. R rs a \<Longrightarrow> life_step now a ev b \<Longrightarrow> R rs b"
  shows "\<exists>rs'. run_of t k = Some rs' \<and> R rs rs'"
proof -
  let ?P = "\<lambda>u. \<exists>rs'. run_of u k = Some rs' \<and> R rs rs'"
  have "runtime_ok t \<and> ?P t"
  proof (rule later_invariant [OF assms(1,2), of ?P])
    show "?P s" using run refl by blast
    fix now u v
    assume "?P u" and "store_step now u v"
    then show "?P v" using store_step_run step by metis
  qed
  then show ?thesis by blast
qed

section \<open>No transient status is visible\<close>

definition settled :: "runtime \<Rightarrow> bool" where
  "settled s \<longleftrightarrow> (\<forall>k rs. run_of s k = Some rs \<longrightarrow> rs_status rs \<notin> {TIMED_OUT, RETRYING})"

lemma life_step_settled:
  "life_step now rs ev rs' \<Longrightarrow> rs_status rs \<notin> {TIMED_OUT, RETRYING} \<Longrightarrow>
     rs_status rs' \<notin> {TIMED_OUT, RETRYING}"
  by (erule life_step.cases) auto

lemma store_step_settled: "store_step now s t \<Longrightarrow> settled s \<Longrightarrow> settled t"
  unfolding settled_def
  by (induction rule: store_step.induct) (auto dest: life_step_settled)

lemma reachable_settled: "reachable s \<Longrightarrow> settled s"
proof -
  have "settled create_default_in_memory_runtime"
    by (simp add: settled_def create_default_in_memory_runtime_def)
  then show "reachable s \<Longrightarrow> settled s"
    unfolding reachable_def
    using later_invariant [OF _ runtime_ok_default, of s settled] store_step_settled by blast
qed

section \<open>Moving along the transition table\<close>

lemma life_step_path: "life_step now rs ev rs' \<Longrightarrow> allowed\<^sup>*\<^sup>* (rs_status rs) (rs_status rs')"
proof (erule life_step.cases, goal_cases)
  case (3 rs n w)
  have "allowed RUNNING TIMED_OUT" "allowed TIMED_OUT RETRYING" "allowed RETRYING ENQUEUED" by auto
  then have "allowed\<^sup>*\<^sup>* RUNNING ENQUEUED" by (meson r_into_rtranclp rtranclp_trans)
  with 3 show ?case by simp
qed (auto intro!: r_into_rtranclp)

end
