(* ===== verification/Orchestrator.thy ===== *)
theory Orchestrator
  imports Lifecycle
begin

text \<open>
  The API-side orchestration service (\<open>services/agent/orchestrator.py\<close>) over the protocols it
  is written against: a run intake store (\<open>services/agent/store.py\<close>) and a signal queue
  (\<open>contracts/services/queue.py\<close>). The protocols are a record of operations; the contract the
  service relies on is a locale, and the in-memory runtime is an instance of it. Each operation
  reads the clock for itself, and the id of a new run is drawn when the store is asked for it.
\<close>

section \<open>The protocols\<close>

record 's RunIntakeStore =
  is_create_run :: "unix_ts \<Rightarrow> uuid \<Rightarrow> RunRequest \<Rightarrow> ('s, RunStatus) prog"
  is_get_status :: "uuid \<Rightarrow> ('s, RunStatus) prog"
  is_mark_enqueued :: "unix_ts \<Rightarrow> uuid \<Rightarrow> ('s, unit) prog"
  is_mark_cancelled :: "unix_ts \<Rightarrow> uuid \<Rightarrow> ('s, bool) prog"
  is_request_cancellation :: "unix_ts \<Rightarrow> uuid \<Rightarrow> ('s, bool) prog"
  is_get_events :: "uuid \<Rightarrow> int option \<Rightarrow> ('s, RunEvent list) prog"

record 's BackendRunOrchestrationService =
  run_store :: "'s RunIntakeStore"
  signal_notify :: "('s, unit) prog"

section \<open>The service\<close>

definition service_request :: "string \<Rightarrow> RunRequest" where
  "service_request prompt =
     \<lparr> req_prompt = prompt, req_history = [],
       req_user_id = ''hardcoded_user_later_take_it_from_context'' \<rparr>"

definition service_create_run ::
    "'s BackendRunOrchestrationService \<Rightarrow> unix_ts \<Rightarrow> unix_ts \<Rightarrow> uuid \<Rightarrow> string \<Rightarrow> ('s, RunStatus) prog" where
  "service_create_run self t_created t_enqueued new_id prompt =
     (let run_request = service_request prompt in
      bindM (is_create_run (run_store self) t_created new_id run_request) (\<lambda>created_run.
      bindM (is_mark_enqueued (run_store self) t_enqueued (rs_id created_run)) (\<lambda>_.
      bindM (signal_notify self) (\<lambda>_.
      ret created_run))))"

definition service_get_run :: "'s BackendRunOrchestrationService \<Rightarrow> uuid \<Rightarrow> ('s, RunStatus) prog" where
  "service_get_run self run_id =
     bindM (is_get_status (run_store self) run_id) (\<lambda>run_status.
     ret run_status)"

definition service_cancel_run ::
    "'s BackendRunOrchestrationService \<Rightarrow> unix_ts \<Rightarrow> uuid \<Rightarrow> ('s, bool) prog" where
  "service_cancel_run self now run_id =
     bindM (is_request_cancellation (run_store self) now run_id) (\<lambda>is_cancelled.
     bindM (if is_cancelled then signal_notify self else ret ()) (\<lambda>_.
     ret is_cancelled))"

definition service_get_events ::
    "'s BackendRunOrchestrationService \<Rightarrow> uuid \<Rightarrow> int option \<Rightarrow> ('s, RunEvent list) prog" where
  "service_get_events self run_id after_sequence =
     is_get_events (run_store self) run_id after_sequence"

section \<open>The contract the service relies on\<close>

text \<open>
  \<open>view\<close> is the run the store shows for an id, \<open>stream\<close> its events, \<open>woken\<close> whether a
  notification is pending and \<open>ok\<close> the store's invariant.
\<close>

locale intake_contract =
  fixes self :: "'s BackendRunOrchestrationService"
    and view :: "'s \<Rightarrow> uuid \<Rightarrow> RunStatus option"
    and stream :: "'s \<Rightarrow> uuid \<Rightarrow> RunEvent list option"
    and woken :: "'s \<Rightarrow> bool"
    and ok :: "'s \<Rightarrow> bool"
  assumes status_found: "ok s \<Longrightarrow> view s k = Some rs \<Longrightarrow>
        is_get_status (run_store self) k s = (Inr rs, s)"
    and status_missing: "ok s \<Longrightarrow> view s k = None \<Longrightarrow>
        is_get_status (run_store self) k s = (Inl (RunNotFoundError k), s)"
    and create_law: "ok s \<Longrightarrow> view s k = None \<Longrightarrow>
        \<exists>t. is_create_run (run_store self) now k req s = (Inr (new_run_status k CREATED None None), t) \<and>
            ok t \<and> woken t = woken s \<and> view t = (view s)(k \<mapsto> new_run_status k CREATED None None) \<and>
            stream t = (stream s)(k \<mapsto>
              [next_event now k ''created'' [(''user_id'', PStr (req_user_id req))] []])"
    and enqueue_law: "ok s \<Longrightarrow> view s k = Some rs \<Longrightarrow> rs_status rs = CREATED \<Longrightarrow> stream s k = Some es \<Longrightarrow>
        \<exists>t. is_mark_enqueued (run_store self) now k s = (Inr (), t) \<and> ok t \<and> woken t = woken s \<and>
            view t = (view s)(k \<mapsto> new_run_status k ENQUEUED (rs_result rs) (rs_error rs)) \<and>
            stream t = (stream s)(k \<mapsto> es @ [next_event now k ''enqueued'' [] es])"
    and cancel_missing: "ok s \<Longrightarrow> view s k = None \<Longrightarrow>
        is_request_cancellation (run_store self) now k s = (Inl (RunNotFoundError k), s)"
    and cancel_refused: "ok s \<Longrightarrow> view s k = Some rs \<Longrightarrow>
        rs_status rs \<in> TERMINAL_RUN_STATUSES \<or> rs_cancel_requested rs \<Longrightarrow>
        is_request_cancellation (run_store self) now k s = (Inr False, s)"
    and cancel_law: "ok s \<Longrightarrow> view s k = Some rs \<Longrightarrow>
        rs_status rs \<notin> TERMINAL_RUN_STATUSES \<Longrightarrow> \<not> rs_cancel_requested rs \<Longrightarrow> stream s k = Some es \<Longrightarrow>
        \<exists>t. is_request_cancellation (run_store self) now k s = (Inr True, t) \<and> ok t \<and>
            woken t = woken s \<and> view t = (view s)(k \<mapsto> rs\<lparr> rs_cancel_requested := True \<rparr>) \<and>
            stream t = (stream s)(k \<mapsto> es @ [next_event now k ''cancel requested'' [] es])"
    and events_missing: "ok s \<Longrightarrow> view s k = None \<Longrightarrow>
        is_get_events (run_store self) k a s = (Inl (RunNotFoundError k), s)"
    and events_law: "ok s \<Longrightarrow> view s k \<noteq> None \<Longrightarrow> stream s k = Some es \<Longrightarrow>
        is_get_events (run_store self) k a s =
          (Inr (case a of None \<Rightarrow> es | Some n \<Rightarrow> filter (\<lambda>e. ev_sequence_nr e > n) es), s)"
    and stream_law: "ok s \<Longrightarrow> (stream s k = None) = (view s k = None)"
    and notify_law: "ok s \<Longrightarrow>
        \<exists>t. signal_notify self s = (Inr (), t) \<and> ok t \<and> woken t \<and> view t = view s \<and> stream t = stream s"
begin

text \<open>Creating a run: the caller is shown the run as created, the store has it enqueued.\<close>

lemma create_then_enqueued:
  assumes "ok s" and "view s k = None"
  shows "\<exists>t. service_create_run self t1 t2 k prompt s = (Inr (new_run_status k CREATED None None), t) \<and>
           ok t \<and> woken t \<and> view t = (view s)(k \<mapsto> new_run_status k ENQUEUED None None) \<and>
           map_option (map ev_event_type) (stream t k) = Some [''created'', ''enqueued'']"
proof -
  obtain u where u: "is_create_run (run_store self) t1 k (service_request prompt) s =
        (Inr (new_run_status k CREATED None None), u)" "ok u"
      "view u = (view s)(k \<mapsto> new_run_status k CREATED None None)"
      "stream u = (stream s)(k \<mapsto> [next_event t1 k ''created''
         [(''user_id'', PStr (req_user_id (service_request prompt)))] []])"
    using create_law [OF assms] by blast
  obtain v where v: "is_mark_enqueued (run_store self) t2 k u = (Inr (), v)" "ok v"
      "view v = (view u)(k \<mapsto> new_run_status k ENQUEUED None None)"
      "map_option (map ev_event_type) (stream v k) = Some [''created'', ''enqueued'']"
    using enqueue_law [OF u(2), of k "new_run_status k CREATED None None" _ t2] u(3,4) by fastforce
  obtain t where t: "signal_notify self v = (Inr (), t)" "ok t" "woken t" "view t = view v"
      "stream t = stream v"
    using notify_law [OF v(2)] by blast
  have "service_create_run self t1 t2 k prompt s = (Inr (new_run_status k CREATED None None), t)"
    using u(1) v(1) t(1) by (simp add: service_create_run_def bindM_def ret_def)
  then show ?thesis using u(3) v t by (intro exI [of _ t]) simp
qed

text \<open>Cancelling: at most one caller is told it cancelled, and exactly then a worker is woken.\<close>

lemma cancel_cases:
  assumes "ok s"
  shows "case view s k of
      None \<Rightarrow> service_cancel_run self now k s = (Inl (RunNotFoundError k), s)
    | Some rs \<Rightarrow>
        if rs_status rs \<in> TERMINAL_RUN_STATUSES \<or> rs_cancel_requested rs
        then service_cancel_run self now k s = (Inr False, s)
        else \<exists>t. service_cancel_run self now k s = (Inr True, t) \<and> ok t \<and> woken t \<and>
               view t = (view s)(k \<mapsto> rs\<lparr> rs_cancel_requested := True \<rparr>) \<and>
               service_cancel_run self now' k t = (Inr False, t)"
proof (cases "view s k")
  case None
  then show ?thesis using cancel_missing [OF assms] by (simp add: service_cancel_run_def bindM_Inl)
next
  case (Some rs)
  show ?thesis
  proof (cases "rs_status rs \<in> TERMINAL_RUN_STATUSES \<or> rs_cancel_requested rs")
    case True
    then show ?thesis
      using Some cancel_refused [OF assms Some True]
      by (simp add: service_cancel_run_def bindM_def ret_def)
  next
    case False
    obtain es where es: "stream s k = Some es" using stream_law [OF assms, of k] Some by fastforce
    obtain u where u: "is_request_cancellation (run_store self) now k s = (Inr True, u)" "ok u"
        "view u = (view s)(k \<mapsto> rs\<lparr> rs_cancel_requested := True \<rparr>)"
      using cancel_law [OF assms Some _ _ es] False by blast
    obtain t where t: "signal_notify self u = (Inr (), t)" "ok t" "woken t" "view t = view u"
      using notify_law [OF u(2)] by blast
    have "service_cancel_run self now k s = (Inr True, t)"
      using u(1) t(1) by (simp add: service_cancel_run_def bindM_def ret_def)
    moreover have "service_cancel_run self now' k t = (Inr False, t)"
      using cancel_refused [OF t(2), of k "rs\<lparr> rs_cancel_requested := True \<rparr>" now'] t(4) u(3)
      by (simp add: service_cancel_run_def bindM_def ret_def)
    ultimately show ?thesis using Some False t u(3) by auto
  qed
qed

end

section \<open>The in-memory instance\<close>

definition in_memory_intake :: "runtime RunIntakeStore" where
  "in_memory_intake =
     \<lparr> is_create_run = create_run,
       is_get_status = intake_get_status,
       is_mark_enqueued = mark_enqueued default_policy,
       is_mark_cancelled = mark_cancelled default_policy,
       is_request_cancellation = request_cancellation,
       is_get_events = get_events \<rparr>"

definition in_memory_service :: "runtime BackendRunOrchestrationService" where
  "in_memory_service = \<lparr> run_store = in_memory_intake, signal_notify = notify_signal \<rparr>"

lemma in_memory_service_sel [simp]:
  "run_store in_memory_service = in_memory_intake"
  "signal_notify in_memory_service = notify_signal"
  "is_create_run in_memory_intake = create_run"
  "is_get_status in_memory_intake = intake_get_status"
  "is_mark_enqueued in_memory_intake = mark_enqueued default_policy"
  "is_mark_cancelled in_memory_intake = mark_cancelled default_policy"
  "is_request_cancellation in_memory_intake = request_cancellation"
  "is_get_events in_memory_intake = get_events"
  by (simp_all add: in_memory_service_def in_memory_intake_def)

abbreviation pending_wake :: "runtime \<Rightarrow> bool" where
  "pending_wake s \<equiv> sq_event (rt_signal s)"

lemma run_of_commit: "run_of (commit now k rs ev s) = (run_of s)(k \<mapsto> rs)"
  by (rule ext) simp

lemma run_ok_updates:
  "run_ok k rs \<Longrightarrow> run_ok k (rs\<lparr> rs_cancel_requested := True \<rparr>)"
  "run_ok k (new_run_status k CREATED a b)" "run_ok k (new_run_status k ENQUEUED a b)"
  by (simp_all add: run_ok_def)

interpretation intake: intake_contract
  in_memory_service "\<lambda>s. run_of s" "\<lambda>s. stream_of s" pending_wake runtime_ok
proof unfold_locales
  fix s k now req
  assume a: "runtime_ok s" "run_of s k = None"
  show "\<exists>t. is_create_run (run_store in_memory_service) now k req s =
              (Inr (new_run_status k CREATED None None), t) \<and> runtime_ok t \<and>
            pending_wake t = pending_wake s \<and>
            run_of t = (run_of s)(k \<mapsto> new_run_status k CREATED None None) \<and>
            stream_of t = (stream_of s)(k \<mapsto>
              [next_event now k ''created'' [(''user_id'', PStr (req_user_id req))] []])"
    using create_run_fresh [OF a, of now req] runtime_ok_created [OF a] created_run_stream(1) [OF a]
    by (intro exI [of _ "created_run now k (req_user_id req) s"])
       (simp add: fun_eq_iff, simp add: created_run_def)
next
  fix s k rs es now
  assume a: "runtime_ok s" "run_of s k = Some rs" "rs_status rs = CREATED" "stream_of s k = Some es"
  have i: "rs_id rs = k" using runtime_ok_run [OF a(1,2)] by (simp add: run_ok_def)
  show "\<exists>t. is_mark_enqueued (run_store in_memory_service) now k s = (Inr (), t) \<and> runtime_ok t \<and>
            pending_wake t = pending_wake s \<and>
            run_of t = (run_of s)(k \<mapsto> new_run_status k ENQUEUED (rs_result rs) (rs_error rs)) \<and>
            stream_of t = (stream_of s)(k \<mapsto> es @ [next_event now k ''enqueued'' [] es])"
    using a i stream_of_commit [OF a(1,4)]
    by (simp add: mark_enqueued_cases run_of_commit runtime_ok_commit [OF a(1,2)] run_ok_updates
        del: commit_run)
next
  fix s k rs es now
  assume a: "runtime_ok s" "run_of s k = Some rs" "rs_status rs \<notin> TERMINAL_RUN_STATUSES"
    "\<not> rs_cancel_requested rs" "stream_of s k = Some es"
  have "run_ok k rs" by (rule runtime_ok_run [OF a(1,2)])
  then show "\<exists>t. is_request_cancellation (run_store in_memory_service) now k s = (Inr True, t) \<and>
            runtime_ok t \<and> pending_wake t = pending_wake s \<and>
            run_of t = (run_of s)(k \<mapsto> rs\<lparr> rs_cancel_requested := True \<rparr>) \<and>
            stream_of t = (stream_of s)(k \<mapsto> es @ [next_event now k ''cancel requested'' [] es])"
    using a stream_of_commit [OF a(1,5)]
    by (simp add: request_cancellation_cases run_of_commit runtime_ok_commit [OF a(1,2)] run_ok_updates
        del: commit_run)
next
  fix s k
  assume a: "runtime_ok s"
  show "(stream_of s k = None) = (run_of s k = None)"
    using a by (metis domIff map_of_None_keys runtime_ok_def)
next
  fix s :: runtime
  assume "runtime_ok s"
  then show "\<exists>t. signal_notify in_memory_service s = (Inr (), t) \<and> runtime_ok t \<and> pending_wake t \<and>
            run_of t = run_of s \<and> stream_of t = stream_of s"
    by (simp add: notify_signal_def modify_def)
qed (auto simp: intake_get_status_def lookup_simps request_cancellation_cases get_events_cases
       split: option.splits)

section \<open>Requests are calls of the stores\<close>

interpretation calls: effect_preorder later
  by unfold_locales (auto intro: later.here later_trans)

lemma later_effect:
  "(\<And>s. snd (m s) = after_call c s) \<Longrightarrow> (\<And>s. call_allowed s c) \<Longrightarrow> effect_in later m"
  by (rule effect_inI) (metis later.call later.here)

lemma later_reads:
  "effect_in later (intake_get_status k)" "effect_in later (get_events k a)"
proof -
  show "effect_in later (intake_get_status k)"
    by (rule effect_inI) (simp add: intake_get_status_def get_found_def later.here split: option.split)
  have "snd (get_events k a s) = s" for s
    by (simp add: get_events_def bindM_def get_found_def with_log_def list_events_def
        split: option.split)
  then show "effect_in later (get_events k a)" by (auto intro!: effect_inI simp: later.here)
qed

lemma later_intake_ops:
  "effect_in later (mark_enqueued default_policy now k)"
  "effect_in later (mark_cancelled default_policy now k)"
  "effect_in later (request_cancellation now k)"
  "effect_in later notify_signal"
  by (rule later_effect [of _ "CallMarkEnqueued now k"] later_effect [of _ "CallMarkCancelled now k"]
        later_effect [of _ "CallRequestCancellation now k"] later_effect [of _ CallNotify]; simp)+

lemma service_cancel_later: "effect_in later (service_cancel_run in_memory_service now k)"
  unfolding service_cancel_run_def
  by (auto intro!: calls.effect_intros later_intake_ops)

lemma service_create_later:
  assumes "run_of s k = None"
  shows "later s (snd (service_create_run in_memory_service t1 t2 k prompt s))"
proof -
  have "later s (snd (create_run t1 k (service_request prompt) s))"
    using later.call [OF later.here, of s "CallCreateRun t1 k (service_request prompt)"] assms by simp
  then show ?thesis
    unfolding service_create_run_def Let_def in_memory_service_sel
    by (rule calls.effect_bindM_at) (auto intro!: calls.effect_intros later_intake_ops)
qed

end
