(* ===== verification/EventSourcing.thy ===== *)
theory EventSourcing
  imports Lifecycle
begin

text \<open>
  The append-only event log as the source of truth (the TODO of
  \<open>local_runtime/run_store/intake.py\<close>): folding a run's events, oldest first, gives the state
  that the run dictionary caches. Proved for every reachable runtime.
\<close>

section \<open>Folding a stream\<close>

record run_view =
  vw_status :: RunStatusCode
  vw_worker :: "string option"
  vw_error :: "string option"
  vw_retry :: int
  vw_cancel :: bool

definition created_view :: run_view where
  "created_view = \<lparr> vw_status = CREATED, vw_worker = None, vw_error = None, vw_retry = 0,
                    vw_cancel = False \<rparr>"

definition payload_str :: "pydict \<Rightarrow> string \<Rightarrow> string option" where
  "payload_str d k = as_str (pget d k)"

definition apply_typed :: "string \<Rightarrow> pydict \<Rightarrow> run_view \<Rightarrow> run_view" where
  "apply_typed ty pl v =
     (if ty = ''enqueued''
      then v\<lparr> vw_status := ENQUEUED, vw_worker := None, vw_retry := 0, vw_cancel := False \<rparr>
      else if ty = ''claimed'' then v\<lparr> vw_status := RUNNING, vw_worker := payload_str pl ''worker'' \<rparr>
      else if ty = ''claim_expired'' then v\<lparr> vw_status := ENQUEUED, vw_retry := vw_retry v + 1 \<rparr>
      else if ty = ''run_failed'' then v\<lparr> vw_status := FAILED, vw_error := payload_str pl ''error'' \<rparr>
      else if ty = ''run_succeeded'' then v\<lparr> vw_status := SUCCEEDED \<rparr>
      else if ty = ''cancelled'' then v\<lparr> vw_status := CANCELLED \<rparr>
      else if ty = ''cancel requested'' then v\<lparr> vw_cancel := True \<rparr>
      else v)"

definition apply_event :: "RunEvent \<Rightarrow> run_view option \<Rightarrow> run_view option" where
  "apply_event e v =
     (case v of
        None \<Rightarrow> if ev_event_type e = ''created'' then Some created_view else None
      | Some u \<Rightarrow> Some (apply_typed (ev_event_type e) (ev_payload e) u))"

definition project :: "RunEvent list \<Rightarrow> run_view option" where
  "project es = fold apply_event es None"

lemma project_snoc: "project (es @ [e]) = apply_event e (project es)"
  by (simp add: project_def)

text \<open>
  What the fold recovers of a record: the status and the error always, the retry count and the
  cancellation intent while the run is not terminal, the claiming worker while it runs.
\<close>

definition view_matches :: "run_view \<Rightarrow> RunStatus \<Rightarrow> bool" where
  "view_matches v rs \<longleftrightarrow>
     vw_status v = rs_status rs \<and> vw_error v = rs_error rs \<and>
     (rs_status rs \<notin> TERMINAL_RUN_STATUSES \<longrightarrow>
        rs_retry_count rs = Some (vw_retry v) \<and> vw_cancel v = rs_cancel_requested rs) \<and>
     (rs_status rs = RUNNING \<longrightarrow> vw_worker v = rs_claimed_worker rs)"

definition event_sourced :: "runtime \<Rightarrow> bool" where
  "event_sourced s \<longleftrightarrow>
     (\<forall>k rs es. run_of s k = Some rs \<longrightarrow> stream_of s k = Some es \<longrightarrow>
        (\<exists>v. project es = Some v \<and> view_matches v rs))"

lemma view_matches_life_step:
  assumes "life_step now rs (Some (ty, pl)) rs'" and "view_matches v rs"
  shows "view_matches (apply_typed ty pl v) rs'"
  using assms
  by (cases rule: life_step.cases)
     (auto simp: view_matches_def apply_typed_def payload_str_def lifecycle_types_def)

lemma view_matches_quiet_step: "life_step now rs None rs' \<Longrightarrow> view_matches v rs \<Longrightarrow> view_matches v rs'"
  by (erule life_step.cases) (auto simp: view_matches_def)

lemma event_sourced_commit:
  assumes ok: "runtime_ok s" and src: "event_sourced s"
    and run: "run_of s k = Some rs" and life: "life_step now rs ev rs'"
  shows "event_sourced (commit now k rs' ev s)"
  unfolding event_sourced_def
proof (intro allI impI)
  fix k' r es
  let ?t = "commit now k rs' ev s"
  assume r: "run_of ?t k' = Some r" and es: "stream_of ?t k' = Some es"
  obtain old where old: "stream_of s k = Some old" using runtime_ok_stream [OF ok run] ..
  note streams = stream_of_commit [OF ok old, of now rs' ev]
  obtain v where v: "project old = Some v" "view_matches v rs"
    using src run old unfolding event_sourced_def by blast
  show "\<exists>v. project es = Some v \<and> view_matches v r"
  proof (cases "k' = k")
    case False
    then show ?thesis using r es src streams
      by (auto simp: event_sourced_def split: option.splits prod.splits if_splits)
  next
    case True
    then have "r = rs'" using r by simp
    show ?thesis
    proof (cases ev)
      case None
      then show ?thesis
        using True es streams old v life \<open>r = rs'\<close> view_matches_quiet_step by auto
    next
      case (Some e)
      then obtain ty pl where e: "ev = Some (ty, pl)" by (cases e) auto
      with life v(2) have "view_matches (apply_typed ty pl v) rs'"
        using view_matches_life_step by blast
      then show ?thesis
        using True es streams old v(1) e \<open>r = rs'\<close> by (auto simp: project_snoc apply_event_def)
    qed
  qed
qed

lemma event_sourced_created:
  assumes ok: "runtime_ok s" and src: "event_sourced s" and new: "run_of s k = None"
  shows "event_sourced (created_run now k u s)"
proof -
  have "project [next_event now k ''created'' [(''user_id'', PStr u)] []] = Some created_view"
    by (simp add: project_def apply_event_def)
  moreover have "view_matches created_view (new_run_status k CREATED None None)"
    by (simp add: view_matches_def created_view_def)
  ultimately show ?thesis
    using src created_run_stream(1) [OF ok new, of now u]
    by (auto simp: event_sourced_def split: if_splits)
qed

lemma store_step_event_sourced:
  "store_step now s t \<Longrightarrow> runtime_ok s \<Longrightarrow> event_sourced s \<Longrightarrow> event_sourced t"
proof (induction rule: store_step.induct)
  case (signal s q)
  then show ?case by (simp add: event_sourced_def)
qed (auto intro: event_sourced_commit event_sourced_created)

lemma reachable_event_sourced: "reachable s \<Longrightarrow> event_sourced s"
proof -
  have "event_sourced create_default_in_memory_runtime"
    by (simp add: event_sourced_def create_default_in_memory_runtime_def)
  then show "reachable s \<Longrightarrow> event_sourced s"
    unfolding reachable_def
    using later_invariant [OF _ runtime_ok_default, of s event_sourced] store_step_event_sourced
    by blast
qed

section \<open>Streams only grow\<close>

definition streams_extend :: "runtime \<Rightarrow> runtime \<Rightarrow> bool" where
  "streams_extend s t \<longleftrightarrow>
     (\<forall>k es. stream_of s k = Some es \<longrightarrow> (\<exists>new. stream_of t k = Some (es @ new)))"

interpretation extending: effect_preorder streams_extend
proof unfold_locales
  show "streams_extend s s" for s by (simp add: streams_extend_def)
  show "streams_extend s t \<Longrightarrow> streams_extend t u \<Longrightarrow> streams_extend s u" for s t u
    unfolding streams_extend_def by (metis append_assoc)
qed

lemma store_step_streams:
  assumes "store_step now s t" and ok: "runtime_ok s"
  shows "streams_extend s t"
  using assms
proof (induction rule: store_step.induct)
  case (create s k user)
  have "stream_of s k = None" using create by (metis domIff map_of_None_keys runtime_ok_def)
  then show ?case
    using created_run_stream(1) [OF create(2,1)] by (auto simp: streams_extend_def)
next
  case (life s k rs ev rs')
  then obtain old where "stream_of s k = Some old" using runtime_ok_stream by blast
  then show ?case
    using stream_of_commit [OF life(3)] by (auto simp: streams_extend_def split: option.splits)
next
  case (signal s q)
  then show ?case by (simp add: streams_extend_def)
qed

lemma later_streams:
  assumes "later s t" and "runtime_ok s"
  shows "streams_extend s t"
  using later_invariant [OF assms, of "streams_extend s"] extending.R_refl extending.R_trans
    store_step_streams by blast

end
