(* ===== verification/StoreProperties.thy ===== *)
theory StoreProperties
  imports EventSourcing
begin

text \<open>
  The correctness properties of the run stores, each with a witness at a concrete history: two
  runs are created and enqueued, and one worker has claimed the first.
\<close>

section \<open>A concrete history\<close>

definition example_request :: RunRequest where
  "example_request =
     \<lparr> req_prompt = ''book a seat'', req_history = [], req_user_id = ''user-1'' \<rparr>"

definition example_calls :: "store_call list" where
  "example_calls =
     [CallCreateRun 0 ''r1'' example_request, CallMarkEnqueued 1 ''r1'',
      CallCreateRun 2 ''r2'' example_request, CallMarkEnqueued 3 ''r2'',
      CallClaimRun 4 ''wA'']"

definition example_runtime :: runtime where
  "example_runtime =
     (case run_calls example_calls create_default_in_memory_runtime of
        Some s \<Rightarrow> s | None \<Rightarrow> create_default_in_memory_runtime)"

definition example_run :: RunStatus where
  "example_run =
     (new_run_status ''r1'' RUNNING None None)
       \<lparr> rs_claimed_worker := Some ''wA'', rs_claim_expiration := Some 34 \<rparr>"

lemma example_run_calls:
  "run_calls example_calls create_default_in_memory_runtime = Some example_runtime"
proof -
  have "run_calls example_calls create_default_in_memory_runtime \<noteq> None" by code_simp
  then show ?thesis by (auto simp: example_runtime_def)
qed

lemma example_reachable: "reachable example_runtime"
  using example_run_calls by (rule run_calls_reachable)

lemma example_ok: "runtime_ok example_runtime"
  using example_reachable by (rule reachable_ok)

lemma example_runs:
  "rt_runs example_runtime = [(''r1'', example_run), (''r2'', new_run_status ''r2'' ENQUEUED None None)]"
  by code_simp

lemma example_run_of [simp]:
  "run_of example_runtime ''r1'' = Some example_run"
  "run_of example_runtime ''r2'' = Some (new_run_status ''r2'' ENQUEUED None None)"
  by (simp_all add: example_runs)

lemma example_run_sel [simp]:
  "rs_status example_run = RUNNING" "rs_claimed_worker example_run = Some ''wA''"
  "rs_claim_expiration example_run = Some 34" "rs_retry_count example_run = Some 0"
  "\<not> rs_cancel_requested example_run" "rs_id example_run = ''r1''"
  by (simp_all add: example_run_def)

section \<open>Claiming\<close>

text \<open>
  C2 Claiming never raises on a well-formed runtime. It yields nothing exactly when no run is
  claimable; otherwise the first claimable run in creation order, which it leaves running, owned
  by the worker, with a lease of 30 seconds from now, and which is what it returns.
\<close>

theorem claim_run_takes_first_claimable:
  assumes "runtime_ok s"
  shows "case first_claimable now s of
      None \<Rightarrow> fst (claim_run default_policy now w s) = Inr None
    | Some k \<Rightarrow> \<exists>c. fst (claim_run default_policy now w s) = Inr (Some c) \<and> cl_id c = k \<and>
        run_of (snd (claim_run default_policy now w s)) k = Some (cl_run_status c) \<and>
        rs_status (cl_run_status c) = RUNNING \<and>
        rs_claimed_worker (cl_run_status c) = Some w \<and>
        rs_claim_expiration (cl_run_status c) = Some (now + 30) \<and>
        \<not> rs_cancel_requested (cl_run_status c)"
proof (cases "first_claimable now s")
  case None
  then show ?thesis using claim_run_summary [OF assms, of now w] by auto
next
  case (Some k)
  then have "claimable_at now s k" unfolding first_claimable_def using find_Some_in by metis
  then obtain rs where "run_of s k = Some rs" "claimable now rs"
    by (auto simp: claimable_at_def split: option.splits)
  then show ?thesis
    using claim_run_summary [OF assms, of now w] Some
    by (auto simp: claimed_by_def get_new_expiration_ts_def recovered_def claimable_def)
qed

theorem claim_run_takes_first_claimable_witness:
  "first_claimable 5 example_runtime = Some ''r2'' \<and>
   (\<exists>c. fst (claim_run default_policy 5 ''wB'' example_runtime) = Inr (Some c) \<and> cl_id c = ''r2'')"
proof -
  have "first_claimable 5 example_runtime = Some ''r2''" by code_simp
  then show ?thesis
    using claim_run_takes_first_claimable [OF example_ok, of 5 "''wB''"] by auto
qed

lemma live_lease_kept:
  assumes "runtime_ok s" and "run_of s k = Some rs"
    and "rs_status rs = RUNNING" and "\<not> has_claim_expired now rs"
  shows "run_of (snd (claim_run default_policy now w s)) k = Some rs"
proof -
  have "recovered now w rs = rs" "swept rs = rs" "\<not> claimable now rs"
    using assms(3,4) by (simp_all add: recovered_def swept_def claimable_def expired_lease_def)
  moreover from this have "first_claimable now s \<noteq> Some k"
    using assms(2) find_Some_in unfolding first_claimable_def claimable_at_def by fastforce
  ultimately show ?thesis
    using claim_run_summary [OF assms(1), of now w] assms(2) by auto
qed

text \<open>
  Which calls leave the outcome of a run to its worker: all but the completions of that run and
  its deprecated direct cancellation; and whether a lease is live at a time.
\<close>

fun spares :: "uuid \<Rightarrow> store_call \<Rightarrow> bool" where
  "spares k (CallSetFailed now k' e) = (k' \<noteq> k)"
| "spares k (CallSetSucceeded now k' d) = (k' \<noteq> k)"
| "spares k (CallSetCancelled now k') = (k' \<noteq> k)"
| "spares k (CallMarkCancelled now k') = (k' \<noteq> k)"
| "spares k _ = True"

definition lease_live :: "unix_ts \<Rightarrow> uuid \<Rightarrow> runtime \<Rightarrow> bool" where
  "lease_live now k s =
     (case run_of s k of None \<Rightarrow> True
      | Some rs \<Rightarrow> rs_status rs = RUNNING \<longrightarrow> \<not> has_claim_expired now rs)"

text \<open>
  One call during a live lease: the run stays running for its owner, and a recorded cancellation
  request stays recorded.
\<close>

lemma call_in_lease:
  assumes ok: "runtime_ok s" and run: "run_of s k = Some rs" "rs_status rs = RUNNING"
    and "call_allowed s c" and "spares k c" and "lease_live (call_time c) k s"
  shows "\<exists>rs'. run_of (after_call c s) k = Some rs' \<and> rs_status rs' = RUNNING \<and>
           rs_claimed_worker rs' = rs_claimed_worker rs \<and>
           (rs_cancel_requested rs \<longrightarrow> rs_cancel_requested rs')"
proof (cases c)
  case (CallCreateRun now k' req)
  then have "run_of s k' = None" using assms(4) by simp
  with CallCreateRun run show ?thesis by (auto simp: create_run_fresh [OF ok])
next
  case (CallClaimRun now w)
  then have "\<not> has_claim_expired now rs" using assms(6) run by (simp add: lease_live_def)
  then show ?thesis using CallClaimRun run live_lease_kept [OF ok run] by simp
next
  case (CallEmitEvent now k' ty pl)
  then show ?thesis using run by (simp add: emit_event_def with_log_def split: prod.split)
next
  case CallNotify
  then show ?thesis using run by (simp add: notify_signal_def modify_def)
next
  case (CallWait t n)
  then show ?thesis using run by (simp add: wait_signal_def split: prod.split)
qed (use run assms(5) in \<open>auto simp: mark_enqueued_cases [OF ok] mark_cancelled_cases [OF ok]
       request_cancellation_cases [OF ok] heartbeat_cases [OF ok] set_failed_cases [OF ok]
       set_succeeded_cases [OF ok] set_cancelled_cases [OF ok] split: option.split\<close>)

fun in_lease :: "uuid \<Rightarrow> store_call list \<Rightarrow> runtime \<Rightarrow> bool" where
  "in_lease k [] s = True"
| "in_lease k (c # cs) s =
     (spares k c \<and> lease_live (call_time c) k s \<and> in_lease k cs (after_call c s))"

text \<open>
  C1 A live lease is exclusive: through any history of calls by any callers that comes before
  the lease runs out (the owner's heartbeats keep moving that moment) and does not itself complete
  the run, the run stays running and owned by the same worker, whoever else claims, heartbeats or
  requests cancellation.
\<close>

theorem live_leases_are_exclusive:
  assumes "runtime_ok s" and "run_of s k = Some rs" and "rs_status rs = RUNNING"
    and "in_lease k cs s" and "run_calls cs s = Some t"
  shows "\<exists>rs'. run_of t k = Some rs' \<and> rs_status rs' = RUNNING \<and>
           rs_claimed_worker rs' = rs_claimed_worker rs"
  using assms
proof (induction cs arbitrary: s rs)
  case (Cons c cs)
  then have c: "call_allowed s c" "spares k c" "lease_live (call_time c) k s"
      "in_lease k cs (after_call c s)" "run_calls cs (after_call c s) = Some t"
    by (auto split: if_splits)
  obtain rs' where rs': "run_of (after_call c s) k = Some rs'" "rs_status rs' = RUNNING"
      "rs_claimed_worker rs' = rs_claimed_worker rs"
    using call_in_lease [OF Cons.prems(1-3) c(1-3)] by blast
  have "runtime_ok (after_call c s)"
    using after_call_effect [OF c(1)] Cons.prems(1) by (simp add: store_effect_def)
  from Cons.IH [OF this rs'(1,2) c(4,5)] rs'(3) show ?case by auto
qed auto

theorem live_leases_are_exclusive_witness:
  "\<exists>t rs. run_calls [CallHeartbeat 30 ''r1'' ''wA'', CallClaimRun 50 ''wB'', CallRequestCancellation 55 ''r1'']
            example_runtime = Some t \<and> run_of t ''r1'' = Some rs \<and> rs_claimed_worker rs = Some ''wA''"
proof -
  let ?cs = "[CallHeartbeat 30 ''r1'' ''wA'', CallClaimRun 50 ''wB'', CallRequestCancellation 55 ''r1'']"
  have "run_calls ?cs example_runtime \<noteq> None" by simp
  then obtain t where t: "run_calls ?cs example_runtime = Some t" by blast
  have "in_lease ''r1'' ?cs example_runtime" by code_simp
  from live_leases_are_exclusive [OF example_ok example_run_of(1) _ this t] t
  show ?thesis by auto
qed

text \<open>
  Lease recovery: every call of \<open>claim_run\<close> after the lease of a running run has expired
  takes the run from its old owner with its retry count one higher. It ends up running for the
  claimer, or enqueued, or cancelled when its cancellation had been requested; never lost.
\<close>

theorem claim_run_recovers_expired:
  assumes "runtime_ok s" and "run_of s k = Some rs"
    and "rs_status rs = RUNNING" and "has_claim_expired now rs" and "rs_retry_count rs = Some n"
  shows "\<exists>rs'. run_of (snd (claim_run default_policy now w s)) k = Some rs' \<and>
           rs_retry_count rs' = Some (n + 1) \<and> rs_claimed_worker rs' = Some w \<and>
           rs_cancel_requested rs' = rs_cancel_requested rs \<and>
           (rs_status rs' \<in> {RUNNING, ENQUEUED} \<or> rs_status rs' = CANCELLED \<and> rs_cancel_requested rs)"
  using claim_run_summary [OF assms(1), of now w] assms(2-5)
  by (auto simp: recovered_def expired_lease_def claimed_by_def swept_def)

section \<open>Draining the queue\<close>

text \<open>How many runs can be claimed, and a worker that keeps claiming.\<close>

definition claimable_count :: "unix_ts \<Rightarrow> runtime \<Rightarrow> nat" where
  "claimable_count now s = length (filter (claimable_at now s) (dict_keys (rt_runs s)))"

fun claim_times :: "nat \<Rightarrow> unix_ts \<Rightarrow> string \<Rightarrow> runtime \<Rightarrow> runtime" where
  "claim_times 0 now w s = s"
| "claim_times (Suc n) now w s = claim_times n now w (snd (claim_run default_policy now w s))"

lemma claimable_recovered [simp]: "claimable now (recovered now w rs) = claimable now rs"
  by (auto simp: claimable_def recovered_def expired_lease_def)

lemma claimable_swept [simp]: "claimable now (swept rs) = claimable now rs"
  by (auto simp: claimable_def swept_def expired_lease_def)

lemma not_claimable_claimed [simp]: "\<not> claimable now (claimed_by now w rs)"
  by (simp add: claimable_def claimed_by_def expired_lease_def has_claim_expired_def
      get_new_expiration_ts_def)

lemma filter_remove_found:
  "distinct xs \<Longrightarrow> List.find P xs = Some k \<Longrightarrow>
     Suc (length (filter (\<lambda>x. P x \<and> x \<noteq> k) xs)) = length (filter P xs)"
proof (induction xs)
  case (Cons x xs)
  show ?case
  proof (cases "P x")
    case True
    then have "filter (\<lambda>y. P y \<and> y \<noteq> x) xs = filter P xs"
      using Cons.prems(1) by (auto intro!: filter_cong)
    with True Cons.prems show ?thesis by simp
  next
    case False
    then show ?thesis using Cons by (auto dest: find_Some_in)
  qed
qed simp

lemma claimable_after_claim:
  assumes "runtime_ok s"
  shows "claimable_at now (snd (claim_run default_policy now w s)) k \<longleftrightarrow>
           claimable_at now s k \<and> first_claimable now s \<noteq> Some k"
proof -
  let ?t = "snd (claim_run default_policy now w s)"
  have eq: "run_of ?t k =
      (if first_claimable now s = Some k then map_option (\<lambda>rs. claimed_by now w (recovered now w rs)) (run_of s k)
       else if before_claim now s k then map_option (\<lambda>rs. swept (recovered now w rs)) (run_of s k)
       else map_option (recovered now w) (run_of s k))"
    using claim_run_summary [OF assms, of now w] by auto
  show ?thesis
    unfolding claimable_at_def eq by (cases "run_of s k") (simp_all split: if_split)
qed

lemma claim_run_ok:
  assumes "runtime_ok s"
  shows "runtime_ok (snd (claim_run default_policy now w s))"
    and "dict_keys (rt_runs (snd (claim_run default_policy now w s))) = dict_keys (rt_runs s)"
  using claim_run_summary [OF assms, of now w] by auto

lemma claimable_count_claim:
  assumes "runtime_ok s"
  shows "claimable_count now (snd (claim_run default_policy now w s)) = claimable_count now s - 1"
proof (cases "first_claimable now s")
  case None
  then show ?thesis
    unfolding first_claimable_def claimable_count_def claim_run_ok(2) [OF assms]
    by (simp add: find_None_all claimable_after_claim [OF assms] filter_empty_conv
        first_claimable_def)
next
  case (Some k)
  then have "Suc (length (filter (\<lambda>x. claimable_at now s x \<and> x \<noteq> k) (dict_keys (rt_runs s)))) =
      claimable_count now s"
    unfolding claimable_count_def first_claimable_def
    using assms by (intro filter_remove_found) (auto simp: runtime_ok_def)
  moreover have "claimable_count now (snd (claim_run default_policy now w s)) =
      length (filter (\<lambda>x. claimable_at now s x \<and> x \<noteq> k) (dict_keys (rt_runs s)))"
    unfolding claimable_count_def claim_run_ok(2) [OF assms]
    using Some by (auto simp: claimable_after_claim [OF assms] intro!: arg_cong [of _ _ length] filter_cong)
  ultimately show ?thesis by linarith
qed

text \<open>
  C12 No run starves: whatever the backlog, as many claims as there are claimable runs leave none
  unclaimed, in a well-formed runtime with the same runs.
\<close>

theorem repeated_claims_drain_the_queue:
  assumes "runtime_ok s" and "claimable_count now s \<le> n"
  shows "first_claimable now (claim_times n now w s) = None \<and> runtime_ok (claim_times n now w s) \<and>
         dict_keys (rt_runs (claim_times n now w s)) = dict_keys (rt_runs s)"
  using assms
proof (induction n arbitrary: s)
  case 0
  then show ?case
    by (auto simp: claimable_count_def first_claimable_def find_None_all filter_empty_conv)
next
  case (Suc n)
  then show ?case
    using claim_run_ok [OF Suc.prems(1), of now w] claimable_count_claim [OF Suc.prems(1), of now w]
    by simp
qed

theorem repeated_claims_drain_the_queue_witness:
  "claimable_count 35 example_runtime = 2 \<and>
   first_claimable 35 (claim_times 2 35 ''wB'' example_runtime) = None"
proof -
  have "claimable_count 35 example_runtime = 2" by code_simp
  then show ?thesis using repeated_claims_drain_the_queue [OF example_ok, of 35 2 "''wB''"] by simp
qed

section \<open>Every history\<close>

text \<open>
  C8 Consistency: after any history of calls from any callers, the runtime is well-formed (one
  entry per run, one numbered stream per run, a lease and an owner for every running run) and no
  run is seen in the transient statuses \<open>TIMED_OUT\<close> or \<open>RETRYING\<close>.
\<close>

theorem histories_stay_consistent:
  assumes "reachable s"
  shows "runtime_ok s \<and> settled s"
  using assms by (simp add: reachable_ok reachable_settled)

theorem histories_stay_consistent_witness:
  "runtime_ok example_runtime \<and> settled example_runtime"
  using histories_stay_consistent [OF example_reachable] .

text \<open>
  C9 A terminal run is final: no later history of calls, by any caller, changes its record.
\<close>

theorem terminal_runs_are_final:
  assumes "reachable s" and "run_of s k = Some rs" and "rs_status rs \<in> TERMINAL_RUN_STATUSES"
    and "later s t"
  shows "run_of t k = Some rs"
  using later_run [OF assms(4) reachable_ok [OF assms(1)] assms(2), of "(=)"]
    life_step_terminal assms(3) by metis

lemma run_calls_later_here: "run_calls cs s = Some t \<Longrightarrow> later s t"
  by (rule run_calls_later [OF _ later.here])

definition finished_runtime :: runtime where
  "finished_runtime = after_call (CallSetFailed 6 ''r1'' ''boom'') example_runtime"

lemma finished_reachable: "reachable finished_runtime"
  unfolding finished_runtime_def
  by (rule reachable_later [OF example_reachable later.call [OF later.here]]) simp

definition failed_run :: RunStatus where
  "failed_run = example_run\<lparr> rs_status := FAILED, rs_error := Some ''boom'' \<rparr>"

lemma finished_run: "run_of finished_runtime ''r1'' = Some failed_run"
  by code_simp

theorem terminal_runs_are_final_witness:
  "run_of (after_call (CallClaimRun 90 ''wB'') (after_call (CallRequestCancellation 50 ''r1'') finished_runtime)) ''r1''
     = Some failed_run"
proof -
  have "later finished_runtime
      (after_call (CallClaimRun 90 ''wB'') (after_call (CallRequestCancellation 50 ''r1'') finished_runtime))"
    by (intro later.intros) simp_all
  from terminal_runs_are_final [OF finished_reachable finished_run _ this]
  show ?thesis by (simp add: failed_run_def)
qed

text \<open>
  C10 The transition table is the only way a status changes: between any two moments of a history,
  a run's status has moved along a path of the default table, and its id is the same.
\<close>

theorem statuses_follow_the_table:
  assumes "reachable s" and "run_of s k = Some rs" and "later s t"
  shows "\<exists>rs'. run_of t k = Some rs' \<and> allowed\<^sup>*\<^sup>* (rs_status rs) (rs_status rs') \<and> rs_id rs' = k"
proof -
  have "\<exists>rs'. run_of t k = Some rs' \<and> allowed\<^sup>*\<^sup>* (rs_status rs) (rs_status rs')"
    by (rule later_run [OF assms(3) reachable_ok [OF assms(1)] assms(2)])
       (auto dest: life_step_path)
  moreover have "runtime_ok t" using assms(1,3) by (blast intro: reachable_ok reachable_later)
  ultimately show ?thesis using runtime_ok_run run_ok_def by blast
qed

theorem statuses_follow_the_table_witness:
  "\<exists>rs'. run_of finished_runtime ''r1'' = Some rs' \<and> allowed\<^sup>*\<^sup>* RUNNING (rs_status rs')"
proof -
  have "later example_runtime finished_runtime"
    unfolding finished_runtime_def by (intro later.intros) simp
  then show ?thesis
    using statuses_follow_the_table [OF example_reachable example_run_of(1)] by auto
qed

text \<open>
  C11 A run whose cancellation is requested while it waits in the queue is never started: from then
  on it is enqueued with the request still recorded, or cancelled.
\<close>

theorem cancelled_in_queue_never_runs:
  assumes "reachable s" and "run_of s k = Some rs"
    and "rs_status rs = ENQUEUED" and "rs_cancel_requested rs" and "later s t"
  shows "\<exists>rs'. run_of t k = Some rs' \<and>
           (rs_status rs' = CANCELLED \<or> rs_status rs' = ENQUEUED \<and> rs_cancel_requested rs')"
proof -
  have keep: "rs_status b = CANCELLED \<or> rs_status b = ENQUEUED \<and> rs_cancel_requested b"
    if "life_step now a ev b"
      and "rs_status a = CANCELLED \<or> rs_status a = ENQUEUED \<and> rs_cancel_requested a" for now a ev b
    using that by (cases rule: life_step.cases) auto
  show ?thesis
    by (rule later_run [OF assms(5) reachable_ok [OF assms(1)] assms(2)])
       (use assms(3,4) keep in blast)+
qed

definition withdrawn_runtime :: runtime where
  "withdrawn_runtime = after_call (CallRequestCancellation 6 ''r2'') example_runtime"

lemma withdrawn_reachable: "reachable withdrawn_runtime"
  unfolding withdrawn_runtime_def
  by (rule reachable_later [OF example_reachable later.call [OF later.here]]) simp

lemma withdrawn_run:
  "run_of withdrawn_runtime ''r2'' =
     Some ((new_run_status ''r2'' ENQUEUED None None)\<lparr> rs_cancel_requested := True \<rparr>)"
  by code_simp

theorem cancelled_in_queue_never_runs_witness:
  "\<exists>rs'. run_of (after_call (CallClaimRun 7 ''wB'') withdrawn_runtime) ''r2'' = Some rs' \<and>
         rs_status rs' \<noteq> RUNNING"
proof -
  have "later withdrawn_runtime (after_call (CallClaimRun 7 ''wB'') withdrawn_runtime)"
    by (intro later.intros) simp
  from cancelled_in_queue_never_runs [OF withdrawn_reachable withdrawn_run _ _ this]
  show ?thesis by auto
qed

section \<open>The event log\<close>



text \<open>
  The streams are append-only over whole histories: what a reader saw of a run is a prefix of
  everything it will ever see, and asking for the events after the last one seen gives the rest.
\<close>

theorem readers_see_a_growing_stream:
  assumes "reachable s" and "later s t" and "run_of s k = Some rs"
    and "fst (get_events k None s) = Inr seen"
  shows "\<exists>new. get_events k None t = (Inr (seen @ new), t) \<and>
               get_events k (Some (int (length seen))) t = (Inr new, t)"
proof -
  have ok: "runtime_ok s" and okt: "runtime_ok t"
    using assms(1,2) by (blast intro: reachable_ok reachable_later)+
  obtain es where es: "stream_of s k = Some es" using runtime_ok_stream [OF ok assms(3)] ..
  then have seen: "seen = es" using assms(3,4) by (simp add: get_events_cases [OF ok])
  obtain new where new: "stream_of t k = Some (es @ new)"
    using later_streams [OF assms(2) ok] es by (auto simp: streams_extend_def)
  obtain rs' where "run_of t k = Some rs'"
    using later_run [OF assms(2) ok assms(3), of "\<lambda>_ _. True"] by blast
  moreover have "list_events k (Some (int (length es))) (rt_events t) = (Inr new, rt_events t)"
    using mem_log.listing_after [OF runtime_ok_log [OF okt] new, of "length es"] by simp
  ultimately show ?thesis
    using seen new by (simp add: get_events_def bindM_Inr lookup_simps with_log_def list_events_def)
qed

section \<open>Single operations\<close>

lemma commit_quiet: "rt_events (commit now k rs None s) = rt_events s"
  by (simp add: commit_def log_extend_def)

text \<open>
  Requesting a cancellation: an unknown run is reported as not found; a terminal run or one
  whose cancellation is already requested answers false; otherwise the request is recorded, with
  its event and nothing else changed, it answers true, and asking again answers false and changes
  nothing.
\<close>

theorem cancellation_requested_once:
  assumes "runtime_ok s"
  shows "case run_of s k of
      None \<Rightarrow> request_cancellation now k s = (Inl (RunNotFoundError k), s)
    | Some rs \<Rightarrow>
        if rs_status rs \<in> TERMINAL_RUN_STATUSES \<or> rs_cancel_requested rs
        then request_cancellation now k s = (Inr False, s)
        else fst (request_cancellation now k s) = Inr True \<and>
          (let t = snd (request_cancellation now k s) in
             run_of t k = Some (rs\<lparr> rs_cancel_requested := True \<rparr>) \<and>
             (\<forall>k'. k' \<noteq> k \<longrightarrow> run_of t k' = run_of s k' \<and> stream_of t k' = stream_of s k') \<and>
             (\<exists>es. stream_of s k = Some es \<and>
                stream_of t k = Some (es @ [next_event now k ''cancel requested'' [] es])) \<and>
             request_cancellation now' k t = (Inr False, t))"
proof (cases "run_of s k")
  case None
  then show ?thesis by (simp add: request_cancellation_cases [OF assms])
next
  case (Some rs)
  obtain es where es: "stream_of s k = Some es" using runtime_ok_stream [OF assms Some] ..
  let ?t = "commit now k (rs\<lparr> rs_cancel_requested := True \<rparr>) (Some (''cancel requested'', [])) s"
  have "run_ok k (rs\<lparr> rs_cancel_requested := True \<rparr>)"
    using runtime_ok_run [OF assms Some] by (simp add: run_ok_def)
  then have "runtime_ok ?t" by (rule runtime_ok_commit [OF assms Some])
  then show ?thesis
    using Some es stream_of_commit [OF assms es]
    by (simp add: request_cancellation_cases assms Let_def)
qed

text \<open>
  A heartbeat: the owner of a running run gets its lease renewed for 30 seconds and nothing
  else changed; any other worker gets RunLeaseLostError, with the loss recorded as an event and
  the run untouched; on a run that is not running it is a read.
\<close>

theorem heartbeat_renews_only_for_the_owner:
  assumes "runtime_ok s" and "run_of s k = Some rs"
  shows "if rs_status rs \<noteq> RUNNING then heartbeat now k w s = (Inr rs, s)
    else if rs_claimed_worker rs = Some w
    then fst (heartbeat now k w s) = Inr (rs\<lparr> rs_claim_expiration := Some (now + 30) \<rparr>) \<and>
      run_of (snd (heartbeat now k w s)) = (run_of s)(k \<mapsto> rs\<lparr> rs_claim_expiration := Some (now + 30) \<rparr>) \<and>
      rt_events (snd (heartbeat now k w s)) = rt_events s
    else (\<exists>m es. fst (heartbeat now k w s) = Inl (RunLeaseLostError m) \<and>
      run_of (snd (heartbeat now k w s)) = run_of s \<and>
      stream_of s k = Some es \<and>
      stream_of (snd (heartbeat now k w s)) k =
        Some (es @ [next_event now k ''claim_lost'' [(''worker'', PStr w)] es]))"
proof -
  obtain es where es: "stream_of s k = Some es" using runtime_ok_stream [OF assms] ..
  have run_eq: "run_of (commit now k r ev s) = (run_of s)(k \<mapsto> r)" for r ev by (rule ext) simp
  have "(run_of s)(k \<mapsto> rs) = run_of s" using assms(2) by auto
  then show ?thesis
    using assms es stream_of_commit [OF assms(1) es]
    by (simp add: heartbeat_cases get_new_expiration_ts_def run_eq commit_quiet del: commit_run)
qed

text \<open>
  Completing a run takes effect exactly when it is running: recording success, failure or
  cancellation sets the status with its result or error, keeps the rest, and appends one event;
  on a run that is not running, success and failure raise ValueError and change nothing.
\<close>

theorem completion_needs_a_running_run:
  assumes "runtime_ok s" and "run_of s k = Some rs"
  shows "(if rs_status rs = RUNNING
     then fst (set_succeeded default_policy now k d s) = Inr () \<and>
       run_of (snd (set_succeeded default_policy now k d s)) k =
         Some (rs\<lparr> rs_status := SUCCEEDED, rs_result := Some d \<rparr>) \<and>
       fst (set_failed default_policy now k e s) = Inr () \<and>
       run_of (snd (set_failed default_policy now k e s)) k =
         Some (rs\<lparr> rs_status := FAILED, rs_error := Some e \<rparr>) \<and>
       fst (set_cancelled default_policy now k s) = Inr () \<and>
       run_of (snd (set_cancelled default_policy now k s)) k = Some (rs\<lparr> rs_status := CANCELLED \<rparr>)
     else (\<exists>m. set_succeeded default_policy now k d s = (Inl (ValueError m), s)) \<and>
       (\<exists>m. set_failed default_policy now k e s = (Inl (ValueError m), s)))"
  using assms
  by (simp add: set_succeeded_cases set_failed_cases set_cancelled_cases invalid_transition_def)

text \<open>
  C3 Refinement: every call of the two stores, whether it returns or raises, is a sequence of
  steps of the abstract store: single-run life-cycle steps, each with the event that records it.
\<close>

theorem stores_refine_the_life_cycle:
  assumes "runtime_ok s" and "call_allowed s c"
  shows "(store_step (call_time c))\<^sup>*\<^sup>* s (after_call c s) \<and> runtime_ok (after_call c s)"
  using after_call_effect [OF assms(2)] assms(1) by (simp add: store_effect_def)

theorem stores_refine_the_life_cycle_witness:
  "(store_step 35)\<^sup>*\<^sup>* example_runtime (after_call (CallClaimRun 35 ''wB'') example_runtime)"
  using stores_refine_the_life_cycle [OF example_ok, of "CallClaimRun 35 ''wB''"] by simp

section \<open>Limits of the design\<close>

text \<open>
  Completion is not fenced by the lease: when a worker's lease has expired and another worker
  has claimed the run, the first worker's \<open>set_succeeded\<close> still decides the run's outcome, and
  the second worker's later completion is refused with ValueError.
\<close>

theorem completion_ignores_the_owner:
  assumes "runtime_ok s" and "run_of s k = Some rs" and "rs_status rs = RUNNING"
    and "rs_claimed_worker rs = Some w'"
  shows "let t = snd (set_succeeded default_policy now k d s) in
     fst (set_succeeded default_policy now k d s) = Inr () \<and>
     run_of t k = Some (rs\<lparr> rs_status := SUCCEEDED, rs_result := Some d \<rparr>) \<and>
     (\<exists>m. set_succeeded default_policy now' k d' t = (Inl (ValueError m), t)) \<and>
     heartbeat now' k w t = (Inr (rs\<lparr> rs_status := SUCCEEDED, rs_result := Some d \<rparr>), t)"
proof -
  let ?rs = "rs\<lparr> rs_status := SUCCEEDED, rs_result := Some d \<rparr>"
  have "run_ok k ?rs" using runtime_ok_run [OF assms(1,2)] by (simp add: run_ok_def)
  then have "runtime_ok (commit now k ?rs (Some (''run_succeeded'', [(''result'', PStr ''done'')])) s)"
    by (rule runtime_ok_commit [OF assms(1,2)])
  then show ?thesis
    using assms by (simp add: set_succeeded_cases heartbeat_cases Let_def invalid_transition_def)
qed

text \<open>The first worker's lease is taken over by the second before the first completes.\<close>

definition taken_over_runtime :: runtime where
  "taken_over_runtime = after_call (CallClaimRun 35 ''wB'') example_runtime"

lemma taken_over:
  "runtime_ok taken_over_runtime"
  "run_of taken_over_runtime ''r1'' =
     Some (example_run\<lparr> rs_claimed_worker := Some ''wB'', rs_claim_expiration := Some 65,
                        rs_retry_count := Some 1 \<rparr>)"
proof -
  show "runtime_ok taken_over_runtime"
    unfolding taken_over_runtime_def
    using after_call_effect [of example_runtime "CallClaimRun 35 ''wB''"] example_ok
    by (simp add: store_effect_def)
  show "run_of taken_over_runtime ''r1'' =
     Some (example_run\<lparr> rs_claimed_worker := Some ''wB'', rs_claim_expiration := Some 65,
                        rs_retry_count := Some 1 \<rparr>)"
    by code_simp
qed

text \<open>
  \<open>mark_enqueued\<close> forgets a cancellation: when one is requested between the creation and the
  enqueueing of a run, the request is recorded and answered with true, and then dropped, so the
  run is enqueued as claimable.
\<close>

theorem enqueueing_forgets_cancellation:
  assumes "runtime_ok s" and "run_of s k = Some rs"
    and "rs_status rs = CREATED" and "\<not> rs_cancel_requested rs"
  shows "fst (request_cancellation now k s) = Inr True \<and>
     (let t = snd (mark_enqueued default_policy now' k (snd (request_cancellation now k s)))
      in run_of t k = Some (new_run_status k ENQUEUED (rs_result rs) (rs_error rs)) \<and>
         claimable_at now'' t k)"
proof -
  have ok: "run_ok k rs" by (rule runtime_ok_run [OF assms(1,2)])
  let ?rs = "rs\<lparr> rs_cancel_requested := True \<rparr>"
  have "run_ok k ?rs" using ok by (simp add: run_ok_def)
  then have "runtime_ok (commit now k ?rs (Some (''cancel requested'', [])) s)"
    by (rule runtime_ok_commit [OF assms(1,2)])
  then show ?thesis
    using assms ok
    by (simp add: request_cancellation_cases mark_enqueued_cases Let_def claimable_at_def
        claimable_def run_ok_def)
qed

end
