(* ===== verification/AgentApi.thy ===== *)
theory AgentApi
  imports Orchestrator StoreProperties
begin

text \<open>
  The run endpoints of the HTTP API (\<open>api/http/v1/routes/agent.py\<close>), their data transfer objects
  and mappers. A route returns a body, or raises an HTTP exception, or lets an exception through
  that the framework answers with status 500. The framework's own validation of paths and bodies
  is not modelled: a route is given a run id, a parsed body and an optional number.
\<close>

section \<open>Data transfer objects and mappers\<close>

record AgentPromptDto =
  ap_prompt :: string
  ap_history :: "string list"

record CreatedRunDto =
  cr_id :: uuid

record RunDto =
  rd_id :: uuid
  rd_status :: string
  rd_result :: "pydict option"
  rd_error :: "string option"
  rd_cancel_requested :: bool

record RunEventDto =
  ed_sequence_nr :: int
  ed_event_type :: string
  ed_payload :: pydict
  ed_timestamp_utc :: unix_ts

record CancelRunResponseDto =
  cc_run_id :: uuid
  cc_status :: string
  cc_message :: string

definition CreatedRunV1Mapper_to_dto :: "RunStatus \<Rightarrow> CreatedRunDto" where
  "CreatedRunV1Mapper_to_dto run_status = \<lparr> cr_id = rs_id run_status \<rparr>"

definition RunV1Mapper_to_dto :: "RunStatus \<Rightarrow> RunDto" where
  "RunV1Mapper_to_dto run_status =
     \<lparr> rd_id = rs_id run_status,
       rd_status = code_name (rs_status run_status),
       rd_result = rs_result run_status,
       rd_error = rs_error run_status,
       rd_cancel_requested = rs_cancel_requested run_status \<rparr>"

definition RunEventV1Mapper_to_dto :: "RunEvent \<Rightarrow> RunEventDto" where
  "RunEventV1Mapper_to_dto run_event =
     \<lparr> ed_sequence_nr = ev_sequence_nr run_event,
       ed_event_type = ev_event_type run_event,
       ed_payload = ev_payload run_event,
       ed_timestamp_utc = ev_timestamp_utc run_event \<rparr>"

section \<open>Routes\<close>

datatype 'a response = Ok200 'a | HTTPException int string

definition create_agent_run ::
    "'s BackendRunOrchestrationService \<Rightarrow> unix_ts \<Rightarrow> unix_ts \<Rightarrow> uuid \<Rightarrow> AgentPromptDto \<Rightarrow>
     ('s, CreatedRunDto response) prog" where
  "create_agent_run run_service t1 t2 new_id agent_prompt =
     bindM (service_create_run run_service t1 t2 new_id (ap_prompt agent_prompt)) (\<lambda>created_run_status.
     ret (Ok200 (CreatedRunV1Mapper_to_dto created_run_status)))"

fun not_found_handler :: "exn \<Rightarrow> ('s, 'a response) prog" where
  "not_found_handler (RunNotFoundError k) = ret (HTTPException 404 (exn_text (RunNotFoundError k)))"
| "not_found_handler exc = throw exc"

fun events_handler :: "exn \<Rightarrow> ('s, 'a response) prog" where
  "events_handler (RunNotFoundError k) = ret (HTTPException 404 (exn_text (RunNotFoundError k)))"
| "events_handler (ValueError m) = ret (HTTPException 400 (exn_text (ValueError m)))"
| "events_handler exc = throw exc"

definition get_agent_run ::
    "'s BackendRunOrchestrationService \<Rightarrow> uuid \<Rightarrow> ('s, RunDto response) prog" where
  "get_agent_run run_service run_id =
     try_except
       (bindM (service_get_run run_service run_id) (\<lambda>run_status.
        ret (Ok200 (RunV1Mapper_to_dto run_status))))
       not_found_handler"

definition cancel_agent_run ::
    "'s BackendRunOrchestrationService \<Rightarrow> unix_ts \<Rightarrow> uuid \<Rightarrow> ('s, CancelRunResponseDto response) prog" where
  "cancel_agent_run run_service now run_id =
     try_except
       (bindM (service_cancel_run run_service now run_id) (\<lambda>was_cancelled.
        if was_cancelled then
          ret (Ok200 \<lparr> cc_run_id = run_id, cc_status = ''cancel_requested'',
                       cc_message = ''Run cancellation requested'' \<rparr>)
        else
          ret (Ok200 \<lparr> cc_run_id = run_id, cc_status = ''already_terminal'',
                       cc_message = ''Run already in terminal state or cancel is requested'' \<rparr>)))
       not_found_handler"

definition get_agent_run_events ::
    "'s BackendRunOrchestrationService \<Rightarrow> uuid \<Rightarrow> int option \<Rightarrow> ('s, RunEventDto list response) prog" where
  "get_agent_run_events run_service run_id after =
     try_except
       (bindM (service_get_run run_service run_id) (\<lambda>_.
        bindM (service_get_events run_service run_id after) (\<lambda>events.
        ret (Ok200 (map RunEventV1Mapper_to_dto events)))))
       events_handler"

section \<open>The routes over any store that keeps the contract\<close>

context intake_contract
begin

lemma get_route:
  assumes "ok s"
  shows "get_agent_run self k s =
    (case view s k of
       None \<Rightarrow> (Inr (HTTPException 404 (''Run '' @ k @ '' not found'')), s)
     | Some rs \<Rightarrow> (Inr (Ok200 (RunV1Mapper_to_dto rs)), s))"
  using status_found [OF assms, of k] status_missing [OF assms, of k]
  by (cases "view s k")
     (simp_all add: get_agent_run_def service_get_run_def bindM_def try_except_def ret_def)

lemma cancel_route:
  assumes "ok s"
  shows "fst (cancel_agent_run self now k s) =
    (case view s k of
       None \<Rightarrow> Inr (HTTPException 404 (''Run '' @ k @ '' not found''))
     | Some rs \<Rightarrow>
         if rs_status rs \<in> TERMINAL_RUN_STATUSES \<or> rs_cancel_requested rs
         then Inr (Ok200 \<lparr> cc_run_id = k, cc_status = ''already_terminal'',
                           cc_message = ''Run already in terminal state or cancel is requested'' \<rparr>)
         else Inr (Ok200 \<lparr> cc_run_id = k, cc_status = ''cancel_requested'',
                           cc_message = ''Run cancellation requested'' \<rparr>))"
  using cancel_cases [OF assms, where k = k and now = now and now' = now]
  by (cases "view s k")
     (auto simp: cancel_agent_run_def bindM_def try_except_def ret_def split: if_splits)

lemma events_route:
  assumes "ok s"
  shows "get_agent_run_events self k a s =
    (case stream s k of
       None \<Rightarrow> (Inr (HTTPException 404 (''Run '' @ k @ '' not found'')), s)
     | Some es \<Rightarrow>
         (Inr (Ok200 (map RunEventV1Mapper_to_dto
            (case a of None \<Rightarrow> es | Some n \<Rightarrow> filter (\<lambda>e. ev_sequence_nr e > n) es))), s))"
proof (cases "view s k")
  case None
  then have "stream s k = None" using stream_law [OF assms] by simp
  with None show ?thesis
    using status_missing [OF assms None]
    by (simp add: get_agent_run_events_def service_get_run_def bindM_def try_except_def ret_def)
next
  case (Some rs)
  then obtain es where es: "stream s k = Some es" using stream_law [OF assms, of k] by fastforce
  have "view s k \<noteq> None" using Some by simp
  then show ?thesis
    using es status_found [OF assms Some] events_law [OF assms _ es]
    by (simp add: get_agent_run_events_def service_get_run_def service_get_events_def bindM_def
        try_except_def ret_def)
qed

lemma create_route:
  assumes "ok s" and "view s k = None"
  shows "\<exists>t. create_agent_run self t1 t2 k body s = (Inr (Ok200 \<lparr> cr_id = k \<rparr>), t) \<and> ok t \<and> woken t \<and>
           view t = (view s)(k \<mapsto> new_run_status k ENQUEUED None None) \<and>
           map_option (map ev_event_type) (stream t k) = Some [''created'', ''enqueued'']"
proof -
  obtain t where
      t: "service_create_run self t1 t2 k (ap_prompt body) s = (Inr (new_run_status k CREATED None None), t)"
      "ok t" "woken t" "view t = (view s)(k \<mapsto> new_run_status k ENQUEUED None None)"
      "map_option (map ev_event_type) (stream t k) = Some [''created'', ''enqueued'']"
    using create_then_enqueued [OF assms, of t1 t2 "ap_prompt body"] by (elim exE conjE) (rule that)
  then show ?thesis
    by (intro exI [of _ t])
       (simp add: create_agent_run_def bindM_def ret_def CreatedRunV1Mapper_to_dto_def)
qed

end

section \<open>Properties\<close>

text \<open>
  Creating a run over the in-memory runtime answers its id, leaves it enqueued and claimable
  with the events created and enqueued, wakes a worker, and reading it back at once answers
  ENQUEUED.
\<close>

theorem created_runs_are_claimable:
  assumes "runtime_ok s" and "run_of s k = None"
  shows "\<exists>t. create_agent_run in_memory_service t1 t2 k body s = (Inr (Ok200 \<lparr> cr_id = k \<rparr>), t) \<and>
           runtime_ok t \<and> pending_wake t \<and> claimable_at now t k \<and>
           run_of t = (run_of s)(k \<mapsto> new_run_status k ENQUEUED None None) \<and>
           map_option (map ev_event_type) (stream_of t k) = Some [''created'', ''enqueued''] \<and>
           (\<exists>dto. get_agent_run in_memory_service k t = (Inr (Ok200 dto), t) \<and>
                  rd_id dto = k \<and> rd_status dto = ''ENQUEUED'' \<and> \<not> rd_cancel_requested dto)"
proof -
  obtain t where t: "create_agent_run in_memory_service t1 t2 k body s = (Inr (Ok200 \<lparr> cr_id = k \<rparr>), t)"
      "runtime_ok t" "pending_wake t" "run_of t = (run_of s)(k \<mapsto> new_run_status k ENQUEUED None None)"
      "map_option (map ev_event_type) (stream_of t k) = Some [''created'', ''enqueued'']"
    using intake.create_route [OF assms, of t1 t2 body] by (elim exE conjE) (rule that)
  then show ?thesis
    using intake.get_route [OF t(2), of k]
    by (intro exI [of _ t])
       (simp add: claimable_at_def claimable_def RunV1Mapper_to_dto_def, simp add: fun_eq_iff)
qed

text \<open>
  C15 The cancel endpoint, on every branch: 404 for an unknown run; \<open>already_terminal\<close> for a
  terminal run, but also for a live run whose cancellation was requested before; otherwise
  \<open>cancel_requested\<close>. It raises nothing else.
\<close>

theorem cancel_endpoint_answers:
  assumes "runtime_ok s"
  shows "fst (cancel_agent_run in_memory_service now k s) =
    (case run_of s k of
       None \<Rightarrow> Inr (HTTPException 404 (''Run '' @ k @ '' not found''))
     | Some rs \<Rightarrow>
         if rs_status rs \<in> TERMINAL_RUN_STATUSES \<or> rs_cancel_requested rs
         then Inr (Ok200 \<lparr> cc_run_id = k, cc_status = ''already_terminal'',
                           cc_message = ''Run already in terminal state or cancel is requested'' \<rparr>)
         else Inr (Ok200 \<lparr> cc_run_id = k, cc_status = ''cancel_requested'',
                           cc_message = ''Run cancellation requested'' \<rparr>))"
  by (rule intake.cancel_route [OF assms])

theorem cancel_endpoint_answers_witness:
  "map_option rs_status (run_of withdrawn_runtime ''r2'') = Some ENQUEUED \<and>
   fst (cancel_agent_run in_memory_service 9 ''r2'' withdrawn_runtime) =
     Inr (Ok200 \<lparr> cc_run_id = ''r2'', cc_status = ''already_terminal'',
                  cc_message = ''Run already in terminal state or cancel is requested'' \<rparr>)"
  using cancel_endpoint_answers [OF reachable_ok [OF withdrawn_reachable], of 9 "''r2''"]
  by (simp add: withdrawn_run)

text \<open>
  The events endpoint answers 404 for an unknown run and otherwise exactly the run's events
  after the given number, in order of their sequence numbers; the 400 answer for a missing event
  log is never given. It changes nothing.
\<close>

theorem events_endpoint_answers:
  assumes "runtime_ok s"
  shows "get_agent_run_events in_memory_service k a s =
    (case stream_of s k of
       None \<Rightarrow> (Inr (HTTPException 404 (''Run '' @ k @ '' not found'')), s)
     | Some es \<Rightarrow>
         (Inr (Ok200 (map RunEventV1Mapper_to_dto
            (case a of None \<Rightarrow> es | Some n \<Rightarrow> filter (\<lambda>e. ev_sequence_nr e > n) es))), s)) \<and>
    (\<forall>es. stream_of s k = Some es \<longrightarrow> map ev_sequence_nr es = [1..int (length es)])"
proof -
  have "stream_of s k = Some es \<Longrightarrow> stream_ok k es" for es
    using log_ok_stream [OF runtime_ok_log [OF assms]] .
  then show ?thesis using intake.events_route [OF assms, of k a] by (auto simp: stream_ok_def)
qed

text \<open>
  C16 Every API request is a history of store calls: whatever the endpoints answer, the runtime
  they leave is reachable by calls of the stores, so everything proved of histories holds of it.
\<close>

theorem api_requests_are_histories:
  assumes "run_of s new_id = None"
  shows "later s (snd (create_agent_run in_memory_service t1 t2 new_id body s)) \<and>
         later s (snd (get_agent_run in_memory_service k s)) \<and>
         later s (snd (cancel_agent_run in_memory_service now k s)) \<and>
         later s (snd (get_agent_run_events in_memory_service k a s))"
proof (intro conjI)
  have handlers: "effect_in later (not_found_handler e)" "effect_in later (events_handler e)" for e
    by (cases e; simp add: calls.effect_ret calls.effect_throw)+
  note intros = calls.effect_intros handlers service_cancel_later later_reads
  show "later s (snd (create_agent_run in_memory_service t1 t2 new_id body s))"
    unfolding create_agent_run_def
    by (rule calls.effect_bindM_at) (auto intro!: calls.effect_intros service_create_later assms)
  have "effect_in later (get_agent_run in_memory_service k)"
    unfolding get_agent_run_def service_get_run_def by (auto intro!: intros)
  then show "later s (snd (get_agent_run in_memory_service k s))" by (simp add: effect_in_def)
  have "effect_in later (cancel_agent_run in_memory_service now k)"
    unfolding cancel_agent_run_def by (auto intro!: intros)
  then show "later s (snd (cancel_agent_run in_memory_service now k s))" by (simp add: effect_in_def)
  have "effect_in later (get_agent_run_events in_memory_service k a)"
    unfolding get_agent_run_events_def service_get_run_def service_get_events_def
    by (auto intro!: intros)
  then show "later s (snd (get_agent_run_events in_memory_service k a s))"
    by (simp add: effect_in_def)
qed

theorem api_requests_are_histories_witness:
  "reachable (snd (create_agent_run in_memory_service 6 7 ''r3''
                     \<lparr> ap_prompt = ''hello'', ap_history = [] \<rparr> example_runtime))"
proof -
  have "run_of example_runtime ''r3'' = None" by (simp add: example_runs)
  from api_requests_are_histories [OF this] show ?thesis
    using reachable_later [OF example_reachable] by blast
qed

end
