(* ===== verification/Worker.thy ===== *)
theory Worker
  imports Orchestrator
begin

text \<open>
  The worker (\<open>agent_run_worker\<close>): the execution context that a run is executed in, the two
  executors as coroutines that are resumed after every await, the heartbeat of the lease scope,
  and the consumer's handling of an executed run, over the protocol \<open>RunProcessingStore\<close>. The
  contract that the worker relies on is a locale; the in-memory store is an instance of it.
\<close>

section \<open>Execution context\<close>

record RunExecutionContext =
  ctx_run_id :: uuid
  ctx_cancellation_event :: bool

definition new_execution_context :: "uuid \<Rightarrow> RunExecutionContext" where
  "new_execution_context run_id = \<lparr> ctx_run_id = run_id, ctx_cancellation_event = False \<rparr>"

definition ctx_cancel :: "RunExecutionContext \<Rightarrow> RunExecutionContext" where
  "ctx_cancel ctx = ctx\<lparr> ctx_cancellation_event := True \<rparr>"

definition ctx_is_cancelled :: "RunExecutionContext \<Rightarrow> bool" where
  "ctx_is_cancelled ctx = ctx_cancellation_event ctx"

definition ctx_emit_event ::
    "unix_ts \<Rightarrow> RunExecutionContext \<Rightarrow> string \<Rightarrow> pydict \<Rightarrow> (runtime, RunEvent) prog" where
  "ctx_emit_event now ctx event_type payload = emit_event now (ctx_run_id ctx) event_type payload"

lemma ctx_simps [simp]:
  "ctx_is_cancelled (ctx_cancel c)" "ctx_run_id (ctx_cancel c) = ctx_run_id c"
  "\<not> ctx_is_cancelled (new_execution_context k)" "ctx_run_id (new_execution_context k) = k"
  by (simp_all add: ctx_is_cancelled_def ctx_cancel_def new_execution_context_def)

section \<open>Executors\<close>

text \<open>
  An executor is a coroutine: resumed with what \<open>is_cancelled()\<close> answers now, it runs to its
  next await, emitting events on the way, and suspends there, returns, or raises.
\<close>

datatype 'x executor_action = Suspend 'x | Finished | Raised exn

record 'x AgentRunExecutor =
  ex_start :: 'x
  ex_resume :: "'x \<Rightarrow> bool \<Rightarrow> (string \<times> pydict) list \<times> 'x executor_action"

text \<open>
  \<open>RandomSleepRunExecutor\<close>: the state is the loop variable, and each of the five steps is one
  sleep. \<open>DummyRunExecutor\<close>: one checkpoint, one sleep.
\<close>

definition RandomSleepRunExecutor :: "nat AgentRunExecutor" where
  "RandomSleepRunExecutor =
     \<lparr> ex_start = 0,
       ex_resume = (\<lambda>i is_cancelled.
         if i < 5 then (if is_cancelled then ([], Finished) else ([], Suspend (Suc i)))
         else ([], Finished)) \<rparr>"

definition DummyRunExecutor :: "bool AgentRunExecutor" where
  "DummyRunExecutor =
     \<lparr> ex_start = False,
       ex_resume = (\<lambda>slept is_cancelled.
         if slept then ([], Finished)
         else if is_cancelled then ([], Finished)
         else ([], Suspend True)) \<rparr>"

text \<open>Resuming an executor repeatedly, with the answers \<open>is_cancelled()\<close> gives at each resumption.\<close>

fun run_executor :: "'x AgentRunExecutor \<Rightarrow> 'x \<Rightarrow> bool list \<Rightarrow> 'x executor_action" where
  "run_executor ex x [] = Suspend x"
| "run_executor ex x (c # cs) =
     (case snd (ex_resume ex x c) of Suspend y \<Rightarrow> run_executor ex y cs | act \<Rightarrow> act)"

lemma random_sleep_resume:
  "ex_resume RandomSleepRunExecutor i c =
     ([], if i < 5 \<and> \<not> c then Suspend (Suc i) else Finished)"
  by (simp add: RandomSleepRunExecutor_def)

lemma random_sleep_finishes:
  "i \<le> 5 \<Longrightarrow> 5 - i < length cs \<Longrightarrow> run_executor RandomSleepRunExecutor i cs = Finished"
proof (induction cs arbitrary: i)
  case (Cons c cs)
  then show ?case by (cases "i < 5 \<and> \<not> c") (auto simp: random_sleep_resume)
qed simp

section \<open>The protocol of the processing store\<close>

record 's RunProcessingStore =
  ps_claim_run :: "unix_ts \<Rightarrow> string \<Rightarrow> ('s, ClaimedRun option) prog"
  ps_set_succeeded :: "unix_ts \<Rightarrow> uuid \<Rightarrow> pydict \<Rightarrow> ('s, unit) prog"
  ps_set_failed :: "unix_ts \<Rightarrow> uuid \<Rightarrow> string \<Rightarrow> ('s, unit) prog"
  ps_set_cancelled :: "unix_ts \<Rightarrow> uuid \<Rightarrow> ('s, unit) prog"
  ps_heartbeat :: "unix_ts \<Rightarrow> uuid \<Rightarrow> string \<Rightarrow> ('s, RunStatus) prog"
  ps_get_status :: "uuid \<Rightarrow> ('s, RunStatus) prog"

section \<open>One heartbeat\<close>

text \<open>
  The body of \<open>RunLeaseScope.heartbeat_loop\<close> after its sleep: what the loop does next, and
  whether it signalled the execution context to cancel.
\<close>

datatype beat_outcome = KeepBeating | LeaseLost | CancelDetected

definition heartbeat_once ::
    "'s RunProcessingStore \<Rightarrow> unix_ts \<Rightarrow> string \<Rightarrow> uuid \<Rightarrow> ('s, beat_outcome) prog" where
  "heartbeat_once store now worker_id run_id =
     try_except
       (bindM (ps_heartbeat store now run_id worker_id) (\<lambda>heartbeat_run_status.
        if rs_cancel_requested heartbeat_run_status then ret CancelDetected
        else ret KeepBeating))
       (\<lambda>exc. case exc of
          RunLeaseLostError m \<Rightarrow> ret LeaseLost
        | _ \<Rightarrow> ret KeepBeating)"

section \<open>After the executor\<close>

text \<open>
  \<open>execute_run\<close> from the point where the executor has returned or raised: \<open>is_cancelled\<close> is
  what the execution context answers then.
\<close>

definition conclude_run ::
    "'s RunProcessingStore \<Rightarrow> unix_ts \<Rightarrow> uuid \<Rightarrow> bool \<Rightarrow> exn + unit \<Rightarrow> ('s, unit) prog" where
  "conclude_run store now run_id is_cancelled executed =
     try_except
       (bindM (liftE executed) (\<lambda>_.
        if is_cancelled then ps_set_cancelled store now run_id
        else
          bindM (ps_get_status store run_id) (\<lambda>run_status.
          if rs_cancel_requested run_status then ps_set_cancelled store now run_id
          else ps_set_succeeded store now run_id [(''ok'', PBool True)])))
       (\<lambda>exc. ps_set_failed store now run_id (exn_text exc))"

text \<open>What the run ends as, when the executor returned and when it raised.\<close>

definition run_outcome :: "bool \<Rightarrow> exn + unit \<Rightarrow> RunStatus \<Rightarrow> RunStatus" where
  "run_outcome is_cancelled executed rs =
     (case executed of
        Inl e \<Rightarrow> rs\<lparr> rs_status := FAILED, rs_error := Some (exn_text e) \<rparr>
      | Inr _ \<Rightarrow>
          if is_cancelled \<or> rs_cancel_requested rs then rs\<lparr> rs_status := CANCELLED \<rparr>
          else rs\<lparr> rs_status := SUCCEEDED, rs_result := Some [(''ok'', PBool True)] \<rparr>)"

section \<open>The contract the worker relies on\<close>

locale processing_contract =
  fixes store :: "'s RunProcessingStore"
    and view :: "'s \<Rightarrow> uuid \<Rightarrow> RunStatus option"
    and ok :: "'s \<Rightarrow> bool"
  assumes status_law: "ok s \<Longrightarrow> view s k = Some rs \<Longrightarrow> ps_get_status store k s = (Inr rs, s)"
    and succeed_law: "ok s \<Longrightarrow> view s k = Some rs \<Longrightarrow> rs_status rs = RUNNING \<Longrightarrow>
        \<exists>t. ps_set_succeeded store now k d s = (Inr (), t) \<and> ok t \<and>
            view t = (view s)(k \<mapsto> rs\<lparr> rs_status := SUCCEEDED, rs_result := Some d \<rparr>)"
    and succeed_refused: "ok s \<Longrightarrow> view s k = Some rs \<Longrightarrow> rs_status rs \<noteq> RUNNING \<Longrightarrow>
        \<exists>m. ps_set_succeeded store now k d s = (Inl (ValueError m), s)"
    and fail_law: "ok s \<Longrightarrow> view s k = Some rs \<Longrightarrow> rs_status rs = RUNNING \<Longrightarrow>
        \<exists>t. ps_set_failed store now k e s = (Inr (), t) \<and> ok t \<and>
            view t = (view s)(k \<mapsto> rs\<lparr> rs_status := FAILED, rs_error := Some e \<rparr>)"
    and fail_refused: "ok s \<Longrightarrow> view s k = Some rs \<Longrightarrow> rs_status rs \<noteq> RUNNING \<Longrightarrow>
        ps_set_failed store now k e s = (Inl (invalid_transition (rs_status rs) FAILED), s)"
    and cancel_law: "ok s \<Longrightarrow> view s k = Some rs \<Longrightarrow> rs_status rs \<in> {CREATED, ENQUEUED, RUNNING} \<Longrightarrow>
        \<exists>t. ps_set_cancelled store now k s = (Inr (), t) \<and> ok t \<and>
            view t = (view s)(k \<mapsto> rs\<lparr> rs_status := CANCELLED \<rparr>)"
    and cancel_refused: "ok s \<Longrightarrow> view s k = Some rs \<Longrightarrow> rs_status rs \<notin> {CREATED, ENQUEUED, RUNNING} \<Longrightarrow>
        \<exists>m. ps_set_cancelled store now k s = (Inl (ValueError m), s)"
    and beat_idle: "ok s \<Longrightarrow> view s k = Some rs \<Longrightarrow> rs_status rs \<noteq> RUNNING \<Longrightarrow>
        ps_heartbeat store now k w s = (Inr rs, s)"
    and beat_owner: "ok s \<Longrightarrow> view s k = Some rs \<Longrightarrow> rs_status rs = RUNNING \<Longrightarrow>
        rs_claimed_worker rs = Some w \<Longrightarrow>
        \<exists>t rs'. ps_heartbeat store now k w s = (Inr rs', t) \<and> ok t \<and> view t = (view s)(k \<mapsto> rs') \<and>
            rs' = rs\<lparr> rs_claim_expiration := Some (get_new_expiration_ts now) \<rparr>"
    and beat_stranger: "ok s \<Longrightarrow> view s k = Some rs \<Longrightarrow> rs_status rs = RUNNING \<Longrightarrow>
        rs_claimed_worker rs \<noteq> Some w \<Longrightarrow>
        \<exists>t m. ps_heartbeat store now k w s = (Inl (RunLeaseLostError m), t) \<and> ok t \<and> view t = view s"
begin

lemma conclude_running:
  assumes "ok s" and "view s k = Some rs" and "rs_status rs = RUNNING"
  shows "\<exists>t. conclude_run store now k c ex s = (Inr (), t) \<and> ok t \<and>
             view t = (view s)(k \<mapsto> run_outcome c ex rs)"
proof (cases ex)
  case (Inl e)
  obtain t where "ps_set_failed store now k (exn_text e) s = (Inr (), t)" "ok t"
      "view t = (view s)(k \<mapsto> rs\<lparr> rs_status := FAILED, rs_error := Some (exn_text e) \<rparr>)"
    using fail_law [OF assms, of now "exn_text e"] by blast
  then show ?thesis
    using Inl by (simp add: conclude_run_def liftE_def bindM_def try_except_def run_outcome_def)
next
  case (Inr u)
  show ?thesis
  proof (cases "c \<or> rs_cancel_requested rs")
    case True
    obtain t where "ps_set_cancelled store now k s = (Inr (), t)" "ok t"
        "view t = (view s)(k \<mapsto> rs\<lparr> rs_status := CANCELLED \<rparr>)"
      using cancel_law [OF assms(1,2), of now] assms(3) by auto
    then show ?thesis
      using Inr True status_law [OF assms(1,2)]
      by (auto simp: conclude_run_def liftE_def bindM_def try_except_def run_outcome_def)
  next
    case False
    obtain t where "ps_set_succeeded store now k [(''ok'', PBool True)] s = (Inr (), t)" "ok t"
        "view t = (view s)(k \<mapsto> rs\<lparr> rs_status := SUCCEEDED, rs_result := Some [(''ok'', PBool True)] \<rparr>)"
      using succeed_law [OF assms, of now "[(''ok'', PBool True)]"] by blast
    then show ?thesis
      using Inr False status_law [OF assms(1,2)]
      by (auto simp: conclude_run_def liftE_def bindM_def try_except_def run_outcome_def)
  qed
qed

text \<open>
  A run that is no longer running: unless it can still be cancelled, its worker gets ValueError
  from the handler that should have recorded the failure.
\<close>

lemma conclude_refused:
  assumes "ok s" and "view s k = Some rs" and "rs_status rs \<noteq> RUNNING"
    and "\<not> (ex = Inr () \<and> (c \<or> rs_cancel_requested rs) \<and> rs_status rs \<in> {CREATED, ENQUEUED})"
  shows "conclude_run store now k c ex s = (Inl (invalid_transition (rs_status rs) FAILED), s)"
proof (cases ex)
  case (Inl e)
  then show ?thesis
    using fail_refused [OF assms(1-3), of now "exn_text e"] by (simp add: conclude_run_def liftE_def bindM_def try_except_def)
next
  case (Inr u)
  have failed: "ps_set_failed store now k e s = (Inl (invalid_transition (rs_status rs) FAILED), s)" for e
    using fail_refused [OF assms(1-3)] .
  show ?thesis
  proof (cases "c \<or> rs_cancel_requested rs")
    case True
    then have "rs_status rs \<notin> {CREATED, ENQUEUED, RUNNING}" using assms(3,4) Inr by auto
    then obtain m where "ps_set_cancelled store now k s = (Inl (ValueError m), s)"
      using cancel_refused [OF assms(1,2)] by blast
    then show ?thesis
      using Inr True failed [of m] status_law [OF assms(1,2)]
      by (auto simp: conclude_run_def liftE_def bindM_def try_except_def)
  next
    case False
    obtain m where "ps_set_succeeded store now k [(''ok'', PBool True)] s = (Inl (ValueError m), s)"
      using succeed_refused [OF assms(1-3)] by blast
    then show ?thesis
      using Inr False failed [of m] status_law [OF assms(1,2)]
      by (auto simp: conclude_run_def liftE_def bindM_def try_except_def)
  qed
qed

lemma heartbeat_once_cases:
  assumes "ok s" and "view s k = Some rs"
  shows "\<exists>t. ok t \<and> heartbeat_once store now w k s =
      (Inr (if rs_status rs = RUNNING \<and> rs_claimed_worker rs \<noteq> Some w then LeaseLost
            else if rs_cancel_requested rs then CancelDetected else KeepBeating), t) \<and>
    view t = (if rs_status rs = RUNNING \<and> rs_claimed_worker rs = Some w
              then (view s)(k \<mapsto> rs\<lparr> rs_claim_expiration := Some (get_new_expiration_ts now) \<rparr>)
              else view s)"
proof -
  consider "rs_status rs \<noteq> RUNNING" | "rs_status rs = RUNNING" "rs_claimed_worker rs = Some w"
    | "rs_status rs = RUNNING" "rs_claimed_worker rs \<noteq> Some w" by blast
  then show ?thesis
  proof cases
    case 1
    then show ?thesis using beat_idle [OF assms 1] assms
      by (auto simp: heartbeat_once_def bindM_def try_except_def ret_def)
  next
    case 2
    then show ?thesis using beat_owner [OF assms 2, of now] assms
      by (auto simp: heartbeat_once_def bindM_def try_except_def ret_def)
  next
    case 3
    then show ?thesis using beat_stranger [OF assms 3, of now] assms
      by (auto simp: heartbeat_once_def bindM_def try_except_def ret_def)
  qed
qed

text \<open>A heartbeat never raises, so the loop it runs in ends only by its own decision.\<close>

lemma heartbeat_once_returns: "\<exists>r t. heartbeat_once store now w k s = (Inr r, t)"
  by (auto simp: heartbeat_once_def try_except_def bindM_def ret_def
      split: prod.splits sum.splits exn.splits)

end

section \<open>The in-memory instance\<close>

definition in_memory_processing :: "runtime RunProcessingStore" where
  "in_memory_processing =
     \<lparr> ps_claim_run = claim_run default_policy,
       ps_set_succeeded = set_succeeded default_policy,
       ps_set_failed = set_failed default_policy,
       ps_set_cancelled = set_cancelled default_policy,
       ps_heartbeat = heartbeat,
       ps_get_status = processing_get_status \<rparr>"

lemma in_memory_processing_sel [simp]:
  "ps_claim_run in_memory_processing = claim_run default_policy"
  "ps_set_succeeded in_memory_processing = set_succeeded default_policy"
  "ps_set_failed in_memory_processing = set_failed default_policy"
  "ps_set_cancelled in_memory_processing = set_cancelled default_policy"
  "ps_heartbeat in_memory_processing = heartbeat"
  "ps_get_status in_memory_processing = processing_get_status"
  by (simp_all add: in_memory_processing_def)

lemma run_ok_completions:
  "run_ok k rs \<Longrightarrow> run_ok k (rs\<lparr> rs_status := SUCCEEDED, rs_result := a \<rparr>)"
  "run_ok k rs \<Longrightarrow> run_ok k (rs\<lparr> rs_status := FAILED, rs_error := b \<rparr>)"
  "run_ok k rs \<Longrightarrow> run_ok k (rs\<lparr> rs_status := CANCELLED \<rparr>)"
  "run_ok k rs \<Longrightarrow> run_ok k (rs\<lparr> rs_claim_expiration := Some t \<rparr>)"
  by (simp_all add: run_ok_def)

interpretation processing: processing_contract in_memory_processing "\<lambda>s. run_of s" runtime_ok
proof unfold_locales
  fix s k rs now and w :: string
  assume a: "runtime_ok s" "run_of s k = Some rs"
  note ok = runtime_ok_run [OF a] runtime_ok_commit [OF a]
  have same: "(run_of s)(k \<mapsto> rs) = run_of s" using a(2) by auto
  show "ps_get_status in_memory_processing k s = (Inr rs, s)"
    using a(2) by (simp add: processing_get_status_def lookup_simps)
  show "\<exists>t. ps_set_succeeded in_memory_processing now k d s = (Inr (), t) \<and> runtime_ok t \<and>
            run_of t = (run_of s)(k \<mapsto> rs\<lparr> rs_status := SUCCEEDED, rs_result := Some d \<rparr>)"
    if "rs_status rs = RUNNING" for d
    using a that ok
    by (simp add: set_succeeded_cases run_of_commit run_ok_completions del: commit_run)
  show "\<exists>m. ps_set_succeeded in_memory_processing now k d s = (Inl (ValueError m), s)"
    if "rs_status rs \<noteq> RUNNING" for d
    using a that by (simp add: set_succeeded_cases invalid_transition_def)
  show "\<exists>t. ps_set_failed in_memory_processing now k e s = (Inr (), t) \<and> runtime_ok t \<and>
            run_of t = (run_of s)(k \<mapsto> rs\<lparr> rs_status := FAILED, rs_error := Some e \<rparr>)"
    if "rs_status rs = RUNNING" for e
    using a that ok by (simp add: set_failed_cases run_of_commit run_ok_completions del: commit_run)
  show "ps_set_failed in_memory_processing now k e s = (Inl (invalid_transition (rs_status rs) FAILED), s)"
    if "rs_status rs \<noteq> RUNNING" for e
    using a that by (simp add: set_failed_cases)
  show "\<exists>t. ps_set_cancelled in_memory_processing now k s = (Inr (), t) \<and> runtime_ok t \<and>
            run_of t = (run_of s)(k \<mapsto> rs\<lparr> rs_status := CANCELLED \<rparr>)"
    if "rs_status rs \<in> {CREATED, ENQUEUED, RUNNING}"
    using a that ok
    by (simp add: set_cancelled_cases run_of_commit run_ok_completions del: commit_run insert_iff)
  show "\<exists>m. ps_set_cancelled in_memory_processing now k s = (Inl (ValueError m), s)"
    if "rs_status rs \<notin> {CREATED, ENQUEUED, RUNNING}"
    using a that by (simp add: set_cancelled_cases invalid_transition_def)
  show "ps_heartbeat in_memory_processing now k w s = (Inr rs, s)" if "rs_status rs \<noteq> RUNNING"
    using a that by (simp add: heartbeat_cases)
  show "\<exists>t rs'. ps_heartbeat in_memory_processing now k w s = (Inr rs', t) \<and> runtime_ok t \<and>
            run_of t = (run_of s)(k \<mapsto> rs') \<and>
            rs' = rs\<lparr> rs_claim_expiration := Some (get_new_expiration_ts now) \<rparr>"
    if "rs_status rs = RUNNING" "rs_claimed_worker rs = Some w"
    using a that ok by (simp add: heartbeat_cases run_of_commit run_ok_completions del: commit_run)
  show "\<exists>t m. ps_heartbeat in_memory_processing now k w s = (Inl (RunLeaseLostError m), t) \<and>
            runtime_ok t \<and> run_of t = run_of s"
    if "rs_status rs = RUNNING" "rs_claimed_worker rs \<noteq> Some w"
    using a that ok same by (simp add: heartbeat_cases run_of_commit del: commit_run)
qed

end
