(* ===== verification/WorkerSystem.thy ===== *)
theory WorkerSystem
  imports Worker StoreProperties
begin

text \<open>
  A worker at work on the in-memory runtime, next to everybody else: the consumer's loop
  (\<open>agent_run_worker/in_memory/consumer.py\<close>) with the lease scope's heartbeat task
  (\<open>run_lease.py\<close>) as a state machine. Between two awaits that can suspend (the signal queue's
  wait, an executor's await, the heartbeat's sleep, the end of the lease scope) a task runs
  atomically; an event says which task is resumed. All other parties (the API, other workers)
  are arbitrary store calls in between.
\<close>

section \<open>State\<close>

text \<open>
  Where the consumer's task is suspended. \<open>_current_run_execution_ctx\<close> is the context of the
  \<open>Executing\<close> phase and \<open>None\<close> in every other phase. \<open>LeavingScope\<close> is the await in
  \<open>__aexit__\<close>, with the exception on its way out, if any.
\<close>

datatype 'x phase =
    AtWait
  | Executing RunExecutionContext 'x
  | LeavingScope "exn option"
  | Stopped
  | Crashed exn

record 'x worker_system =
  sys_rt :: runtime
  wk_worker_id :: string
  wk_execution_allowed :: bool
  wk_phase :: "'x phase"
  wk_beating :: bool

definition loop_head :: "'x worker_system \<Rightarrow> 'x worker_system" where
  "loop_head w = w\<lparr> wk_phase := (if wk_execution_allowed w then AtWait else Stopped) \<rparr>"

definition start_worker :: "string \<Rightarrow> runtime \<Rightarrow> 'x worker_system" where
  "start_worker worker_id s =
     loop_head \<lparr> sys_rt = s, wk_worker_id = worker_id, wk_execution_allowed = True,
                 wk_phase = AtWait, wk_beating = False \<rparr>"

section \<open>Handlers\<close>

text \<open>
  The end of \<open>execute_run\<close> and the start of \<open>__aexit__\<close>: the run is concluded in the store, the
  context is dropped and the heartbeat task is told to stop.
\<close>

definition conclude ::
    "unix_ts \<Rightarrow> RunExecutionContext \<Rightarrow> exn + unit \<Rightarrow> 'x worker_system \<Rightarrow> 'x worker_system" where
  "conclude now ctx executed w =
     (case conclude_run in_memory_processing now (ctx_run_id ctx) (ctx_is_cancelled ctx) executed
             (sys_rt w) of
        (r, t) \<Rightarrow>
          w\<lparr> sys_rt := t, wk_beating := False,
             wk_phase := LeavingScope (case r of Inl e \<Rightarrow> Some e | Inr _ \<Rightarrow> None) \<rparr>)"

fun emit_all ::
    "unix_ts \<Rightarrow> RunExecutionContext \<Rightarrow> (string \<times> pydict) list \<Rightarrow> (runtime, unit) prog" where
  "emit_all now ctx [] = ret ()"
| "emit_all now ctx ((ty, pl) # evs) =
     bindM (ctx_emit_event now ctx ty pl) (\<lambda>_. emit_all now ctx evs)"

definition run_segment ::
    "'x AgentRunExecutor \<Rightarrow> unix_ts \<Rightarrow> RunExecutionContext \<Rightarrow> 'x \<Rightarrow> 'x worker_system \<Rightarrow>
     'x worker_system" where
  "run_segment ex now ctx x w =
     (case ex_resume ex x (ctx_is_cancelled ctx) of (evs, act) \<Rightarrow>
        (case emit_all now ctx evs (sys_rt w) of
           (Inl e, t) \<Rightarrow> conclude now ctx (Inl e) (w\<lparr> sys_rt := t \<rparr>)
         | (Inr _, t) \<Rightarrow>
             (case act of
                Suspend y \<Rightarrow> w\<lparr> sys_rt := t, wk_phase := Executing ctx y \<rparr>
              | Finished \<Rightarrow> conclude now ctx (Inr ()) (w\<lparr> sys_rt := t \<rparr>)
              | Raised e \<Rightarrow> conclude now ctx (Inl e) (w\<lparr> sys_rt := t \<rparr>))))"

text \<open>
  One turn of \<open>consume_and_execute_loop\<close> from the return of the wait. A claim that raises is
  logged and counts as no claim. With shutdown requested during the wait, a claimed run is left
  as it is.
\<close>

definition on_wake :: "'x AgentRunExecutor \<Rightarrow> unix_ts \<Rightarrow> 'x worker_system \<Rightarrow> 'x worker_system" where
  "on_wake ex now w =
     (let s = snd (wait_signal None None (sys_rt w)) in
      case ps_claim_run in_memory_processing now (wk_worker_id w) s of
        (Inl e, t) \<Rightarrow> loop_head (w\<lparr> sys_rt := t \<rparr>)
      | (Inr None, t) \<Rightarrow> loop_head (w\<lparr> sys_rt := t \<rparr>)
      | (Inr (Some claimed_run), t) \<Rightarrow>
          if \<not> wk_execution_allowed w then w\<lparr> sys_rt := t, wk_phase := Stopped \<rparr>
          else run_segment ex now (new_execution_context (cl_id claimed_run)) (ex_start ex)
                 (w\<lparr> sys_rt := t, wk_beating := True \<rparr>))"

definition on_resume :: "'x AgentRunExecutor \<Rightarrow> unix_ts \<Rightarrow> 'x worker_system \<Rightarrow> 'x worker_system option" where
  "on_resume ex now w =
     (case wk_phase w of Executing ctx x \<Rightarrow> Some (run_segment ex now ctx x w) | _ \<Rightarrow> None)"

definition on_beat :: "unix_ts \<Rightarrow> 'x worker_system \<Rightarrow> 'x worker_system option" where
  "on_beat now w =
     (case wk_phase w of
        Executing ctx x \<Rightarrow>
          if \<not> wk_beating w then None
          else Some
            (case heartbeat_once in_memory_processing now (wk_worker_id w) (ctx_run_id ctx) (sys_rt w) of
               (Inr KeepBeating, t) \<Rightarrow> w\<lparr> sys_rt := t \<rparr>
             | (Inr CancelDetected, t) \<Rightarrow>
                 w\<lparr> sys_rt := t, wk_beating := False, wk_phase := Executing (ctx_cancel ctx) x \<rparr>
             | (_, t) \<Rightarrow> w\<lparr> sys_rt := t, wk_beating := False \<rparr>)
      | _ \<Rightarrow> None)"

definition on_leave :: "'x worker_system \<Rightarrow> 'x worker_system option" where
  "on_leave w =
     (case wk_phase w of
        LeavingScope None \<Rightarrow> Some (loop_head w)
      | LeavingScope (Some e) \<Rightarrow> Some (w\<lparr> wk_phase := Crashed e \<rparr>)
      | _ \<Rightarrow> None)"

definition shutdown_execution :: "'x worker_system \<Rightarrow> 'x worker_system" where
  "shutdown_execution w =
     w\<lparr> wk_execution_allowed := False,
        wk_phase := (case wk_phase w of Executing ctx x \<Rightarrow> Executing (ctx_cancel ctx) x | p \<Rightarrow> p),
        sys_rt := snd (notify_signal (sys_rt w)) \<rparr>"

section \<open>Events and histories\<close>

datatype worker_event =
    Wake unix_ts
  | Resume unix_ts
  | Beat unix_ts
  | LeaveScope
  | Shutdown
  | Other store_call

fun react :: "'x AgentRunExecutor \<Rightarrow> worker_event \<Rightarrow> 'x worker_system \<Rightarrow> 'x worker_system option" where
  "react ex (Wake now) w = (case wk_phase w of AtWait \<Rightarrow> Some (on_wake ex now w) | _ \<Rightarrow> None)"
| "react ex (Resume now) w = on_resume ex now w"
| "react ex (Beat now) w = on_beat now w"
| "react ex LeaveScope w = on_leave w"
| "react ex Shutdown w = Some (shutdown_execution w)"
| "react ex (Other c) w =
     (if call_allowed (sys_rt w) c then Some (w\<lparr> sys_rt := after_call c (sys_rt w) \<rparr>) else None)"

fun run_events :: "'x AgentRunExecutor \<Rightarrow> worker_event list \<Rightarrow> 'x worker_system \<Rightarrow> 'x worker_system option" where
  "run_events ex [] w = Some w"
| "run_events ex (e # es) w =
     (case react ex e w of None \<Rightarrow> None | Some w' \<Rightarrow> run_events ex es w')"

text \<open>An executor that emits only event types of its own.\<close>

definition honest :: "'x AgentRunExecutor \<Rightarrow> bool" where
  "honest ex \<longleftrightarrow> (\<forall>x c. \<forall>e \<in> set (fst (ex_resume ex x c)). fst e \<notin> lifecycle_types)"

lemma honest_executors: "honest RandomSleepRunExecutor" "honest DummyRunExecutor"
  by (auto simp: honest_def RandomSleepRunExecutor_def DummyRunExecutor_def split: if_splits)

section \<open>The worker only makes store calls\<close>

lemma later_emit:
  assumes "ty \<notin> lifecycle_types"
  shows "effect_in later (ctx_emit_event now ctx ty pl)"
  by (rule later_effect [of _ "CallEmitEvent now (ctx_run_id ctx) ty pl"])
     (use assms in \<open>simp_all add: ctx_emit_event_def\<close>)

lemma later_emit_all:
  "\<forall>e \<in> set evs. fst e \<notin> lifecycle_types \<Longrightarrow> effect_in later (emit_all now ctx evs)"
proof (induction evs)
  case Nil
  then show ?case by (simp add: calls.effect_ret)
next
  case (Cons e evs)
  obtain ty pl where "e = (ty, pl)" by (cases e)
  with Cons show ?case by (auto intro: calls.effect_bindM later_emit)
qed

lemma later_processing_ops:
  "effect_in later (claim_run default_policy now w)"
  "effect_in later (heartbeat now k w)"
  "effect_in later (set_failed default_policy now k e)"
  "effect_in later (set_succeeded default_policy now k d)"
  "effect_in later (set_cancelled default_policy now k)"
  by (rule later_effect [of _ "CallClaimRun now w"] later_effect [of _ "CallHeartbeat now k w"]
        later_effect [of _ "CallSetFailed now k e"] later_effect [of _ "CallSetSucceeded now k d"]
        later_effect [of _ "CallSetCancelled now k"]; simp)+

lemma later_processing_status: "effect_in later (processing_get_status k)"
  using later_reads(1) by (simp add: processing_get_status_def intake_get_status_def)

lemma later_conclude_run: "effect_in later (conclude_run in_memory_processing now k c ex)"
  unfolding conclude_run_def in_memory_processing_sel
  by (auto intro!: calls.effect_intros later_processing_ops later_processing_status)

lemma later_heartbeat_once: "effect_in later (heartbeat_once in_memory_processing now w k)"
  unfolding heartbeat_once_def in_memory_processing_sel
  by (auto intro!: calls.effect_intros later_processing_ops split: exn.split)

lemma conclude_rt: "sys_rt (conclude now ctx r w) =
    snd (conclude_run in_memory_processing now (ctx_run_id ctx) (ctx_is_cancelled ctx) r (sys_rt w))"
  by (simp add: conclude_def split: prod.split)

lemma later_conclude: "later (sys_rt w) (sys_rt (conclude now ctx r w))"
  using later_conclude_run by (simp add: conclude_rt effect_in_def)

lemma later_run_segment:
  assumes "honest ex"
  shows "later (sys_rt w) (sys_rt (run_segment ex now ctx x w))"
proof -
  obtain evs act where r: "ex_resume ex x (ctx_is_cancelled ctx) = (evs, act)" by fastforce
  then have "\<forall>e \<in> set evs. fst e \<notin> lifecycle_types" using assms by (metis fst_conv honest_def)
  then have emit: "effect_in later (emit_all now ctx evs)" by (rule later_emit_all)
  obtain q t where m: "emit_all now ctx evs (sys_rt w) = (q, t)" by fastforce
  have "later (sys_rt w) t" using emit m by (rule effect_inD)
  moreover have "later t (sys_rt (conclude now ctx u (w\<lparr> sys_rt := t \<rparr>)))" for u
    using later_conclude [of "w\<lparr> sys_rt := t \<rparr>"] by simp
  ultimately show ?thesis
    using r m by (cases q; cases act) (auto simp: run_segment_def intro: calls.R_trans)
qed

lemma later_wait: "later s (snd (wait_signal t n s))"
  using later.call [OF later.here, of s "CallWait t n"] by simp

lemma loop_head_rt [simp]: "sys_rt (loop_head w) = sys_rt w"
  by (simp add: loop_head_def)

lemma later_on_wake:
  assumes "honest ex"
  shows "later (sys_rt w) (sys_rt (on_wake ex now w))"
proof -
  let ?s = "snd (wait_signal None None (sys_rt w))"
  obtain r t where m: "claim_run default_policy now (wk_worker_id w) ?s = (r, t)" by fastforce
  have "later ?s t" using later_processing_ops(1) m by (rule effect_inD)
  then have t: "later (sys_rt w) t" using later_wait calls.R_trans by blast
  have seg: "later t (sys_rt (run_segment ex now c x (w\<lparr> sys_rt := t, wk_beating := True \<rparr>)))" for c x
    using later_run_segment [OF assms, of "w\<lparr> sys_rt := t, wk_beating := True \<rparr>"] by simp
  show ?thesis
    using m t seg calls.R_trans
    by (auto simp: on_wake_def Let_def split: sum.splits option.splits)
qed

lemma later_react:
  assumes "honest ex" and "react ex e w = Some w'"
  shows "later (sys_rt w) (sys_rt w')"
proof (cases e)
  case (Wake now)
  then show ?thesis using assms later_on_wake by (auto split: phase.splits)
next
  case (Resume now)
  then show ?thesis using assms later_run_segment by (auto simp: on_resume_def split: phase.splits)
next
  case (Beat now)
  have "later (sys_rt w) (snd (heartbeat_once in_memory_processing now (wk_worker_id w) k (sys_rt w)))" for k
    using later_heartbeat_once by (simp add: effect_in_def)
  then show ?thesis
    using Beat assms(2) by (auto simp: on_beat_def split: phase.splits if_splits prod.splits sum.splits beat_outcome.splits) (metis snd_conv)+
next
  case LeaveScope
  then show ?thesis using assms by (auto simp: on_leave_def later.here split: phase.splits option.splits)
next
  case Shutdown
  then show ?thesis
    using assms later.call [OF later.here, of "sys_rt w" CallNotify] by (auto simp: shutdown_execution_def)
next
  case (Other c)
  then show ?thesis
    using assms later.call [OF later.here, of "sys_rt w" c] by (auto split: if_splits)
qed

lemma later_run_events:
  assumes "honest ex"
  shows "run_events ex es w = Some w' \<Longrightarrow> later (sys_rt w) (sys_rt w')"
proof (induction es arbitrary: w)
  case Nil
  then show ?case by (simp add: later.here)
next
  case (Cons e es)
  then obtain u where "react ex e w = Some u" "run_events ex es u = Some w'"
    by (auto split: option.splits)
  then show ?case using Cons.IH later_react [OF assms] calls.R_trans by blast
qed

end
