(* ===== verification/WorkerProperties.thy ===== *)
theory WorkerProperties
  imports WorkerSystem
begin

text \<open>
  What the worker does: it is a client of the stores, it brings every run it executes undisturbed
  to the right end, it honours cancellation at the next checkpoint; and the three places where it
  departs from its documentation.
\<close>

section \<open>The random-sleep executor in the system\<close>

lemma random_sleep_segment:
  "run_segment RandomSleepRunExecutor now ctx i w =
     (if i < 5 \<and> \<not> ctx_is_cancelled ctx then w\<lparr> wk_phase := Executing ctx (Suc i) \<rparr>
      else conclude now ctx (Inr ()) w)"
  by (simp add: run_segment_def random_sleep_resume ret_def)

lemma conclude_running_run:
  assumes "runtime_ok (sys_rt w)" and "run_of (sys_rt w) (ctx_run_id ctx) = Some rs"
    and "rs_status rs = RUNNING"
  shows "\<exists>t. conclude now ctx ex w = w\<lparr> sys_rt := t, wk_beating := False, wk_phase := LeavingScope None \<rparr> \<and>
           runtime_ok t \<and> run_of t (ctx_run_id ctx) = Some (run_outcome (ctx_is_cancelled ctx) ex rs)"
  using processing.conclude_running [OF assms, of now "ctx_is_cancelled ctx" ex]
  by (auto simp: conclude_def)

lemma conclude_lost_run:
  assumes "runtime_ok (sys_rt w)" and "run_of (sys_rt w) (ctx_run_id ctx) = Some rs"
    and "rs_status rs \<noteq> RUNNING"
    and "\<not> (ex = Inr () \<and> (ctx_is_cancelled ctx \<or> rs_cancel_requested rs) \<and>
            rs_status rs \<in> {CREATED, ENQUEUED})"
  shows "conclude now ctx ex w =
           w\<lparr> wk_beating := False, wk_phase := LeavingScope (Some (invalid_transition (rs_status rs) FAILED)) \<rparr>"
  using processing.conclude_refused [OF assms(1-4), of now]
  by (auto simp: conclude_def)

lemma emit_all_runs: "rt_runs (snd (emit_all now ctx evs s)) = rt_runs s"
proof (induction evs arbitrary: s)
  case (Cons e evs)
  obtain ty pl where e: "e = (ty, pl)" by (cases e)
  obtain r u where u: "ctx_emit_event now ctx ty pl s = (r, u)" by fastforce
  then have "rt_runs u = rt_runs s"
    by (auto simp: ctx_emit_event_def emit_event_def with_log_def split: prod.splits)
  then show ?case using Cons.IH [of u] by (cases r) (simp_all add: e u bindM_def)
qed (simp add: ret_def)

lemma runtime_ok_later: "later s t \<Longrightarrow> runtime_ok s \<Longrightarrow> runtime_ok t"
  using later_invariant [of s t "\<lambda>_. True"] by simp

section \<open>An undisturbed execution\<close>

text \<open>
  The events of an execution that nobody else completes: the worker's own resumptions and
  heartbeats, and calls of others during the lease that spare the run.
\<close>

fun undisturbed ::
    "'x AgentRunExecutor \<Rightarrow> uuid \<Rightarrow> worker_event list \<Rightarrow> 'x worker_system \<Rightarrow> bool" where
  "undisturbed ex k [] w = True"
| "undisturbed ex k (e # es) w =
     ((case e of
         Resume now \<Rightarrow> True
       | Beat now \<Rightarrow> True
       | Other c \<Rightarrow> spares k c \<and> lease_live (call_time c) k (sys_rt w)
       | _ \<Rightarrow> False) \<and>
      (case react ex e w of None \<Rightarrow> True | Some w' \<Rightarrow> undisturbed ex k es w'))"

definition is_resume :: "worker_event \<Rightarrow> bool" where
  "is_resume e = (case e of Resume now \<Rightarrow> True | _ \<Rightarrow> False)"

definition resumes :: "worker_event list \<Rightarrow> nat" where
  "resumes es = length (filter is_resume es)"

lemma resumes_simps [simp]:
  "resumes [] = 0" "resumes (Resume now # es) = Suc (resumes es)"
  "resumes (Beat now # es) = resumes es" "resumes (Other c # es) = resumes es"
  by (simp_all add: resumes_def is_resume_def)

text \<open>
  Executing: the worker owns the running run, and its context is cancelled only if the store
  knows of a request. Concluded: the run has its end, which is cancellation exactly when one was
  requested.
\<close>

definition executing_run :: "uuid \<Rightarrow> nat \<Rightarrow> nat worker_system \<Rightarrow> bool" where
  "executing_run k i w \<longleftrightarrow>
     runtime_ok (sys_rt w) \<and>
     (\<exists>ctx rs. wk_phase w = Executing ctx i \<and> ctx_run_id ctx = k \<and> run_of (sys_rt w) k = Some rs \<and>
        rs_status rs = RUNNING \<and> rs_claimed_worker rs = Some (wk_worker_id w) \<and>
        (ctx_is_cancelled ctx \<longrightarrow> rs_cancel_requested rs))"

definition concluded_run :: "uuid \<Rightarrow> 'x worker_system \<Rightarrow> bool" where
  "concluded_run k w \<longleftrightarrow>
     runtime_ok (sys_rt w) \<and> wk_phase w = LeavingScope None \<and>
     (\<exists>rs. run_of (sys_rt w) k = Some rs \<and>
        rs_status rs = (if rs_cancel_requested rs then CANCELLED else SUCCEEDED))"

lemma conclude_executing:
  assumes "executing_run k i w" and "wk_phase w = Executing ctx i"
  shows "concluded_run k (conclude now ctx (Inr ()) w)"
proof -
  obtain rs where rs: "runtime_ok (sys_rt w)" "ctx_run_id ctx = k" "run_of (sys_rt w) k = Some rs"
      "rs_status rs = RUNNING" "ctx_is_cancelled ctx \<longrightarrow> rs_cancel_requested rs"
    using assms by (auto simp: executing_run_def)
  let ?fin = "run_outcome (ctx_is_cancelled ctx) (Inr ()) rs"
  have "rs_status ?fin = (if rs_cancel_requested ?fin then CANCELLED else SUCCEEDED)"
    using rs(5) by (simp add: run_outcome_def)
  then show ?thesis
    using conclude_running_run [of w ctx rs now "Inr ()"] rs(1-4)
    unfolding concluded_run_def by fastforce
qed

lemma resume_executing:
  assumes e: "executing_run k i w" and r: "react RandomSleepRunExecutor (Resume now) w = Some w'"
  shows "i < 5 \<and> executing_run k (Suc i) w' \<or> concluded_run k w'"
proof -
  obtain ctx where ph: "wk_phase w = Executing ctx i" using e by (auto simp: executing_run_def)
  show ?thesis
  proof (cases "i < 5 \<and> \<not> ctx_is_cancelled ctx")
    case True
    then have "w' = w\<lparr> wk_phase := Executing ctx (Suc i) \<rparr>"
      using r ph by (simp add: on_resume_def random_sleep_segment)
    then show ?thesis using e ph True by (simp add: executing_run_def)
  next
    case False
    then have "w' = conclude now ctx (Inr ()) w"
      using r ph by (auto simp: on_resume_def random_sleep_segment)
    then show ?thesis using conclude_executing [OF e ph] by simp
  qed
qed

lemma beat_executing:
  assumes e: "executing_run k i w" and r: "react ex (Beat now) w = Some w'"
  shows "executing_run k i w'"
proof -
  obtain ctx rs where ph: "wk_phase w = Executing ctx i" and ok: "runtime_ok (sys_rt w)"
    and rs: "ctx_run_id ctx = k" "run_of (sys_rt w) k = Some rs" "rs_status rs = RUNNING"
      "rs_claimed_worker rs = Some (wk_worker_id w)" "ctx_is_cancelled ctx \<longrightarrow> rs_cancel_requested rs"
    using e by (auto simp: executing_run_def)
  let ?rs = "rs\<lparr> rs_claim_expiration := Some (get_new_expiration_ts now) \<rparr>"
  obtain t where t: "runtime_ok t"
      "heartbeat_once in_memory_processing now (wk_worker_id w) k (sys_rt w) =
         (Inr (if rs_cancel_requested rs then CancelDetected else KeepBeating), t)"
      "run_of t = (run_of (sys_rt w))(k \<mapsto> ?rs)"
    using processing.heartbeat_once_cases [OF ok rs(2), of now "wk_worker_id w"] rs(3,4) by auto
  then show ?thesis
    using r ph rs by (auto simp: on_beat_def executing_run_def split: if_splits)
qed

lemma other_executing:
  assumes e: "executing_run k i w" and r: "react ex (Other c) w = Some w'"
    and "spares k c" and "lease_live (call_time c) k (sys_rt w)"
  shows "executing_run k i w'"
proof -
  obtain ctx rs where ph: "wk_phase w = Executing ctx i" and ok: "runtime_ok (sys_rt w)"
    and rs: "ctx_run_id ctx = k" "run_of (sys_rt w) k = Some rs" "rs_status rs = RUNNING"
      "rs_claimed_worker rs = Some (wk_worker_id w)" "ctx_is_cancelled ctx \<longrightarrow> rs_cancel_requested rs"
    using e by (auto simp: executing_run_def)
  have c: "call_allowed (sys_rt w) c" "w' = w\<lparr> sys_rt := after_call c (sys_rt w) \<rparr>"
    using r by (auto split: if_splits)
  have "runtime_ok (after_call c (sys_rt w))"
    using after_call_effect [OF c(1)] ok by (simp add: store_effect_def)
  then show ?thesis
    using call_in_lease [OF ok rs(2,3) c(1) assms(3,4)] c(2) ph rs
    by (auto simp: executing_run_def)
qed

lemma concluded_stays:
  assumes "concluded_run k w" and "undisturbed ex k es w" and "run_events ex es w = Some w'"
  shows "concluded_run k w' \<and> resumes es = 0"
  using assms
proof (induction es arbitrary: w)
  case (Cons e es)
  obtain u where u: "react ex e w = Some u" "run_events ex es u = Some w'"
    using Cons.prems(3) by (auto split: option.splits)
  have ph: "wk_phase w = LeavingScope None" using Cons.prems(1) by (simp add: concluded_run_def)
  from u(1) ph Cons.prems(2) obtain c where c: "e = Other c" "call_allowed (sys_rt w) c"
      "u = w\<lparr> sys_rt := after_call c (sys_rt w) \<rparr>"
    by (cases e) (auto simp: on_resume_def on_beat_def split: if_splits)
  obtain rs where rs: "runtime_ok (sys_rt w)" "run_of (sys_rt w) k = Some rs"
      "rs_status rs = (if rs_cancel_requested rs then CANCELLED else SUCCEEDED)"
    using Cons.prems(1) by (auto simp: concluded_run_def)
  have "later (sys_rt w) (after_call c (sys_rt w))" using c(2) by (rule later.call [OF later.here])
  then have "run_of (after_call c (sys_rt w)) k = Some rs"
    using later_run [OF _ rs(1,2), of _ "(=)"] life_step_terminal rs(3)
    by (metis terminal_simps(1,3))
  moreover have "runtime_ok (after_call c (sys_rt w))"
    using after_call_effect [OF c(2)] rs(1) by (simp add: store_effect_def)
  ultimately have "concluded_run k u" using c(3) ph rs(3) by (simp add: concluded_run_def)
  then show ?case using Cons.IH [OF _ _ u(2)] Cons.prems(2) u(1) c(1) by simp
qed simp

section \<open>Properties\<close>

text \<open>
  The worker is only a client of the stores: whatever the events, and whatever the executor
  does (as long as it does not forge the stores' own event types), the runtime a worker leaves is
  reached by store calls, so every property of histories holds while workers run.
\<close>

theorem workers_are_store_clients:
  assumes "honest ex" and "reachable s" and "run_events ex es (start_worker wid s) = Some w"
  shows "reachable (sys_rt w)"
proof -
  have "later s (sys_rt w)"
    using later_run_events [OF assms(1,3)] by (simp add: start_worker_def)
  then show ?thesis using assms(2) by (blast intro: reachable_later)
qed

definition busy_worker :: "nat worker_system" where
  "busy_worker = the (run_events RandomSleepRunExecutor [Wake 5] (start_worker ''wB'' example_runtime))"

lemma busy_worker:
  "run_events RandomSleepRunExecutor [Wake 5] (start_worker ''wB'' example_runtime) = Some busy_worker"
proof -
  have "run_events RandomSleepRunExecutor [Wake 5] (start_worker ''wB'' example_runtime) \<noteq> None"
    by (simp add: start_worker_def loop_head_def)
  then show ?thesis by (auto simp: busy_worker_def)
qed

lemma busy_worker_executing: "executing_run ''r2'' 1 busy_worker"
proof -
  have ok: "runtime_ok (sys_rt busy_worker)"
    using later_run_events [OF honest_executors(1) busy_worker] example_reachable
    by (auto intro: reachable_ok reachable_later simp: start_worker_def)
  have ph: "wk_phase busy_worker = Executing (new_execution_context ''r2'') 1" by code_simp
  have run: "map_option (\<lambda>rs. (rs_status rs, rs_claimed_worker rs)) (run_of (sys_rt busy_worker) ''r2'') =
      Some (RUNNING, Some ''wB'')" by code_simp
  have "wk_worker_id busy_worker = ''wB''" by code_simp
  then show ?thesis using ok ph run by (auto simp: executing_run_def)
qed

text \<open>
  C6 A worker brings its run to the right end: after claiming, through any interleaving of its
  resumptions and heartbeats with calls of others that come during its lease and do not complete
  the run, it is still executing and owns the run, or it has left the run succeeded - cancelled
  exactly when a cancellation was requested. Six resumptions always suffice.
\<close>

theorem worker_completes_its_run:
  assumes "executing_run k i w" and "i \<le> 5"
    and "undisturbed RandomSleepRunExecutor k es w"
    and "run_events RandomSleepRunExecutor es w = Some w'"
  shows "(i + resumes es \<le> 5 \<and> executing_run k (i + resumes es) w' \<or> concluded_run k w') \<and>
         i + resumes es \<le> 6 \<and> (i + resumes es = 6 \<longrightarrow> concluded_run k w')"
  using assms
proof (induction es arbitrary: i w)
  case (Cons e es)
  obtain u where u: "react RandomSleepRunExecutor e w = Some u"
      "run_events RandomSleepRunExecutor es u = Some w'"
    using Cons.prems(4) by (auto split: option.splits)
  have rest: "undisturbed RandomSleepRunExecutor k es u" using Cons.prems(3) u(1) by simp
  show ?case
  proof (cases e)
    case (Resume now)
    from resume_executing [OF Cons.prems(1) u(1) [unfolded Resume]]
    show ?thesis
      using Cons.IH [of "Suc i" u, OF _ _ rest u(2)] concluded_stays [OF _ rest u(2)] Resume Cons.prems(2)
      by auto
  next
    case (Beat now)
    from Cons.IH [OF beat_executing [OF Cons.prems(1) u(1) [unfolded Beat]] Cons.prems(2) rest u(2)]
    show ?thesis by (simp add: Beat)
  next
    case (Other c)
    then have "spares k c" "lease_live (call_time c) k (sys_rt w)" using Cons.prems(3) by auto
    from Cons.IH [OF other_executing [OF Cons.prems(1) u(1) [unfolded Other] this] Cons.prems(2) rest u(2)]
    show ?thesis by (simp add: Other)
  qed (use Cons.prems(3) in auto)
qed simp

theorem worker_completes_its_run_witness:
  "\<exists>w. run_events RandomSleepRunExecutor
         [Resume 7, Beat 10, Resume 12, Other (CallClaimRun 20 ''wA''), Resume 20, Resume 21, Resume 22]
         busy_worker = Some w \<and> concluded_run ''r2'' w"
proof -
  let ?es = "[Resume 7, Beat 10, Resume 12, Other (CallClaimRun 20 ''wA''), Resume 20, Resume 21, Resume 22]"
  have "run_events RandomSleepRunExecutor ?es busy_worker \<noteq> None" by code_simp
  then obtain w where w: "run_events RandomSleepRunExecutor ?es busy_worker = Some w" by blast
  have u: "undisturbed RandomSleepRunExecutor ''r2'' ?es busy_worker" by code_simp
  from worker_completes_its_run [OF busy_worker_executing _ u w] w show ?thesis by simp
qed

text \<open>
  C13 Cancellation is honoured at the next checkpoint: when a cancellation of the worker's run has
  been requested and a heartbeat has run since, the next resumption of the executor ends the run
  as cancelled, without another step, and the worker goes back to its loop.
\<close>

theorem cancellation_stops_at_checkpoint:
  assumes "executing_run k i w" and "wk_beating w"
    and "run_of (sys_rt w) k = Some rs" and "rs_cancel_requested rs"
  shows "\<exists>w'. run_events RandomSleepRunExecutor [Beat t1, Resume t2, LeaveScope] w = Some w' \<and>
           map_option rs_status (run_of (sys_rt w') k) = Some CANCELLED \<and>
           wk_phase w' = (if wk_execution_allowed w then AtWait else Stopped)"
proof -
  obtain ctx where ph: "wk_phase w = Executing ctx i" and ok: "runtime_ok (sys_rt w)"
    and rs: "ctx_run_id ctx = k" "rs_status rs = RUNNING" "rs_claimed_worker rs = Some (wk_worker_id w)"
    using assms(1,3) by (auto simp: executing_run_def)
  let ?rs = "rs\<lparr> rs_claim_expiration := Some (get_new_expiration_ts t1) \<rparr>"
  obtain t where t: "runtime_ok t"
      "heartbeat_once in_memory_processing t1 (wk_worker_id w) k (sys_rt w) = (Inr CancelDetected, t)"
      "run_of t = (run_of (sys_rt w))(k \<mapsto> ?rs)"
    using processing.heartbeat_once_cases [OF ok assms(3), of t1 "wk_worker_id w"] rs(2,3) assms(4) by auto
  let ?u = "w\<lparr> sys_rt := t, wk_beating := False, wk_phase := Executing (ctx_cancel ctx) i \<rparr>"
  have beat: "react RandomSleepRunExecutor (Beat t1) w = Some ?u"
    using ph assms(2) rs(1) t(2) by (simp add: on_beat_def)
  have run: "run_of (sys_rt ?u) (ctx_run_id (ctx_cancel ctx)) = Some ?rs" using t(3) rs(1) by simp
  obtain v where v: "conclude t2 (ctx_cancel ctx) (Inr ()) ?u =
        ?u\<lparr> sys_rt := v, wk_beating := False, wk_phase := LeavingScope None \<rparr>"
      "run_of v k = Some (run_outcome True (Inr ()) ?rs)"
    using conclude_running_run [OF _ run, of t2 "Inr ()"] t(1) rs(1,2) by auto
  have "react RandomSleepRunExecutor (Resume t2) ?u =
      Some (?u\<lparr> sys_rt := v, wk_beating := False, wk_phase := LeavingScope None \<rparr>)"
    by (simp add: on_resume_def random_sleep_segment v(1) [simplified])
  then show ?thesis
    using beat v(2) by (simp add: on_leave_def loop_head_def run_outcome_def)
qed

definition told_worker :: "nat worker_system" where
  "told_worker = the (run_events RandomSleepRunExecutor [Other (CallRequestCancellation 8 ''r2'')] busy_worker)"

theorem cancellation_stops_at_checkpoint_witness:
  "\<exists>w'. run_events RandomSleepRunExecutor [Beat 10, Resume 12, LeaveScope] told_worker = Some w' \<and>
        map_option rs_status (run_of (sys_rt w') ''r2'') = Some CANCELLED \<and> wk_phase w' = AtWait"
proof -
  have r: "react RandomSleepRunExecutor (Other (CallRequestCancellation 8 ''r2'')) busy_worker = Some told_worker"
    by (simp add: told_worker_def)
  have "lease_live 8 ''r2'' (sys_rt busy_worker)" by code_simp
  then have ex: "executing_run ''r2'' 1 told_worker"
    using other_executing [OF busy_worker_executing r] by simp
  have "wk_beating told_worker" "wk_execution_allowed told_worker" by code_simp+
  moreover have "map_option rs_cancel_requested (run_of (sys_rt told_worker) ''r2'') = Some True" by code_simp
  ultimately show ?thesis
    using cancellation_stops_at_checkpoint [OF ex, of _ 10 12] by auto
qed

text \<open>
  \<open>shutdown_execution\<close> on its own cancels the worker's run for good: after a shutdown during an
  execution, the next resumption of the executor records the run as CANCELLED, a terminal status that
  no lease recovery can undo, although nobody requested a cancellation; then the worker stops. (An
  infrastructure that cancels the task of the consumer at once, as \<open>local_dev\<close> does, does not let the
  executor be resumed.)
\<close>

theorem shutdown_cancels_the_run:
  assumes "executing_run k i w"
  shows "\<exists>w'. run_events RandomSleepRunExecutor [Shutdown, Resume t, LeaveScope] w = Some w' \<and>
           map_option rs_status (run_of (sys_rt w') k) = Some CANCELLED \<and> wk_phase w' = Stopped"
proof -
  obtain ctx rs where ph: "wk_phase w = Executing ctx i" and ok: "runtime_ok (sys_rt w)"
    and rs: "ctx_run_id ctx = k" "run_of (sys_rt w) k = Some rs" "rs_status rs = RUNNING"
    using assms by (auto simp: executing_run_def)
  let ?u = "shutdown_execution w"
  have u: "runtime_ok (sys_rt ?u)" "run_of (sys_rt ?u) (ctx_run_id (ctx_cancel ctx)) = Some rs"
      "wk_phase ?u = Executing (ctx_cancel ctx) i" "\<not> wk_execution_allowed ?u"
    using ok rs ph by (simp_all add: shutdown_execution_def notify_signal_def modify_def)
  obtain v where v: "conclude t (ctx_cancel ctx) (Inr ()) ?u =
        ?u\<lparr> sys_rt := v, wk_beating := False, wk_phase := LeavingScope None \<rparr>"
      "run_of v k = Some (run_outcome True (Inr ()) rs)"
    using conclude_running_run [OF u(1,2) rs(3), of t "Inr ()"] rs(1) by auto
  show ?thesis
    using u(3,4) v(2)
    by (simp add: on_resume_def random_sleep_segment v(1) on_leave_def loop_head_def run_outcome_def)
qed

text \<open>A worker that has crashed stays crashed.\<close>

lemma crashed_react: "react ex e w = Some w' \<Longrightarrow> wk_phase w = Crashed exc \<Longrightarrow> wk_phase w' = Crashed exc"
  by (cases e) (auto simp: on_resume_def on_beat_def on_leave_def shutdown_execution_def split: if_splits)

lemma crashed_for_good: "run_events ex es w = Some w' \<Longrightarrow> wk_phase w = Crashed exc \<Longrightarrow> wk_phase w' = Crashed exc"
  by (induction es arbitrary: w) (auto split: option.splits dest: crashed_react)

lemma ended_run_segment:
  assumes "honest ex" and "runtime_ok (sys_rt w)" and "\<And>y. snd (ex_resume ex x (ctx_is_cancelled ctx)) \<noteq> Suspend y"
    and "run_of (sys_rt w) (ctx_run_id ctx) = Some rs" and "rs_status rs \<in> TERMINAL_RUN_STATUSES"
  shows "wk_phase (run_segment ex t ctx x w) = LeavingScope (Some (invalid_transition (rs_status rs) FAILED)) \<and>
    rt_runs (sys_rt (run_segment ex t ctx x w)) = rt_runs (sys_rt w)"
proof -
  obtain evs act where ends: "ex_resume ex x (ctx_is_cancelled ctx) = (evs, act)" "\<And>y. act \<noteq> Suspend y"
    using assms(3) by (metis prod.collapse)
  then have "\<forall>e \<in> set evs. fst e \<notin> lifecycle_types" using assms(1) by (metis fst_conv honest_def)
  then have emit: "effect_in later (emit_all t ctx evs)" by (rule later_emit_all)
  obtain q u where m: "emit_all t ctx evs (sys_rt w) = (q, u)" by fastforce
  have u: "runtime_ok u" "rt_runs u = rt_runs (sys_rt w)"
    using runtime_ok_later [OF effect_inD [OF emit m] assms(2)] emit_all_runs [of t ctx evs "sys_rt w"] m by auto
  have "run_of u (ctx_run_id ctx) = Some rs" using assms(4) u(2) by simp
  then have "conclude t ctx r (w\<lparr> sys_rt := u \<rparr>) = w\<lparr> sys_rt := u, wk_beating := False,
      wk_phase := LeavingScope (Some (invalid_transition (rs_status rs) FAILED)) \<rparr>" for r
    using conclude_lost_run [of "w\<lparr> sys_rt := u \<rparr>" ctx rs r t] u(1) assms(5) by (auto simp: TERMINAL_RUN_STATUSES_def)
  then show ?thesis
    using ends m u(2) by (cases q; cases act) (auto simp: run_segment_def)
qed

text \<open>
  C14 A worker whose run was ended by somebody else does not survive it. Whatever the executor, when it
  ends - it returns, or raises, after whatever it emits - and the run is terminal in the store, the
  exception that ends the worker is the one of recording the failure: the refusal of the transition
  from the status of the run to FAILED. It leaves the consumer's loop, no run is changed, and whatever
  happens next the worker stays dead.
\<close>

theorem completion_race_kills_the_worker:
  assumes "honest ex" and "runtime_ok (sys_rt w)" and "wk_phase w = Executing ctx x"
    and "\<And>y. snd (ex_resume ex x (ctx_is_cancelled ctx)) \<noteq> Suspend y"
    and "run_of (sys_rt w) (ctx_run_id ctx) = Some rs" and "rs_status rs \<in> TERMINAL_RUN_STATUSES"
  shows "\<exists>w'. run_events ex [Resume t, LeaveScope] w = Some w' \<and>
    wk_phase w' = Crashed (ValueError (''Invalid transition: '' @ code_text (rs_status rs) @ '' -> '' @ code_text FAILED)) \<and>
    rt_runs (sys_rt w') = rt_runs (sys_rt w) \<and>
    (\<forall>es w''. run_events ex es w' = Some w'' \<longrightarrow> wk_phase w'' = wk_phase w')"
  using ended_run_segment [OF assms(1,2,4,5,6), of t] assms(3)
  by (auto simp: on_resume_def on_leave_def invalid_transition_def intro: crashed_for_good)

definition outrun_worker :: "nat worker_system" where
  "outrun_worker = the (run_events RandomSleepRunExecutor
     [Resume 6, Resume 7, Resume 8, Resume 9, Other (CallClaimRun 40 ''wA''), Other (CallClaimRun 40 ''wA''),
      Other (CallSetSucceeded 41 ''r2'' [])] busy_worker)"

theorem completion_race_kills_the_worker_witness:
  "\<exists>w'. run_events RandomSleepRunExecutor [Resume 50, LeaveScope] outrun_worker = Some w' \<and>
     wk_phase w' = Crashed (ValueError ''Invalid transition: RunStatusCode.SUCCEEDED -> RunStatusCode.FAILED'')"
proof -
  let ?es = "[Resume 6, Resume 7, Resume 8, Resume 9, Other (CallClaimRun 40 ''wA''), Other (CallClaimRun 40 ''wA''),
      Other (CallSetSucceeded 41 ''r2'' [])]"
  have "run_events RandomSleepRunExecutor ?es busy_worker \<noteq> None" by code_simp
  then have o: "run_events RandomSleepRunExecutor ?es busy_worker = Some outrun_worker"
    by (auto simp: outrun_worker_def)
  have "runtime_ok (sys_rt busy_worker)" using busy_worker_executing by (simp add: executing_run_def)
  then have ok: "runtime_ok (sys_rt outrun_worker)"
    using later_invariant [OF later_run_events [OF honest_executors(1) o], of "\<lambda>_. True"] by simp
  have ph: "wk_phase outrun_worker = Executing (new_execution_context ''r2'') 5" by code_simp
  have "map_option rs_status (run_of (sys_rt outrun_worker) ''r2'') = Some SUCCEEDED" by code_simp
  then obtain rs where "run_of (sys_rt outrun_worker) ''r2'' = Some rs" "rs_status rs = SUCCEEDED" by auto
  from completion_race_kills_the_worker [OF honest_executors(1) ok ph, of rs 50] this
  show ?thesis by (auto simp: random_sleep_resume code_text_def)
qed

text \<open>
  The random-sleep executor stops at the next checkpoint and always ends: resumed with the
  answers \<open>cs\<close> of \<open>is_cancelled\<close>, it is still running exactly when all of them were false and
  there were at most five; otherwise it has returned. It never raises.
\<close>

theorem random_sleep_stops_in_time:
  "run_executor RandomSleepRunExecutor 0 cs =
     (if True \<in> set cs \<or> 5 < length cs then Finished else Suspend (length cs))"
proof -
  have gen: "run_executor RandomSleepRunExecutor i cs =
      (if True \<in> set cs \<or> 5 < i + length cs then Finished else Suspend (i + length cs))"
    if "i \<le> 5" for i
    using that
  proof (induction cs arbitrary: i)
    case (Cons c cs)
    then show ?case by (cases "i < 5 \<and> \<not> c") (auto simp: random_sleep_resume)
  qed simp
  from gen [of 0] show ?thesis by simp
qed

end
