(* ===== verification/EndToEnd.thy ===== *)
theory EndToEnd
  imports AgentApi WorkerProperties
begin

text \<open>
  The API, the stores and a worker together: a run that is taken in over HTTP is executed by the
  worker in its turn and the API then answers with its end. The worker runs through any schedule
  of its events; in between, the API makes any store calls it makes for its requests.
\<close>

section \<open>The calls of the API\<close>

text \<open>
  The store calls of the endpoints that change something (\<open>api_requests_are_histories\<close>): creating and
  enqueueing a run, requesting a cancellation, notifying the workers.
\<close>

fun api_call :: "store_call \<Rightarrow> bool" where
  "api_call (CallCreateRun now k req) = True"
| "api_call (CallMarkEnqueued now k) = True"
| "api_call (CallRequestCancellation now k) = True"
| "api_call CallNotify = True"
| "api_call _ = False"

lemma api_call_run:
  assumes "runtime_ok s" and "api_call c" and "call_allowed s c"
    and "run_of s k = Some rs" and "rs_status rs \<in> {ENQUEUED, RUNNING}"
  shows "\<exists>rs'. run_of (after_call c s) k = Some rs' \<and>
           rs' \<in> {rs, rs\<lparr> rs_cancel_requested := True \<rparr>}"
  using assms
  by (cases c) (auto simp: create_run_fresh mark_enqueued_cases request_cancellation_cases
      notify_signal_def modify_def split: option.split)

text \<open>A schedule in which the worker works on and nobody but the API calls the stores.\<close>

fun in_schedule :: "worker_event \<Rightarrow> bool" where
  "in_schedule (Other c) = api_call c"
| "in_schedule Shutdown = False"
| "in_schedule _ = True"

fun own_step :: "worker_event \<Rightarrow> bool" where
  "own_step (Wake now) = True"
| "own_step (Resume now) = True"
| "own_step LeaveScope = True"
| "own_step _ = False"

definition own_steps :: "worker_event list \<Rightarrow> nat" where
  "own_steps es = length (filter own_step es)"

section \<open>Runs in the order of their creation\<close>

definition live_run :: "runtime \<Rightarrow> uuid \<Rightarrow> bool" where
  "live_run s k = (case run_of s k of None \<Rightarrow> False | Some rs \<Rightarrow> rs_status rs \<notin> TERMINAL_RUN_STATUSES)"

definition up_to :: "'a \<Rightarrow> 'a list \<Rightarrow> 'a list" where
  "up_to k xs = takeWhile (\<lambda>x. x \<noteq> k) xs @ [k]"

text \<open>How many runs that were created no later than \<open>k\<close> have not ended.\<close>

definition ahead :: "uuid \<Rightarrow> runtime \<Rightarrow> nat" where
  "ahead k s = length (filter (live_run s) (up_to k (dict_keys (rt_runs s))))"

lemma up_to_append: "k \<in> set xs \<Longrightarrow> up_to k (xs @ ys) = up_to k xs"
  by (simp add: up_to_def takeWhile_append1)

lemma up_to_fresh: "k \<notin> set xs \<Longrightarrow> up_to k (xs @ [k]) = xs @ [k]"
  by (induction xs) (auto simp: up_to_def)

lemma find_up_to:
  "List.find P xs = Some y \<Longrightarrow> k \<in> set xs \<Longrightarrow> k \<notin> set (takeWhile (\<lambda>x. \<not> P x) xs) \<Longrightarrow> y \<in> set (up_to k xs)"
  by (induction xs) (auto simp: up_to_def split: if_splits)

lemma run_key: "run_of s k \<noteq> None \<longleftrightarrow> k \<in> set (dict_keys (rt_runs s))"
  using map_of_None_keys by metis

lemma later_keys:
  assumes "later s t" and "runtime_ok s"
  shows "\<exists>ys. dict_keys (rt_runs t) = dict_keys (rt_runs s) @ ys"
proof -
  let ?P = "\<lambda>u. \<exists>ys. dict_keys (rt_runs u) = dict_keys (rt_runs s) @ ys"
  have "?P v" if "?P u" "store_step now u v" for now u v
    using that(2,1)
    by (induction rule: store_step.induct)
       (auto simp: created_run_def keys_dict_set commit_keys)
  then show ?thesis using later_invariant [OF assms, of ?P] by blast
qed

lemma later_live:
  assumes "later s t" and "runtime_ok s" and "run_of s x \<noteq> None" and "live_run t x"
  shows "live_run s x"
proof (rule ccontr)
  assume "\<not> live_run s x"
  then obtain rs where rs: "run_of s x = Some rs" "rs_status rs \<in> TERMINAL_RUN_STATUSES"
    using assms(3) by (auto simp: live_run_def)
  then have "run_of t x = Some rs"
    using later_run [OF assms(1,2) rs(1), of "(=)"] life_step_terminal by metis
  then show False using assms(4) rs(2) by (simp add: live_run_def)
qed

lemma ahead_filter:
  assumes "later s t" and "runtime_ok s" and "run_of s k \<noteq> None"
  shows "ahead k t = length (filter (live_run t) (filter (live_run s) (up_to k (dict_keys (rt_runs s)))))"
proof -
  obtain ys where keys: "dict_keys (rt_runs t) = dict_keys (rt_runs s) @ ys"
    using later_keys [OF assms(1,2)] by blast
  note k = assms(3) [unfolded run_key]
  have same: "live_run t x = (live_run s x \<and> live_run t x)" if "x \<in> set (up_to k (dict_keys (rt_runs s)))" for x
  proof -
    have "x = k \<or> x \<in> set (dict_keys (rt_runs s))" using that set_takeWhileD by (fastforce simp: up_to_def)
    then have "run_of s x \<noteq> None" using k unfolding run_key by blast
    then show ?thesis using later_live [OF assms(1,2)] by blast
  qed
  have "filter (live_run t) (up_to k (dict_keys (rt_runs s))) =
      filter (\<lambda>x. live_run s x \<and> live_run t x) (up_to k (dict_keys (rt_runs s)))"
    by (rule filter_cong [OF refl same])
  then show ?thesis unfolding ahead_def keys up_to_append [OF k] filter_filter by (rule arg_cong)
qed

lemma ahead_later: "later s t \<Longrightarrow> runtime_ok s \<Longrightarrow> run_of s k \<noteq> None \<Longrightarrow> ahead k t \<le> ahead k s"
  unfolding ahead_def [of k s] by (subst ahead_filter) (assumption | rule length_filter_le)+

lemma ahead_ended:
  assumes "later s t" and "runtime_ok s" and "run_of s k \<noteq> None"
    and "x \<in> set (up_to k (dict_keys (rt_runs s)))" and "live_run s x" and "\<not> live_run t x"
  shows "ahead k t < ahead k s"
  unfolding ahead_filter [OF assms(1-3)] ahead_def [of k s]
  by (rule length_filter_less [of x]) (use assms(4-6) in auto)

lemma ahead_positive: "live_run s k \<Longrightarrow> 0 < ahead k s"
  by (simp add: ahead_def up_to_def)

section \<open>The worker at work\<close>

text \<open>A run that a worker has ended: cancelled if that was requested, and otherwise with its result.\<close>

definition finished_run :: "uuid \<Rightarrow> runtime \<Rightarrow> bool" where
  "finished_run k s \<longleftrightarrow>
     (\<exists>rs. run_of s k = Some rs \<and>
        (if rs_cancel_requested rs then rs_status rs = CANCELLED
         else rs_status rs = SUCCEEDED \<and> rs_result rs = Some [(''ok'', PBool True)]))"

lemma finished_stays:
  assumes "finished_run k s" and "later s t" and "runtime_ok s"
  shows "finished_run k t"
proof -
  obtain rs where rs: "run_of s k = Some rs" "rs_status rs \<in> TERMINAL_RUN_STATUSES"
    using assms(1) by (auto simp: finished_run_def TERMINAL_RUN_STATUSES_def split: if_splits)
  then have "run_of t k = Some rs"
    using later_run [OF assms(2,3) rs(1), of "(=)"] life_step_terminal by metis
  then show ?thesis using assms(1) rs(1) by (auto simp: finished_run_def)
qed

text \<open>A worker that has not been told to stop and has not crashed, and owns the run it executes.\<close>

definition working :: "nat worker_system \<Rightarrow> bool" where
  "working w \<longleftrightarrow>
     runtime_ok (sys_rt w) \<and> wk_execution_allowed w \<and>
     (case wk_phase w of
        AtWait \<Rightarrow> True
      | Executing ctx i \<Rightarrow> i \<le> 5 \<and> executing_run (ctx_run_id ctx) i w
      | LeavingScope exc \<Rightarrow> exc = None
      | _ \<Rightarrow> False)"

lemma random_sleep_start: "ex_start RandomSleepRunExecutor = 0"
  by (simp add: RandomSleepRunExecutor_def)

lemma wake_effect:
  assumes "runtime_ok (sys_rt w)" and "wk_execution_allowed w"
  obtains t where
    "on_wake RandomSleepRunExecutor now w =
       (case first_claimable now (sys_rt w) of
          None \<Rightarrow> w\<lparr> sys_rt := t, wk_phase := AtWait \<rparr>
        | Some k \<Rightarrow>
            w\<lparr> sys_rt := t, wk_beating := True, wk_phase := Executing (new_execution_context k) 1 \<rparr>)"
    and "runtime_ok t"
    and "\<And>k. run_of t k =
       (if first_claimable now (sys_rt w) = Some k
        then map_option (\<lambda>rs. claimed_by now (wk_worker_id w) (recovered now (wk_worker_id w) rs))
               (run_of (sys_rt w) k)
        else if before_claim now (sys_rt w) k
        then map_option (\<lambda>rs. swept (recovered now (wk_worker_id w) rs)) (run_of (sys_rt w) k)
        else map_option (recovered now (wk_worker_id w)) (run_of (sys_rt w) k))"
proof -
  let ?s = "snd (wait_signal None None (sys_rt w))"
  obtain r q where "wait None None (rt_signal (sys_rt w)) = (r, q)" by fastforce
  then have s: "?s = sys_rt w\<lparr> rt_signal := q \<rparr>" by (simp add: wait_signal_def)
  have at: "claimable_at now ?s = claimable_at now (sys_rt w)"
    by (rule ext) (simp add: claimable_at_def s)
  have same: "first_claimable now ?s = first_claimable now (sys_rt w)" "runtime_ok ?s"
    "rt_runs ?s = rt_runs (sys_rt w)" "\<And>k. before_claim now ?s k = before_claim now (sys_rt w) k"
    using assms(1) at by (simp_all add: s first_claimable_def before_claim_def)
  show ?thesis
    using claim_run_summary [OF same(2), of now "wk_worker_id w"] assms(2) that
    by (auto simp: on_wake_def Let_def same loop_head_def random_sleep_segment random_sleep_start new_execution_context_def
        ctx_is_cancelled_def split: option.splits)
qed

lemma claimed_run:
  assumes "first_claimable now s = Some k"
  obtains rs where "run_of s k = Some rs" and "claimable now rs"
  using assms find_Some_in unfolding first_claimable_def claimable_at_def
  by (fastforce split: option.splits)

lemma wake_working:
  assumes "working w" and "wk_phase w = AtWait"
  shows "working (on_wake RandomSleepRunExecutor now w)"
proof -
  have w: "runtime_ok (sys_rt w)" "wk_execution_allowed w" using assms(1) by (auto simp: working_def)
  show ?thesis
  proof (rule wake_effect [OF w, of now], cases "first_claimable now (sys_rt w)", goal_cases)
    case (1 t)
    then show ?case using w by (simp add: working_def)
  next
    case (2 t k)
    obtain rs where "run_of (sys_rt w) k = Some rs" using 2(4) by (rule claimed_run)
    with 2 show ?case using w
      by (auto simp: working_def executing_run_def claimed_by_def new_execution_context_def ctx_is_cancelled_def)
  qed
qed

lemma resume_effect:
  assumes "working w" and "wk_phase w = Executing ctx i"
  obtains "i < 5" and "on_resume RandomSleepRunExecutor now w = Some (w\<lparr> wk_phase := Executing ctx (Suc i) \<rparr>)"
  | t rs where
      "on_resume RandomSleepRunExecutor now w =
         Some (w\<lparr> sys_rt := t, wk_beating := False, wk_phase := LeavingScope None \<rparr>)"
      and "runtime_ok t" and "run_of t = (run_of (sys_rt w))(ctx_run_id ctx \<mapsto> rs)"
      and "finished_run (ctx_run_id ctx) t"
proof (cases "i < 5 \<and> \<not> ctx_is_cancelled ctx")
  case True
  then show ?thesis using assms(2) that(1) by (simp add: on_resume_def random_sleep_segment)
next
  case False
  obtain rs where rs: "runtime_ok (sys_rt w)" "run_of (sys_rt w) (ctx_run_id ctx) = Some rs"
      "rs_status rs = RUNNING" "ctx_is_cancelled ctx \<longrightarrow> rs_cancel_requested rs"
    using assms by (auto simp: working_def executing_run_def)
  obtain t where t: "conclude_run in_memory_processing now (ctx_run_id ctx) (ctx_is_cancelled ctx) (Inr ()) (sys_rt w) =
        (Inr (), t)" "runtime_ok t"
      "run_of t = (run_of (sys_rt w))(ctx_run_id ctx \<mapsto> run_outcome (ctx_is_cancelled ctx) (Inr ()) rs)"
    using processing.conclude_running [OF rs(1-3), of now] by blast
  then have "finished_run (ctx_run_id ctx) t"
    using rs(4) by (auto simp: finished_run_def run_outcome_def)
  moreover have "on_resume RandomSleepRunExecutor now w =
      Some (w\<lparr> sys_rt := t, wk_beating := False, wk_phase := LeavingScope None \<rparr>)"
    using assms(2) False t(1) by (auto simp: on_resume_def random_sleep_segment conclude_def)
  ultimately show ?thesis using that(2) t(2,3) by blast
qed

section \<open>A run in its turn\<close>

text \<open>
  A run that was taken in: it waits behind the run that is executed, is executed itself, or is
  finished. \<open>steps_left\<close> bounds the steps the worker still takes until then: an execution is one wake,
  five resumptions and one end of the lease scope.
\<close>

definition taken_in :: "uuid \<Rightarrow> nat worker_system \<Rightarrow> bool" where
  "taken_in k w \<longleftrightarrow>
     finished_run k (sys_rt w) \<or>
     (\<exists>ctx i. wk_phase w = Executing ctx i \<and> ctx_run_id ctx = k) \<or>
     (\<exists>rs. run_of (sys_rt w) k = Some rs \<and> rs_status rs = ENQUEUED \<and>
        (\<forall>ctx i. wk_phase w = Executing ctx i \<longrightarrow>
           ctx_run_id ctx \<in> set (up_to k (dict_keys (rt_runs (sys_rt w))))))"

definition steps_left :: "uuid \<Rightarrow> nat worker_system \<Rightarrow> nat" where
  "steps_left k w =
     (case wk_phase w of
        Executing ctx i \<Rightarrow> 7 * ahead k (sys_rt w) - i
      | LeavingScope exc \<Rightarrow> 7 * ahead k (sys_rt w) + 1
      | _ \<Rightarrow> 7 * ahead k (sys_rt w))"

lemma taken_in_known: "working w \<Longrightarrow> taken_in k w \<Longrightarrow> run_of (sys_rt w) k \<noteq> None"
  by (auto simp: taken_in_def finished_run_def working_def executing_run_def)

lemma taken_in_live:
  "working w \<Longrightarrow> taken_in k w \<Longrightarrow> finished_run k (sys_rt w) \<or> live_run (sys_rt w) k"
  by (auto simp: taken_in_def live_run_def working_def executing_run_def TERMINAL_RUN_STATUSES_def)

lemma react_later:
  "react RandomSleepRunExecutor e w = Some w' \<Longrightarrow> later (sys_rt w) (sys_rt w')"
  by (rule later_react [OF honest_executors(1)])

lemma react_keys:
  assumes "working w" and "taken_in k w" and "react RandomSleepRunExecutor e w = Some w'"
  shows "up_to k (dict_keys (rt_runs (sys_rt w'))) = up_to k (dict_keys (rt_runs (sys_rt w)))"
proof -
  have "runtime_ok (sys_rt w)" using assms(1) by (simp add: working_def)
  then obtain ys where "dict_keys (rt_runs (sys_rt w')) = dict_keys (rt_runs (sys_rt w)) @ ys"
    using later_keys [OF react_later [OF assms(3)]] by blast
  then show ?thesis using up_to_append taken_in_known [OF assms(1,2)] unfolding run_key by metis
qed

lemma wake_taken_in:
  assumes "working w" and "taken_in k w" and ph: "wk_phase w = AtWait"
    and "\<not> finished_run k (sys_rt w)" and r: "react RandomSleepRunExecutor (Wake now) w = Some w'"
  shows "taken_in k w' \<and> (finished_run k (sys_rt w') \<or> (\<exists>ctx. wk_phase w' = Executing ctx 1))"
proof -
  have w: "runtime_ok (sys_rt w)" "wk_execution_allowed w" using assms(1) by (auto simp: working_def)
  have w': "w' = on_wake RandomSleepRunExecutor now w" using r ph by simp
  obtain rs where rs: "run_of (sys_rt w) k = Some rs" "rs_status rs = ENQUEUED"
    using assms(2,4) ph by (auto simp: taken_in_def)
  then have rec: "recovered now x rs = rs" for x by (simp add: recovered_def expired_lease_def)
  obtain t where t: "w' =
       (case first_claimable now (sys_rt w) of
          None \<Rightarrow> w\<lparr> sys_rt := t, wk_phase := AtWait \<rparr>
        | Some k \<Rightarrow>
            w\<lparr> sys_rt := t, wk_beating := True, wk_phase := Executing (new_execution_context k) 1 \<rparr>)"
    and run: "run_of t k = (if first_claimable now (sys_rt w) = Some k then Some (claimed_by now (wk_worker_id w) rs)
        else if before_claim now (sys_rt w) k then Some (swept rs) else Some rs)"
    unfolding w' by (rule wake_effect [OF w, of now]) (simp add: rs rec)
  have kept: "finished_run k t \<or> run_of t k = Some rs" if "first_claimable now (sys_rt w) \<noteq> Some k"
    using run that rs(2) by (auto simp: swept_def finished_run_def)
  show ?thesis
  proof (cases "first_claimable now (sys_rt w)")
    case None
    then have "\<not> claimable_at now (sys_rt w) k" and "before_claim now (sys_rt w) k"
      using map_of_key [OF rs(1)] unfolding first_claimable_def before_claim_def find_None_all
      by (auto simp: takeWhile_eq_all_conv [THEN iffD2])
    then have "finished_run k t"
      using run None rs by (auto simp: claimable_at_def claimable_def finished_run_def swept_def)
    then show ?thesis using t None by (simp add: taken_in_def)
  next
    case (Some k1)
    have "finished_run k t \<or> k1 \<in> set (up_to k (dict_keys (rt_runs (sys_rt w))))"
    proof (cases "before_claim now (sys_rt w) k")
      case True
      then have not: "\<not> claimable_at now (sys_rt w) k" unfolding before_claim_def by (blast dest: set_takeWhileD)
      then have "\<not> claimable now rs" by (simp add: claimable_at_def rs(1))
      moreover have "first_claimable now (sys_rt w) \<noteq> Some k"
        using not find_Some_in unfolding first_claimable_def by metis
      ultimately show ?thesis using True run rs(2) by (auto simp: claimable_def finished_run_def swept_def)
    next
      case False
      then show ?thesis
        using find_up_to [OF Some [unfolded first_claimable_def] map_of_key [OF rs(1)]]
        unfolding before_claim_def by blast
    qed
    then show ?thesis
      using t Some kept rs(2) react_keys [OF assms(1,2) r]
      by (cases "k1 = k") (auto simp: taken_in_def new_execution_context_def)
  qed
qed

lemma beat_effect:
  assumes "working w" and "react RandomSleepRunExecutor (Beat now) w = Some w'"
  obtains ctx i ctx' rs where "wk_phase w = Executing ctx i" and "wk_phase w' = Executing ctx' i"
    and "ctx_run_id ctx' = ctx_run_id ctx" and "wk_execution_allowed w'"
    and "run_of (sys_rt w') = (run_of (sys_rt w))(ctx_run_id ctx \<mapsto> rs)"
proof -
  obtain ctx i where ph: "wk_phase w = Executing ctx i" and ex: "executing_run (ctx_run_id ctx) i w"
    using assms by (auto simp: working_def on_beat_def split: phase.splits)
  obtain rs where rs: "runtime_ok (sys_rt w)" "run_of (sys_rt w) (ctx_run_id ctx) = Some rs"
    using ex ph by (auto simp: executing_run_def)
  obtain t where "heartbeat_once in_memory_processing now (wk_worker_id w) (ctx_run_id ctx) (sys_rt w) =
        (Inr (if rs_cancel_requested rs then CancelDetected else KeepBeating), t)"
      "run_of t = (run_of (sys_rt w))(ctx_run_id ctx \<mapsto> rs\<lparr> rs_claim_expiration := Some (get_new_expiration_ts now) \<rparr>)"
    using processing.heartbeat_once_cases [OF rs, of now "wk_worker_id w"] ex ph rs(2)
    by (auto simp: executing_run_def)
  then show ?thesis
    using assms ph that by (auto simp: on_beat_def working_def ctx_cancel_def split: if_splits)
qed

lemma schedule_working:
  assumes "working w" and "in_schedule e" and r: "react RandomSleepRunExecutor e w = Some w'"
  shows "working w'"
proof (cases e)
  case (Wake now)
  then show ?thesis using r wake_working [OF assms(1)] by (auto split: phase.splits)
next
  case (Resume now)
  then obtain ctx i where ph: "wk_phase w = Executing ctx i"
    using r by (auto simp: on_resume_def split: phase.splits)
  have "working w" "executing_run (ctx_run_id ctx) i w" using assms(1) ph by (auto simp: working_def)
  then show ?thesis
    using r Resume ph
    by (rule_tac resume_effect [OF assms(1) ph, of now]) (auto simp: working_def executing_run_def)
next
  case (Beat now)
  obtain ctx i ctx' rs where b: "wk_phase w = Executing ctx i" "wk_phase w' = Executing ctx' i"
      "ctx_run_id ctx' = ctx_run_id ctx" "wk_execution_allowed w'"
    using r [unfolded Beat] by (rule beat_effect [OF assms(1)])
  then have "i \<le> 5" "executing_run (ctx_run_id ctx) i w'"
    using assms(1) beat_executing [OF _ r [unfolded Beat]] by (auto simp: working_def)
  then show ?thesis using b by (simp add: working_def) (simp add: executing_run_def)
next
  case LeaveScope
  then show ?thesis
    using assms(1) r by (auto simp: on_leave_def working_def loop_head_def split: phase.splits option.splits)
next
  case (Other c)
  then have c: "api_call c" "call_allowed (sys_rt w) c" "w' = w\<lparr> sys_rt := after_call c (sys_rt w) \<rparr>"
    using assms(2) r by (auto split: if_splits)
  have ok: "runtime_ok (sys_rt w)" "runtime_ok (after_call c (sys_rt w))"
    using assms(1) after_call_effect [OF c(2)] by (auto simp: working_def store_effect_def)
  show ?thesis
    using assms(1) ok c(3) api_call_run [OF ok(1) c(1,2)]
    by (fastforce simp: working_def executing_run_def split: phase.splits)
qed (use assms(2) in simp)

lemma schedule_taken_in:
  assumes w: "working w" "taken_in k w" "\<not> finished_run k (sys_rt w)"
    and "in_schedule e" and r: "react RandomSleepRunExecutor e w = Some w'"
  shows "taken_in k w'"
proof (cases e)
  case (Wake now)
  then have "wk_phase w = AtWait" using r by (auto split: phase.splits)
  then show ?thesis using wake_taken_in [OF w(1,2) _ w(3)] r unfolding Wake by blast
next
  case (Resume now)
  then obtain ctx i where ph: "wk_phase w = Executing ctx i"
    using r by (auto simp: on_resume_def split: phase.splits)
  show ?thesis
    using r [unfolded Resume] ph w(2,3) react_keys [OF w(1,2) r]
    by (rule_tac resume_effect [OF w(1) ph, of now]) (auto simp: taken_in_def)
next
  case (Beat now)
  obtain ctx i ctx' rs where b: "wk_phase w = Executing ctx i" "wk_phase w' = Executing ctx' i"
      "ctx_run_id ctx' = ctx_run_id ctx" "run_of (sys_rt w') = (run_of (sys_rt w))(ctx_run_id ctx \<mapsto> rs)"
    using r [unfolded Beat] by (rule beat_effect [OF w(1)])
  then show ?thesis
    using w(2,3) react_keys [OF w(1,2) r] by (cases "ctx_run_id ctx = k") (auto simp: taken_in_def)
next
  case LeaveScope
  then show ?thesis
    using w r by (auto simp: on_leave_def taken_in_def loop_head_def split: phase.splits option.splits if_splits)
next
  case (Other c)
  then have c: "api_call c" "call_allowed (sys_rt w) c" "w' = w\<lparr> sys_rt := after_call c (sys_rt w) \<rparr>"
    using assms(4) r by (auto split: if_splits)
  have ok: "runtime_ok (sys_rt w)" using w(1) by (simp add: working_def)
  show ?thesis
    using w(2,3) c(3) api_call_run [OF ok c(1,2), of k] react_keys [OF w(1,2) r]
    by (fastforce simp: taken_in_def)
qed (use assms(4) in simp)

lemma schedule_steps_left:
  assumes w: "working w" "taken_in k w" "\<not> finished_run k (sys_rt w)"
    and "in_schedule e" and r: "react RandomSleepRunExecutor e w = Some w'"
  shows "finished_run k (sys_rt w') \<or> steps_left k w' + own_steps [e] \<le> steps_left k w"
proof -
  have ok: "runtime_ok (sys_rt w)" using w(1) by (simp add: working_def)
  note known = taken_in_known [OF w(1,2)]
  have le: "ahead k (sys_rt w') \<le> ahead k (sys_rt w)" by (rule ahead_later [OF react_later [OF r] ok known])
  have pos: "finished_run k (sys_rt w') \<or> 0 < ahead k (sys_rt w')"
    using taken_in_live [OF schedule_working [OF w(1) assms(4) r] schedule_taken_in [OF w assms(4) r]]
      ahead_positive [of "sys_rt w'" k] by auto
  show ?thesis
  proof (cases e)
    case (Resume now)
    then obtain ctx i where ph: "wk_phase w = Executing ctx i"
      using r by (auto simp: on_resume_def split: phase.splits)
    have x: "ctx_run_id ctx \<in> set (up_to k (dict_keys (rt_runs (sys_rt w))))"
      using w(2,3) ph by (auto simp: taken_in_def up_to_def)
    have live: "live_run (sys_rt w) (ctx_run_id ctx)"
      using w(1) ph by (auto simp: working_def executing_run_def live_run_def TERMINAL_RUN_STATUSES_def)
    have ended: "\<not> live_run (sys_rt w') (ctx_run_id ctx)" if "finished_run (ctx_run_id ctx) (sys_rt w')"
      using that by (auto simp: finished_run_def live_run_def TERMINAL_RUN_STATUSES_def split: if_splits)
    have "i \<le> 5" using w(1) ph by (simp add: working_def)
    then show ?thesis
      using r [unfolded Resume] ph le pos ended ahead_ended [OF react_later [OF r] ok known x live] Resume
      by (rule_tac resume_effect [OF w(1) ph, of now]) (auto simp: steps_left_def own_steps_def)
  next
    case (Beat now)
    then show ?thesis
      using le r [unfolded Beat]
      by (rule_tac beat_effect [OF w(1)]) (auto simp: steps_left_def own_steps_def intro!: diff_le_mono)
  next
    case (Wake now)
    then have "wk_phase w = AtWait" using r by (auto split: phase.splits)
    then show ?thesis
      using wake_taken_in [OF w(1,2) _ w(3) r [unfolded Wake]] le pos Wake
      by (auto simp: steps_left_def own_steps_def)
  next
    case LeaveScope
    then show ?thesis
      using le r w(1)
      by (auto simp: steps_left_def own_steps_def on_leave_def loop_head_def working_def split: phase.splits option.splits)
  next
    case (Other c)
    then have "wk_phase w' = wk_phase w" using r by (auto split: if_splits)
    then show ?thesis
      using le Other by (auto simp: steps_left_def own_steps_def split: phase.split)
  qed (use assms(4) in simp)
qed

lemma steps_left_positive:
  "working w \<Longrightarrow> taken_in k w \<Longrightarrow> steps_left k w = 0 \<Longrightarrow> finished_run k (sys_rt w)"
  using taken_in_live [of w k] ahead_positive [of "sys_rt w" k]
  by (auto simp: steps_left_def working_def split: phase.splits)

lemma schedule_serves:
  assumes "working w" and "taken_in k w" and "\<forall>e \<in> set es. in_schedule e"
    and "run_events RandomSleepRunExecutor es w = Some w'"
  shows "working w' \<and> taken_in k w' \<and>
         (finished_run k (sys_rt w') \<or> steps_left k w' + own_steps es \<le> steps_left k w)"
  using assms
proof (induction es arbitrary: w)
  case Nil
  then show ?case by (simp add: own_steps_def)
next
  case (Cons e es)
  obtain u where u: "react RandomSleepRunExecutor e w = Some u" "run_events RandomSleepRunExecutor es u = Some w'"
    using Cons.prems(4) by (auto split: option.splits)
  have e: "in_schedule e" "\<forall>e \<in> set es. in_schedule e" using Cons.prems(3) by auto
  have split: "own_steps (e # es) = own_steps [e] + own_steps es" by (simp add: own_steps_def)
  show ?case
  proof (cases "finished_run k (sys_rt w)")
    case True
    have ok: "runtime_ok (sys_rt w)" using Cons.prems(1) by (simp add: working_def)
    have "finished_run k (sys_rt u)" by (rule finished_stays [OF True react_later [OF u(1)] ok])
    moreover have "runtime_ok (sys_rt u)"
      using schedule_working [OF Cons.prems(1) e(1) u(1)] by (simp add: working_def)
    ultimately have "finished_run k (sys_rt w')"
      using finished_stays later_run_events [OF honest_executors(1) u(2)] by blast
    then show ?thesis
      using Cons.IH [OF schedule_working [OF Cons.prems(1) e(1) u(1)] _ e(2) u(2)] \<open>finished_run k (sys_rt u)\<close>
      by (simp add: taken_in_def)
  next
    case False
    from Cons.IH [OF schedule_working [OF Cons.prems(1) e(1) u(1)]
        schedule_taken_in [OF Cons.prems(1,2) False e(1) u(1)] e(2) u(2)]
      schedule_steps_left [OF Cons.prems(1,2) False e(1) u(1)]
      finished_stays [OF _ later_run_events [OF honest_executors(1) u(2)], of k]
    show ?thesis
      using schedule_working [OF Cons.prems(1) e(1) u(1)] by (auto simp: split working_def)
  qed
qed

section \<open>Properties\<close>

text \<open>How many runs have not ended.\<close>

definition live_count :: "runtime \<Rightarrow> nat" where
  "live_count s = length (filter (live_run s) (dict_keys (rt_runs s)))"

lemma created_taken_in:
  assumes w: "working w" and fresh: "run_of (sys_rt w) k = None"
    and t: "later (sys_rt w) t" "runtime_ok t" "run_of t = (run_of (sys_rt w))(k \<mapsto> new_run_status k ENQUEUED None None)"
  shows "working (w\<lparr> sys_rt := t \<rparr>)" and "taken_in k (w\<lparr> sys_rt := t \<rparr>)"
    and "steps_left k (w\<lparr> sys_rt := t \<rparr>) \<le> 7 * live_count (sys_rt w) + 8"
proof -
  let ?ks = "dict_keys (rt_runs (sys_rt w))"
  have ok: "runtime_ok (sys_rt w)" using w by (simp add: working_def)
  obtain ys where ys: "dict_keys (rt_runs t) = ?ks @ ys" using later_keys [OF t(1) ok] by blast
  have notin: "k \<notin> set ?ks" using fresh run_key by blast
  have "x \<in> set (?ks @ ys) \<longleftrightarrow> x \<in> insert k (set ?ks)" for x
    unfolding ys [symmetric] run_key [symmetric] insert_iff t(3) by simp
  then have "set ?ks \<union> set ys = insert k (set ?ks)" unfolding set_append by (rule set_eqI)
  moreover have "distinct (?ks @ ys)" using t(2) ys by (simp add: runtime_ok_def)
  ultimately have "set ys = {k}" "distinct ys" using notin unfolding distinct_append by blast+
  then have "ys = [k]" by (cases ys; cases "tl ys") auto
  then have up: "up_to k (dict_keys (rt_runs t)) = ?ks @ [k]"
    unfolding ys by (simp only: up_to_fresh [OF notin])
  have other: "live_run t x = live_run (sys_rt w) x" if "x \<in> set ?ks" for x
    using that notin t(3) by (auto simp: live_run_def)
  have "filter (live_run t) ?ks = filter (live_run (sys_rt w)) ?ks" by (rule filter_cong [OF refl other])
  then have ahead: "ahead k t \<le> live_count (sys_rt w) + 1" unfolding ahead_def live_count_def up by simp
  show "working (w\<lparr> sys_rt := t \<rparr>)"
    using w t(2,3) fresh by (auto simp: working_def executing_run_def split: phase.splits)
  show "steps_left k (w\<lparr> sys_rt := t \<rparr>) \<le> 7 * live_count (sys_rt w) + 8"
    using ahead by (auto simp: steps_left_def split: phase.split)
  have "ctx_run_id ctx \<in> set ?ks" if "wk_phase w = Executing ctx i" for ctx i
    using w that run_key by (fastforce simp: working_def executing_run_def)
  then show "taken_in k (w\<lparr> sys_rt := t \<rparr>)"
    using t(3) by (auto simp: taken_in_def up)
qed

text \<open>
  C4 From request to result: a run that is created over HTTP while a worker is at work is executed,
  whatever the backlog, in any schedule of the worker's steps, its heartbeats and further API
  requests, at any times: once the worker has taken 7 steps for every unfinished run (and 8 more),
  reading the run back answers SUCCEEDED with its result, or CANCELLED if a cancellation was
  requested.
\<close>

theorem created_runs_are_served:
  assumes "working w" and "run_of (sys_rt w) k = None"
    and "create_agent_run in_memory_service t1 t2 k body (sys_rt w) = (r, s)"
    and "\<forall>e \<in> set es. in_schedule e" and "7 * live_count (sys_rt w) + 8 \<le> own_steps es"
    and "run_events RandomSleepRunExecutor es (w\<lparr> sys_rt := s \<rparr>) = Some w'"
  shows "r = Inr (Ok200 \<lparr> cr_id = k \<rparr>) \<and>
    (\<exists>dto. get_agent_run in_memory_service k (sys_rt w') = (Inr (Ok200 dto), sys_rt w') \<and> rd_id dto = k \<and>
       (if rd_cancel_requested dto then rd_status dto = ''CANCELLED''
        else rd_status dto = ''SUCCEEDED'' \<and> rd_result dto = Some [(''ok'', PBool True)]))"
proof -
  have ok: "runtime_ok (sys_rt w)" using assms(1) by (simp add: working_def)
  have later: "later (sys_rt w) s"
    using api_requests_are_histories [OF assms(2), of t1 t2 body] assms(3) by simp
  have r: "r = Inr (Ok200 \<lparr> cr_id = k \<rparr>)" "runtime_ok s"
      "run_of s = (run_of (sys_rt w))(k \<mapsto> new_run_status k ENQUEUED None None)"
    using intake.create_route [OF ok assms(2), of t1 t2 body] assms(3) by auto
  note start = created_taken_in [OF assms(1,2) later r(2,3)]
  from schedule_serves [OF start(1,2) assms(4,6)]
  have fin: "working w'" "taken_in k w'" "finished_run k (sys_rt w') \<or> steps_left k w' = 0"
    using start(3) assms(5) by auto
  have "finished_run k (sys_rt w')" using fin steps_left_positive by blast
  then obtain rs where "run_of (sys_rt w') k = Some rs" "if rs_cancel_requested rs then rs_status rs = CANCELLED
         else rs_status rs = SUCCEEDED \<and> rs_result rs = Some [(''ok'', PBool True)]"
    by (auto simp: finished_run_def)
  moreover have "runtime_ok (sys_rt w')" using fin(1) by (simp add: working_def)
  moreover from this calculation(1) have "rs_id rs = k" using runtime_ok_run by (fastforce simp: run_ok_def)
  ultimately show ?thesis
    using r(1) intake.get_route [of "sys_rt w'" k] by (auto simp: RunV1Mapper_to_dto_def split: if_splits)
qed

definition example_job :: "unix_ts \<Rightarrow> worker_event list" where
  "example_job now = Wake now # replicate 5 (Resume (now + 1)) @ [LeaveScope]"

definition example_schedule :: "worker_event list" where
  "example_schedule =
     example_job 40 @ [Other (CallRequestCancellation 45 ''r2'')] @ example_job 50 @ replicate 8 (Wake 60)"

theorem created_runs_are_served_witness:
  "\<exists>s w' dto.
     create_agent_run in_memory_service 6 7 ''r3'' \<lparr> ap_prompt = ''hello'', ap_history = [] \<rparr> example_runtime =
       (Inr (Ok200 \<lparr> cr_id = ''r3'' \<rparr>), s) \<and>
     run_events RandomSleepRunExecutor example_schedule ((start_worker ''wB'' example_runtime)\<lparr> sys_rt := s \<rparr>) = Some w' \<and>
     get_agent_run in_memory_service ''r3'' (sys_rt w') = (Inr (Ok200 dto), sys_rt w') \<and>
     rd_status dto \<in> {''CANCELLED'', ''SUCCEEDED''}"
proof -
  let ?body = "\<lparr> ap_prompt = ''hello'', ap_history = [] \<rparr>" and ?w = "start_worker ''wB'' example_runtime :: nat worker_system"
  obtain r s where r: "create_agent_run in_memory_service 6 7 ''r3'' ?body (sys_rt ?w) = (r, s)" by fastforce
  have w: "working ?w" "run_of (sys_rt ?w) ''r3'' = None" "sys_rt ?w = example_runtime"
    by (simp_all add: working_def start_worker_def loop_head_def example_ok example_runs)
  have "run_events RandomSleepRunExecutor example_schedule
      (?w\<lparr> sys_rt := snd (create_agent_run in_memory_service 6 7 ''r3'' ?body (sys_rt ?w)) \<rparr>) \<noteq> None"
    by code_simp
  then obtain w' where w': "run_events RandomSleepRunExecutor example_schedule (?w\<lparr> sys_rt := s \<rparr>) = Some w'"
    unfolding r by auto
  have "\<forall>e \<in> set example_schedule. in_schedule e"
    by (simp add: example_schedule_def example_job_def)
  moreover have "7 * live_count (sys_rt ?w) + 8 \<le> own_steps example_schedule" by code_simp
  ultimately show ?thesis
    using created_runs_are_served [OF w(1,2) r _ _ w'] r w' unfolding w(3) by (auto split: if_splits)
qed

end
