(* ===== verification/Fleet.thy ===== *)
theory Fleet
  imports WorkerProperties
begin

text \<open>
  Several workers over one runtime. Each is a worker of \<open>WorkerSystem\<close>; the steps of the others are
  store calls for it. As long as leases are kept - nobody claims at a time at which the lease of a
  run in execution has run out - no two workers execute the same run and no worker crashes.
\<close>

section \<open>Workers that share a runtime\<close>

text \<open>The runtime, and the workers with whatever runtime they were last seen with.\<close>

type_synonym 'x fleet = "runtime \<times> 'x worker_system list"

datatype fleet_event = Worker nat worker_event | Api store_call

definition focus :: "runtime \<Rightarrow> 'x worker_system \<Rightarrow> 'x worker_system" where
  "focus s w = w\<lparr> sys_rt := s \<rparr>"

fun is_other :: "worker_event \<Rightarrow> bool" where
  "is_other (Other c) = True"
| "is_other _ = False"

text \<open>One worker takes a step of its own, or a store call is made by somebody who claims no runs.\<close>

fun spares_all :: "store_call \<Rightarrow> bool" where
  "spares_all (CallClaimRun now w) = False"
| "spares_all (CallSetFailed now k e) = False"
| "spares_all (CallSetSucceeded now k d) = False"
| "spares_all (CallSetCancelled now k) = False"
| "spares_all (CallMarkCancelled now k) = False"
| "spares_all _ = True"

fun fleet_react :: "'x AgentRunExecutor \<Rightarrow> fleet_event \<Rightarrow> 'x fleet \<Rightarrow> 'x fleet option" where
  "fleet_react ex (Worker i e) (s, ws) =
     (if i < length ws \<and> \<not> is_other e
      then map_option (\<lambda>w. (sys_rt w, ws[i := w])) (react ex e (focus s (ws ! i))) else None)"
| "fleet_react ex (Api c) (s, ws) =
     (if call_allowed s c \<and> spares_all c then Some (after_call c s, ws) else None)"

fun fleet_events :: "'x AgentRunExecutor \<Rightarrow> fleet_event list \<Rightarrow> 'x fleet \<Rightarrow> 'x fleet option" where
  "fleet_events ex [] F = Some F"
| "fleet_events ex (e # es) F = Option.bind (fleet_react ex e F) (fleet_events ex es)"

definition start_fleet :: "string list \<Rightarrow> runtime \<Rightarrow> 'x fleet" where
  "start_fleet worker_ids s = (s, map (\<lambda>worker_id. start_worker worker_id s) worker_ids)"

text \<open>At every claim, the leases of the runs in execution are live.\<close>

definition leases_kept :: "fleet_event \<Rightarrow> 'x fleet \<Rightarrow> bool" where
  "leases_kept e F =
     (case e of
        Worker i (Wake now) \<Rightarrow>
          (\<forall>w \<in> set (snd F). case wk_phase w of
             Executing ctx x \<Rightarrow> lease_live now (ctx_run_id ctx) (fst F) | _ \<Rightarrow> True)
      | _ \<Rightarrow> True)"

fun punctual :: "'x AgentRunExecutor \<Rightarrow> fleet_event list \<Rightarrow> 'x fleet \<Rightarrow> bool" where
  "punctual ex [] F = True"
| "punctual ex (e # es) F =
     (leases_kept e F \<and> (case fleet_react ex e F of None \<Rightarrow> True | Some F' \<Rightarrow> punctual ex es F'))"

section \<open>A worker sees the others as store calls\<close>

lemma later_calls: "later s t \<Longrightarrow> \<exists>cs. run_calls cs s = Some t"
proof (induction rule: later.induct)
  case (here s)
  have "run_calls [] s = Some s" by simp
  then show ?case by blast
next
  case (call s t c)
  then obtain cs where "run_calls cs s = Some t" by blast
  then have "run_calls (cs @ [c]) s = Some (after_call c t)"
    using call.hyps(2) by (induction cs arbitrary: s) (auto split: if_splits)
  then show ?case by blast
qed

lemma others_calls: "run_calls cs s = Some t \<Longrightarrow> run_events ex (map Other cs) (focus s w) = Some (focus t w)"
  by (induction cs arbitrary: s) (auto simp: focus_def split: if_splits)

lemma run_events_append:
  "run_events ex (es @ fs) w = Option.bind (run_events ex es w) (run_events ex fs)"
  by (induction es arbitrary: w) (auto split: option.split)

lemma react_worker_id: "react ex e w = Some w' \<Longrightarrow> wk_worker_id w' = wk_worker_id w"
  by (cases e)
     (auto simp: on_wake_def on_resume_def on_beat_def on_leave_def loop_head_def run_segment_def conclude_def
        shutdown_execution_def Let_def
        split: phase.splits sum.splits option.splits prod.splits if_splits executor_action.splits beat_outcome.splits)

section \<open>Owners\<close>

text \<open>A worker that owns the run it executes, and that has not crashed and is not about to.\<close>

definition sound_worker :: "runtime \<Rightarrow> 'x worker_system \<Rightarrow> bool" where
  "sound_worker s w \<longleftrightarrow>
     (case wk_phase w of
        Executing ctx x \<Rightarrow>
          (\<exists>rs. run_of s (ctx_run_id ctx) = Some rs \<and> rs_status rs = RUNNING \<and>
             rs_claimed_worker rs = Some (wk_worker_id w))
      | LeavingScope exc \<Rightarrow> exc = None
      | Crashed exc \<Rightarrow> False
      | _ \<Rightarrow> True)"

lemma focus_simps [simp]:
  "sys_rt (focus s w) = s" "wk_phase (focus s w) = wk_phase w" "wk_worker_id (focus s w) = wk_worker_id w"
  "sound_worker t (focus s w) = sound_worker t w" "focus (sys_rt w) w = w"
  by (simp_all add: focus_def sound_worker_def split: phase.split)

definition fleet_ok :: "'x fleet \<Rightarrow> bool" where
  "fleet_ok F \<longleftrightarrow>
     runtime_ok (fst F) \<and> distinct (map wk_worker_id (snd F)) \<and> (\<forall>w \<in> set (snd F). sound_worker (fst F) w)"

lemma segment_sound:
  assumes "honest ex" and "runtime_ok (sys_rt w)" and "run_of (sys_rt w) (ctx_run_id ctx) = Some rs"
    and "rs_status rs = RUNNING" and "rs_claimed_worker rs = Some (wk_worker_id w)"
  shows "sound_worker (sys_rt (run_segment ex now ctx x w)) (run_segment ex now ctx x w) \<and>
         (\<forall>k. k \<noteq> ctx_run_id ctx \<longrightarrow> run_of (sys_rt (run_segment ex now ctx x w)) k = run_of (sys_rt w) k)"
proof -
  obtain evs act where r: "ex_resume ex x (ctx_is_cancelled ctx) = (evs, act)" by fastforce
  obtain q t where m: "emit_all now ctx evs (sys_rt w) = (q, t)" by fastforce
  have "\<forall>e \<in> set evs. fst e \<notin> lifecycle_types" using assms(1) r by (metis fst_conv honest_def)
  then have "later (sys_rt w) t" using m by (rule effect_inD [OF later_emit_all])
  then have t: "runtime_ok t" "rt_runs t = rt_runs (sys_rt w)"
    using runtime_ok_later assms(2) emit_all_runs [of now ctx evs "sys_rt w"] m by auto
  have ends: "sound_worker (sys_rt (conclude now ctx u (w\<lparr> sys_rt := t \<rparr>))) (conclude now ctx u (w\<lparr> sys_rt := t \<rparr>)) \<and>
      (\<forall>k. k \<noteq> ctx_run_id ctx \<longrightarrow> run_of (sys_rt (conclude now ctx u (w\<lparr> sys_rt := t \<rparr>))) k = run_of (sys_rt w) k)" for u
    using processing.conclude_running [OF t(1) assms(3) [folded t(2)] assms(4), of now "ctx_is_cancelled ctx" u] t(2)
    by (auto simp: conclude_def sound_worker_def)
  show ?thesis
    using r m t(2) ends assms(3-5)
    by (cases q; cases act) (auto simp: run_segment_def sound_worker_def)
qed

text \<open>A step of one worker keeps it sound and leaves alone the runs that others own.\<close>

definition spared_run :: "worker_event \<Rightarrow> string \<Rightarrow> runtime \<Rightarrow> uuid \<Rightarrow> RunStatus \<Rightarrow> bool" where
  "spared_run e worker_id s k rs \<longleftrightarrow>
     run_of s k = Some rs \<and> rs_status rs = RUNNING \<and> rs_claimed_worker rs \<noteq> Some worker_id \<and>
     (case e of Wake now \<Rightarrow> lease_live now k s | _ \<Rightarrow> True)"

lemma wake_sound:
  assumes "honest ex" and "runtime_ok (sys_rt w)" and "wk_phase w = AtWait"
  shows "sound_worker (sys_rt (on_wake ex now w)) (on_wake ex now w)"
    and "spared_run (Wake now) (wk_worker_id w) (sys_rt w) k rs \<Longrightarrow> run_of (sys_rt (on_wake ex now w)) k = Some rs"
proof -
  let ?s = "snd (wait_signal None None (sys_rt w))" and ?id = "wk_worker_id w"
  obtain r q where "wait None None (rt_signal (sys_rt w)) = (r, q)" by fastforce
  then have s: "?s = sys_rt w\<lparr> rt_signal := q \<rparr>" by (simp add: wait_signal_def)
  then have ok: "runtime_ok ?s" using assms(2) by simp
  obtain c t where t: "claim_run default_policy now ?id ?s = (Inr c, t)" "runtime_ok t"
    and c: "map_option cl_id c = first_claimable now ?s"
    and run: "\<And>k. first_claimable now ?s = Some k \<Longrightarrow>
        run_of t k = map_option (\<lambda>rs. claimed_by now ?id (recovered now ?id rs)) (run_of ?s k)"
    using claim_run_summary [OF ok, of now ?id] by (fastforce split: option.splits)
  have kept: "run_of t k = Some rs" if "spared_run (Wake now) ?id (sys_rt w) k rs" for k rs
    using that live_lease_kept [OF ok, of k rs now ?id] t(1)
    by (auto simp: spared_run_def lease_live_def s)
  have "sound_worker (sys_rt (on_wake ex now w)) (on_wake ex now w) \<and>
      (\<forall>k rs. spared_run (Wake now) ?id (sys_rt w) k rs \<longrightarrow> run_of (sys_rt (on_wake ex now w)) k = Some rs)"
  proof (cases "c = None \<or> \<not> wk_execution_allowed w")
    case True
    then show ?thesis
      using t(1) kept by (auto simp: on_wake_def Let_def loop_head_def sound_worker_def split: option.splits)
  next
    case False
    then obtain cl where cl: "c = Some cl" "first_claimable now ?s = Some (cl_id cl)" using c by auto
    then obtain rs0 where "run_of ?s (cl_id cl) = Some rs0"
      unfolding first_claimable_def using find_Some_in key_map_of by metis
    then have own: "run_of t (cl_id cl) = Some (claimed_by now ?id (recovered now ?id rs0))" using run cl(2) by simp
    let ?w = "w\<lparr> sys_rt := t, wk_beating := True \<rparr>" and ?ctx = "new_execution_context (cl_id cl)"
    have seg: "on_wake ex now w = run_segment ex now ?ctx (ex_start ex) ?w"
      using t(1) cl(1) False by (simp add: on_wake_def Let_def)
    have "k \<noteq> cl_id cl" if "spared_run (Wake now) ?id (sys_rt w) k rs" for k rs
      using that kept own by (fastforce simp: spared_run_def claimed_by_def)
    then show ?thesis
      unfolding seg
      using segment_sound [OF assms(1), of ?w ?ctx _ now "ex_start ex"] t(2) own kept
      by (auto simp: new_execution_context_def claimed_by_def)
  qed
  then show "sound_worker (sys_rt (on_wake ex now w)) (on_wake ex now w)"
    and "spared_run (Wake now) ?id (sys_rt w) k rs \<Longrightarrow> run_of (sys_rt (on_wake ex now w)) k = Some rs"
    by blast+
qed

lemma beat_sound:
  assumes "runtime_ok (sys_rt w)" and "sound_worker (sys_rt w) w" and "on_beat now w = Some w'"
  shows "sound_worker (sys_rt w') w'"
    and "spared_run (Beat now) (wk_worker_id w) (sys_rt w) k rs \<Longrightarrow> run_of (sys_rt w') k = Some rs"
proof -
  obtain ctx x where ph: "wk_phase w = Executing ctx x" "wk_beating w"
    using assms(3) by (auto simp: on_beat_def split: phase.splits if_splits)
  then obtain rs0 where own: "run_of (sys_rt w) (ctx_run_id ctx) = Some rs0" "rs_status rs0 = RUNNING"
      "rs_claimed_worker rs0 = Some (wk_worker_id w)"
    using assms(2) by (auto simp: sound_worker_def)
  obtain t where t: "heartbeat_once in_memory_processing now (wk_worker_id w) (ctx_run_id ctx) (sys_rt w) =
        (Inr (if rs_cancel_requested rs0 then CancelDetected else KeepBeating), t)"
      "run_of t = (run_of (sys_rt w))(ctx_run_id ctx \<mapsto> rs0\<lparr> rs_claim_expiration := Some (get_new_expiration_ts now) \<rparr>)"
    using processing.heartbeat_once_cases [OF assms(1) own(1), of now "wk_worker_id w"] own(2,3) by auto
  show "sound_worker (sys_rt w') w'"
    using assms(3) ph t own by (auto simp: on_beat_def sound_worker_def ctx_cancel_def split: if_splits)
  show "run_of (sys_rt w') k = Some rs" if "spared_run (Beat now) (wk_worker_id w) (sys_rt w) k rs"
    using that assms(3) ph t own by (auto simp: on_beat_def spared_run_def split: if_splits)
qed

lemma react_sound:
  assumes "honest ex" and "runtime_ok (sys_rt w)" and "sound_worker (sys_rt w) w" and "\<not> is_other e"
    and r: "react ex e w = Some w'"
  shows "sound_worker (sys_rt w') w' \<and>
         (\<forall>k rs. spared_run e (wk_worker_id w) (sys_rt w) k rs \<longrightarrow> run_of (sys_rt w') k = Some rs)"
proof (cases e)
  case (Wake now)
  then show ?thesis using r wake_sound [OF assms(1,2)] by (auto split: phase.splits)
next
  case (Resume now)
  then obtain ctx x where ph: "wk_phase w = Executing ctx x" "w' = run_segment ex now ctx x w"
    using r by (auto simp: on_resume_def split: phase.splits)
  then obtain rs where own: "run_of (sys_rt w) (ctx_run_id ctx) = Some rs" "rs_status rs = RUNNING"
      "rs_claimed_worker rs = Some (wk_worker_id w)"
    using assms(3) by (auto simp: sound_worker_def)
  have "k \<noteq> ctx_run_id ctx" if "spared_run e (wk_worker_id w) (sys_rt w) k rs'" for k rs'
    using that own by (auto simp: spared_run_def)
  then show ?thesis
    using segment_sound [OF assms(1,2) own, of now x] unfolding ph(2) by (auto simp: spared_run_def)
next
  case (Beat now)
  then show ?thesis using r beat_sound [OF assms(2,3)] by auto
qed (use assms(3,4) r in \<open>auto simp: on_leave_def shutdown_execution_def loop_head_def notify_signal_def
      modify_def sound_worker_def spared_run_def ctx_cancel_def split: phase.splits option.splits if_splits\<close>)

lemma spares_all_run:
  assumes "runtime_ok s" and "spares_all c" and "call_allowed s c"
    and "run_of s k = Some rs" and "rs_status rs = RUNNING"
  shows "\<exists>rs'. run_of (after_call c s) k = Some rs' \<and> rs_status rs' = RUNNING \<and>
           rs_claimed_worker rs' = rs_claimed_worker rs"
proof (cases c)
  case (CallEmitEvent now k' ty pl)
  then show ?thesis using assms(4,5) by (simp add: emit_event_def with_log_def split: prod.split)
next
  case (CallWait u n)
  then show ?thesis using assms(4,5) by (simp add: wait_signal_def split: prod.split)
qed (use assms in \<open>auto simp: create_run_fresh mark_enqueued_cases request_cancellation_cases
       heartbeat_cases notify_signal_def modify_def split: option.split\<close>)

section \<open>Along the history of a fleet\<close>

lemma fleet_step:
  assumes "honest ex" and ok: "fleet_ok F" and "leases_kept e F" and r: "fleet_react ex e F = Some F'"
  shows "fleet_ok F'"
proof (cases e)
  case (Worker i ev)
  obtain s ws where F: "F = (s, ws)" by (cases F)
  obtain w' where i: "i < length ws" "\<not> is_other ev" and w': "react ex ev (focus s (ws ! i)) = Some w'"
      and F': "F' = (sys_rt w', ws[i := w'])"
    using r Worker F by (auto split: if_splits)
  have s: "runtime_ok (sys_rt (focus s (ws ! i)))" "sound_worker (sys_rt (focus s (ws ! i))) (focus s (ws ! i))"
    using ok i(1) by (simp_all add: fleet_ok_def F)
  note st = react_sound [OF assms(1) s i(2) w']
  have id: "wk_worker_id w' = wk_worker_id (ws ! i)" using react_worker_id [OF w'] by simp
  have "sound_worker (sys_rt w') (ws ! j)" if j: "j < length ws" "j \<noteq> i" for j
  proof -
    have sj: "sound_worker s (ws ! j)" using ok j(1) by (simp add: fleet_ok_def F)
    have ne: "wk_worker_id (ws ! j) \<noteq> wk_worker_id (ws ! i)"
      using ok i(1) j by (auto simp: fleet_ok_def F distinct_conv_nth)
    have "spared_run ev (wk_worker_id (ws ! i)) s (ctx_run_id ctx) rs"
      if "wk_phase (ws ! j) = Executing ctx x" "run_of s (ctx_run_id ctx) = Some rs" "rs_status rs = RUNNING"
        "rs_claimed_worker rs = Some (wk_worker_id (ws ! j))" for ctx x rs
      using that assms(3) j(1) ne
      by (force simp: spared_run_def leases_kept_def Worker F dest: nth_mem split: worker_event.splits)
    then show ?thesis using sj st by (fastforce simp: sound_worker_def split: phase.splits)
  qed
  then have "\<forall>w \<in> set (ws[i := w']). sound_worker (sys_rt w') w"
    using st i(1) by (auto simp: in_set_conv_nth nth_list_update)
  moreover have "runtime_ok (sys_rt w')" using later_react [OF assms(1) w'] s(1) by (rule runtime_ok_later)
  moreover have "map wk_worker_id (ws[i := w']) = map wk_worker_id ws"
    using i(1) id by (metis list_update_id map_update nth_map)
  ultimately show ?thesis using ok by (simp add: fleet_ok_def F F')
next
  case (Api c)
  obtain s ws where F: "F = (s, ws)" by (cases F)
  have c: "call_allowed s c" "spares_all c" "F' = (after_call c s, ws)" using r Api F by (auto split: if_splits)
  have "runtime_ok s" using ok by (simp add: fleet_ok_def F)
  moreover from this have "runtime_ok (after_call c s)"
    using after_call_effect [OF c(1)] by (simp add: store_effect_def)
  ultimately show ?thesis
    using ok spares_all_run [OF _ c(2,1)] unfolding fleet_ok_def F c(3)
    by (fastforce simp: sound_worker_def split: phase.splits)
qed

lemma fleet_history:
  "honest ex \<Longrightarrow> fleet_ok F \<Longrightarrow> punctual ex es F \<Longrightarrow> fleet_events ex es F = Some F' \<Longrightarrow> fleet_ok F'"
proof (induction es arbitrary: F)
  case (Cons e es)
  then obtain G where G: "fleet_react ex e F = Some G" "fleet_events ex es G = Some F'"
    by (auto simp: Option.bind_eq_Some_conv)
  then show ?case using Cons fleet_step [OF Cons.prems(1,2) _ G(1)] by simp
qed simp

lemma start_fleet_ok: "runtime_ok s \<Longrightarrow> distinct ids \<Longrightarrow> fleet_ok (start_fleet ids s)"
  by (auto simp: fleet_ok_def start_fleet_def start_worker_def loop_head_def sound_worker_def comp_def)

section \<open>Properties\<close>

text \<open>
  C5 Workers do not interfere while leases are kept: in any interleaving of any number of workers with
  different ids, their heartbeats and shutdowns and the calls of the API, in which no run is claimed
  at a time at which the lease of a run in execution has run out, no worker has crashed and no exception
  is on its way out of a lease scope; every run in execution is RUNNING and owned by its worker; and
  different workers execute different runs.
\<close>

theorem punctual_fleets_are_sound:
  assumes "honest ex" and "runtime_ok s" and "distinct ids"
    and "punctual ex es (start_fleet ids s)" and "fleet_events ex es (start_fleet ids s) = Some (t, ws)"
  shows "runtime_ok t \<and>
    (\<forall>w \<in> set ws. \<forall>exc. wk_phase w \<noteq> Crashed exc \<and> wk_phase w \<noteq> LeavingScope (Some exc)) \<and>
    (\<forall>w \<in> set ws. \<forall>ctx x. wk_phase w = Executing ctx x \<longrightarrow>
       (\<exists>rs. run_of t (ctx_run_id ctx) = Some rs \<and> rs_status rs = RUNNING \<and>
          rs_claimed_worker rs = Some (wk_worker_id w))) \<and>
    (\<forall>i < length ws. \<forall>j < length ws. \<forall>ctx x ctx' x'.
       wk_phase (ws ! i) = Executing ctx x \<longrightarrow> wk_phase (ws ! j) = Executing ctx' x' \<longrightarrow> i \<noteq> j \<longrightarrow>
       ctx_run_id ctx \<noteq> ctx_run_id ctx')"
proof -
  have ok: "fleet_ok (t, ws)"
    by (rule fleet_history [OF assms(1) start_fleet_ok [OF assms(2,3)] assms(4,5)])
  have "ctx_run_id ctx \<noteq> ctx_run_id ctx'"
    if ij: "i < length ws" "j < length ws" "i \<noteq> j" "wk_phase (ws ! i) = Executing ctx x"
      "wk_phase (ws ! j) = Executing ctx' x'" for i j ctx x ctx' x'
  proof -
    have "wk_worker_id (ws ! i) \<noteq> wk_worker_id (ws ! j)"
      using ok ij by (auto simp: fleet_ok_def distinct_conv_nth)
    moreover have "sound_worker t (ws ! i)" "sound_worker t (ws ! j)" using ok ij by (auto simp: fleet_ok_def)
    ultimately show ?thesis using ij by (auto simp: sound_worker_def)
  qed
  then show ?thesis using ok by (fastforce simp: fleet_ok_def sound_worker_def)
qed

definition example_shift :: "fleet_event list" where
  "example_shift =
     [Worker 0 (Wake 5), Worker 1 (Wake 20), Worker 0 (Resume 21), Worker 0 (Beat 30),
      Api (CallRequestCancellation 31 ''r2''), Worker 1 (Wake 40), Worker 1 (Resume 41)]"

theorem punctual_fleets_are_sound_witness:
  "\<exists>t ws. fleet_events RandomSleepRunExecutor example_shift (start_fleet [''wB'', ''wC''] example_runtime) = Some (t, ws) \<and>
     (\<exists>ctx ctx'. wk_phase (ws ! 0) = Executing ctx 2 \<and> wk_phase (ws ! 1) = Executing ctx' 2 \<and>
        ctx_run_id ctx \<noteq> ctx_run_id ctx')"
proof -
  let ?F = "start_fleet [''wB'', ''wC''] example_runtime"
  have "map_option (\<lambda>(t, ws). map (\<lambda>w. case wk_phase w of Executing ctx x \<Rightarrow> x | _ \<Rightarrow> 0) ws)
      (fleet_events RandomSleepRunExecutor example_shift ?F) = Some [2, 2]" by code_simp
  then obtain t ws where run: "fleet_events RandomSleepRunExecutor example_shift ?F = Some (t, ws)"
    and ph: "map (\<lambda>w. case wk_phase w of Executing ctx x \<Rightarrow> x | _ \<Rightarrow> 0) ws = [2, 2]"
    by auto
  have "punctual RandomSleepRunExecutor example_shift ?F" by code_simp
  from punctual_fleets_are_sound [OF honest_executors(1) example_ok _ this run]
  have "i < length ws \<Longrightarrow> j < length ws \<Longrightarrow> wk_phase (ws ! i) = Executing ctx x \<Longrightarrow>
      wk_phase (ws ! j) = Executing ctx' x' \<Longrightarrow> i \<noteq> j \<Longrightarrow> ctx_run_id ctx \<noteq> ctx_run_id ctx'" for i j ctx x ctx' x'
    by simp
  moreover obtain w0 w1 where ws: "ws = [w0, w1]" using ph by (auto simp: map_eq_Cons_conv)
  moreover obtain ctx ctx' where "wk_phase w0 = Executing ctx 2" "wk_phase w1 = Executing ctx' 2"
    using ph unfolding ws by (auto split: phase.splits)
  ultimately show ?thesis using run by (intro exI [of _ t] exI [of _ ws]) force
qed

text \<open>
  A history of a fleet is, for each of its workers, a history of that worker: its own events in
  their order, with store calls of the others in between. So what is proved of one worker next to
  arbitrary callers holds for every member.
\<close>

fun own_events :: "nat \<Rightarrow> fleet_event list \<Rightarrow> worker_event list" where
  "own_events i [] = []"
| "own_events i (Worker j e # es) = (if i = j then e # own_events i es else own_events i es)"
| "own_events i (Api c # es) = own_events i es"

lemma others_only: "filter (\<lambda>e. \<not> is_other e) (map Other cs) = []"
  by (induction cs) auto

theorem fleets_project_to_workers:
  assumes "honest ex" and "fleet_events ex es (s, ws) = Some (t, ws')" and "i < length ws"
  shows "\<exists>fs. run_events ex fs (focus s (ws ! i)) = Some (focus t (ws' ! i)) \<and>
           filter (\<lambda>e. \<not> is_other e) fs = own_events i es"
  using assms(2,3)
proof (induction es arbitrary: s ws)
  case Nil
  then show ?case by (intro exI [of _ "[]"]) simp
next
  case (Cons e es)
  then obtain u vs where G: "fleet_react ex e (s, ws) = Some (u, vs)" "fleet_events ex es (u, vs) = Some (t, ws')"
    by (auto simp: Option.bind_eq_Some_conv)
  have vs: "length vs = length ws" using G(1) by (cases e) (auto split: if_splits)
  obtain fs where fs: "run_events ex fs (focus u (vs ! i)) = Some (focus t (ws' ! i))"
      "filter (\<lambda>e. \<not> is_other e) fs = own_events i es"
    using Cons.IH [OF G(2)] Cons.prems(2) vs by auto
  obtain gs where gs: "run_events ex gs (focus s (ws ! i)) = Some (focus u (vs ! i))"
      "filter (\<lambda>e. \<not> is_other e) gs = own_events i [e]"
  proof (cases "\<exists>ev. e = Worker i ev")
    case True
    then obtain ev z where z: "e = Worker i ev" "react ex ev (focus s (ws ! i)) = Some z" "u = sys_rt z"
        "vs = ws[i := z]" "\<not> is_other ev"
      using G(1) by (auto split: if_splits)
    then have "run_events ex [ev] (focus s (ws ! i)) = Some (focus u (vs ! i))" using Cons.prems(2) by simp
    moreover have "filter (\<lambda>e. \<not> is_other e) [ev] = own_events i [e]" using z(1,5) by simp
    ultimately show ?thesis by (rule that)
  next
    case False
    have "later s u \<and> vs ! i = ws ! i \<and> own_events i [e] = []"
    proof (cases e)
      case (Worker j ev)
      then show ?thesis using False G(1) later_react [OF assms(1), of ev "focus s (ws ! j)"] by (auto split: if_splits)
    next
      case (Api c)
      then show ?thesis using G(1) by (auto split: if_splits intro: later.call later.here)
    qed
    then obtain cs where "run_calls cs s = Some u" "vs ! i = ws ! i" "own_events i [e] = []"
      using later_calls by blast
    then show ?thesis using that [of "map Other cs"] others_calls [of cs s u ex "ws ! i"] others_only by simp
  qed
  have "own_events i (e # es) = own_events i [e] @ own_events i es" by (cases e) simp_all
  then show ?case using fs gs by (intro exI [of _ "gs @ fs"]) (simp add: run_events_append)
qed

end
