(* ===== verification/Floats.thy ===== *)
theory Floats
  imports Values
begin

text \<open>
  Arithmetic on Python's floats: finite values, the infinities and NaN. The processor rounds the exact
  result of an operation on finite values, to a finite value or, on overflow, to an infinity; the
  rounding and the square root are an argument, so what is proved holds for every rounding. The sign
  of a zero is not represented: no operation of the program that raises or decides depends on it.
\<close>

section \<open>Operations\<close>

record float_unit =
  fu_round :: "rat \<Rightarrow> pyfloat"
  fu_root :: "rat \<Rightarrow> rat"

text \<open>A unit without rounding errors whose values overflow above the largest double.\<close>

definition largest_double :: rat where
  "largest_double = (2 ^ 53 - 1) * 2 ^ 971"

definition plain_unit :: float_unit where
  "plain_unit =
     \<lparr> fu_round = (\<lambda>q. if largest_double < q then PosInf else if q < - largest_double then NegInf else Fin q),
       fu_root = (\<lambda>q. q) \<rparr>"

text \<open>A unit that never rounds, for values far from the bounds.\<close>

definition exact_unit :: float_unit where
  "exact_unit = \<lparr> fu_round = Fin, fu_root = (\<lambda>q. q) \<rparr>"

definition infinity_of :: "rat \<Rightarrow> pyfloat" where
  "infinity_of sign = (if 0 < sign then PosInf else if sign < 0 then NegInf else NaN)"

fun fl_neg :: "pyfloat \<Rightarrow> pyfloat" where
  "fl_neg (Fin a) = Fin (- a)"
| "fl_neg PosInf = NegInf"
| "fl_neg NegInf = PosInf"
| "fl_neg NaN = NaN"

fun fl_abs :: "pyfloat \<Rightarrow> pyfloat" where
  "fl_abs (Fin a) = Fin \<bar>a\<bar>"
| "fl_abs NaN = NaN"
| "fl_abs _ = PosInf"

fun fl_add :: "float_unit \<Rightarrow> pyfloat \<Rightarrow> pyfloat \<Rightarrow> pyfloat" where
  "fl_add fu (Fin a) (Fin b) = fu_round fu (a + b)"
| "fl_add fu (Fin a) y = y"
| "fl_add fu x (Fin b) = x"
| "fl_add fu x y = (if x = y then x else NaN)"

definition fl_sub :: "float_unit \<Rightarrow> pyfloat \<Rightarrow> pyfloat \<Rightarrow> pyfloat" where
  "fl_sub fu x y = fl_add fu x (fl_neg y)"

text \<open>The sign of a factor; NaN has none, and makes every product NaN.\<close>

fun fl_sign :: "pyfloat \<Rightarrow> rat" where
  "fl_sign (Fin a) = (if 0 < a then 1 else if a < 0 then - 1 else 0)"
| "fl_sign PosInf = 1"
| "fl_sign NegInf = - 1"
| "fl_sign NaN = 0"

fun fl_mul :: "float_unit \<Rightarrow> pyfloat \<Rightarrow> pyfloat \<Rightarrow> pyfloat" where
  "fl_mul fu (Fin a) (Fin b) = fu_round fu (a * b)"
| "fl_mul fu x y = infinity_of (fl_sign x * fl_sign y)"

text \<open>
  Division raises exactly for a zero divisor. Squaring (\<open>x ** 2\<close>) raises, unlike the other operations,
  when the square of a finite value is out of range.
\<close>

definition zero_division :: exn where
  "zero_division = OtherError ''float division by zero''"

definition out_of_range :: exn where
  "out_of_range = OverflowError (''(34, '' @ [CHR 0x27] @ ''Numerical result out of range'' @ [CHR 0x27] @ '')'')"

fun fl_div :: "float_unit \<Rightarrow> pyfloat \<Rightarrow> pyfloat \<Rightarrow> exn + pyfloat" where
  "fl_div fu (Fin a) (Fin b) = (if b = 0 then Inl zero_division else Inr (fu_round fu (a / b)))"
| "fl_div fu x (Fin b) =
     (if b = 0 then Inl zero_division
      else Inr (if x = NaN then NaN else infinity_of (fl_sign x * fl_sign (Fin b))))"
| "fl_div fu x NaN = Inr NaN"
| "fl_div fu (Fin a) y = Inr (Fin 0)"
| "fl_div fu x y = Inr NaN"

fun fl_square :: "float_unit \<Rightarrow> pyfloat \<Rightarrow> exn + pyfloat" where
  "fl_square fu (Fin a) = (case fu_round fu (a ^ 2) of Fin b \<Rightarrow> Inr (Fin b) | _ \<Rightarrow> Inl out_of_range)"
| "fl_square fu NaN = Inr NaN"
| "fl_square fu _ = Inr PosInf"

text \<open>\<open>x ** 0.5\<close> of a value that is not negative.\<close>

fun fl_root :: "float_unit \<Rightarrow> pyfloat \<Rightarrow> pyfloat" where
  "fl_root fu (Fin a) = Fin (fu_root fu a)"
| "fl_root fu NaN = NaN"
| "fl_root fu _ = PosInf"

fun fl_less :: "pyfloat \<Rightarrow> pyfloat \<Rightarrow> bool" where
  "fl_less (Fin a) (Fin b) = (a < b)"
| "fl_less (Fin a) y = (y = PosInf)"
| "fl_less NegInf y = (y \<noteq> NegInf \<and> y \<noteq> NaN)"
| "fl_less _ _ = False"

definition fl_le :: "pyfloat \<Rightarrow> pyfloat \<Rightarrow> bool" where
  "fl_le x y \<longleftrightarrow> fl_less x y \<or> (x = y \<and> x \<noteq> NaN)"

section \<open>The order\<close>

lemma fl_less_irrefl [simp]: "\<not> fl_less x x"
  by (cases x) auto

lemma fl_less_trans: "fl_less x y \<Longrightarrow> fl_less y z \<Longrightarrow> fl_less x z"
  by (cases x; cases y; cases z) auto

lemma fl_less_asym: "fl_less x y \<Longrightarrow> \<not> fl_less y x"
  using fl_less_trans fl_less_irrefl by blast

lemma fl_less_NaN [simp]: "\<not> fl_less NaN x" "\<not> fl_less x NaN"
  by (cases x; simp)+

text \<open>Numbers other than NaN are in a total order.\<close>

lemma fl_less_total: "x \<noteq> NaN \<Longrightarrow> y \<noteq> NaN \<Longrightarrow> fl_less x y \<or> x = y \<or> fl_less y x"
  by (cases x; cases y) auto

lemma fl_div_raises: "(\<exists>e. fl_div fu x y = Inl e) \<longleftrightarrow> y = Fin 0"
  by (cases x; cases y) auto

lemma fl_div_total: "y \<noteq> Fin 0 \<Longrightarrow> \<exists>q. fl_div fu x y = Inr q"
  using fl_div_raises [of fu x y] by (cases "fl_div fu x y") auto

lemma fl_div_zero: "fl_div fu x (Fin 0) = Inl zero_division"
  by (cases x) auto

lemma fl_square_raises: "(\<exists>e. fl_square fu x = Inl e) \<longleftrightarrow> (\<exists>a. x = Fin a \<and> fu_round fu (a ^ 2) \<notin> range Fin)"
  by (cases x) (auto split: pyfloat.splits)

lemma fl_square_error: "fl_square fu x = Inl e \<Longrightarrow> e = out_of_range"
  by (cases x) (auto split: pyfloat.splits)

end
