(* ===== verification/GeneticSearch.thy ===== *)
theory GeneticSearch
  imports Floats
begin

text \<open>
  The genetic search for a throttle sequence (\<open>infrastructure/navigation/path_finders/genetic.py\<close>) with
  its data (\<open>domain/genetic_path\<close>). The random generator is part of the state; the readings of the
  monotonic clock are an argument, and so is the rounding of the processor. The decimal constants of
  a configuration are exact.
\<close>

section \<open>Data\<close>

record GeneticConfiguration =
  gc_max_sequence_length :: int
  gc_population_size :: int
  gc_num_generations :: int
  gc_mutation_rate :: rat
  gc_num_best_parents :: int
  gc_num_worst_parents :: int
  gc_speed_threshold :: rat
  gc_throttle_range :: "int \<times> int"
  gc_distance_weight :: rat
  gc_speed_weight :: rat
  gc_length_weight :: rat
  gc_nonzero_weight :: rat
  gc_timeout_ms :: rat

definition default_genetic_configuration :: GeneticConfiguration where
  "default_genetic_configuration =
     \<lparr> gc_max_sequence_length = 100, gc_population_size = 600, gc_num_generations = 300,
       gc_mutation_rate = 1 / 10, gc_num_best_parents = 20, gc_num_worst_parents = 10,
       gc_speed_threshold = 5, gc_throttle_range = (0, 300), gc_distance_weight = 1,
       gc_speed_weight = 1 / 2, gc_length_weight = 1 / 100, gc_nonzero_weight = 1 / 100,
       gc_timeout_ms = 1000 \<rparr>"

record FitnessScore =
  fs_score :: pyfloat
  fs_distance_diff :: pyfloat
  fs_speed_penalty :: pyfloat
  fs_length_penalty :: int

record ThrottleCalculationInput =
  ti_v0 :: pyfloat
  ti_mass :: pyfloat
  ti_friction :: pyfloat
  ti_d_target :: pyfloat

record ThrottleSequenceGeneticResult =
  tr_sequence :: "int list option"
  tr_fitness_score :: "FitnessScore option"

section \<open>Random choices\<close>

text \<open>
  The generator is a position in a sequence of numbers; as the sequence varies, every outcome that
  the library can give occurs: each number of a range, each ordered choice of distinct members, each
  multiple of \<open>2 ^ -53\<close> below one.
\<close>

record rng =
  rn_source :: "nat \<Rightarrow> nat"
  rn_position :: nat

definition draw :: "(rng, nat) prog" where
  "draw = (\<lambda>r. (Inr (rn_source r (rn_position r)), r\<lparr> rn_position := Suc (rn_position r) \<rparr>))"

definition randint :: "int \<Rightarrow> int \<Rightarrow> (rng, int) prog" where
  "randint a b =
     (if b < a then throw (ValueError ''empty range for randint'')
      else bindM draw (\<lambda>n. ret (a + int n mod (b - a + 1))))"

definition random :: "(rng, rat) prog" where
  "random = bindM draw (\<lambda>n. ret (of_int (int n mod 2 ^ 53) / 2 ^ 53))"

fun draw_members :: "nat \<Rightarrow> 'a list \<Rightarrow> (rng, 'a list) prog" where
  "draw_members 0 xs = ret []"
| "draw_members (Suc k) xs =
     bindM draw (\<lambda>n.
     let i = n mod length xs in
     bindM (draw_members k (take i xs @ drop (Suc i) xs)) (\<lambda>chosen. ret (xs ! i # chosen)))"

definition sample :: "'a list \<Rightarrow> int \<Rightarrow> (rng, 'a list) prog" where
  "sample population k =
     (if k < 0 \<or> int (length population) < k
      then throw (ValueError ''Sample larger than population or is negative'')
      else draw_members (nat k) population)"

section \<open>The motion of a unit\<close>

definition calculate_velocity :: "float_unit \<Rightarrow> pyfloat \<Rightarrow> pyfloat \<Rightarrow> pyfloat \<Rightarrow> pyfloat \<Rightarrow> exn + pyfloat" where
  "calculate_velocity fu v0 throttle m f =
     map_sum id (\<lambda>q. fl_mul fu (fl_add fu v0 q) (fl_sub fu (Fin 1) f)) (fl_div fu throttle m)"

fun total_distance_loop ::
    "float_unit \<Rightarrow> pyfloat \<Rightarrow> pyfloat \<Rightarrow> int list \<Rightarrow> pyfloat \<Rightarrow> pyfloat \<Rightarrow> exn + pyfloat \<times> pyfloat" where
  "total_distance_loop fu so_far velocity [] m f = Inr (so_far, velocity)"
| "total_distance_loop fu so_far velocity (throttle # throttles) m f =
     (case calculate_velocity fu velocity (Fin (of_int throttle)) m f of
        Inl e \<Rightarrow> Inl e
      | Inr v \<Rightarrow> total_distance_loop fu (fl_add fu so_far v) v throttles m f)"

definition calculate_total_distance ::
    "float_unit \<Rightarrow> pyfloat \<Rightarrow> int list \<Rightarrow> pyfloat \<Rightarrow> pyfloat \<Rightarrow> exn + pyfloat \<times> pyfloat" where
  "calculate_total_distance fu v0 throttles m f = total_distance_loop fu (Fin 0) v0 throttles m f"

fun distance_velocity_loop ::
    "float_unit \<Rightarrow> pyfloat \<Rightarrow> pyfloat \<Rightarrow> pyfloat \<Rightarrow> pyfloat \<Rightarrow> int list \<Rightarrow> exn + (pyfloat \<times> pyfloat) list" where
  "distance_velocity_loop fu distance velocity m f [] = Inr []"
| "distance_velocity_loop fu distance velocity m f (throttle # throttles) =
     (case calculate_velocity fu velocity (Fin (of_int throttle)) m f of
        Inl e \<Rightarrow> Inl e
      | Inr v \<Rightarrow> map_sum id (\<lambda>rest. (fl_add fu distance v, v) # rest)
                   (distance_velocity_loop fu (fl_add fu distance v) v m f throttles))"

definition get_distance_for_throttles_velocities ::
    "float_unit \<Rightarrow> pyfloat \<Rightarrow> pyfloat \<Rightarrow> pyfloat \<Rightarrow> int list \<Rightarrow> pyfloat \<Rightarrow> exn + (pyfloat \<times> pyfloat) list" where
  "get_distance_for_throttles_velocities fu v0 m f throttles start_position =
     map_sum id (\<lambda>rest. (start_position, v0) # rest) (distance_velocity_loop fu start_position v0 m f throttles)"

definition score_of ::
    "float_unit \<Rightarrow> GeneticConfiguration \<Rightarrow> pyfloat \<Rightarrow> int list \<Rightarrow> pyfloat \<times> pyfloat \<Rightarrow> FitnessScore" where
  "score_of fu cfg d_target throttles motion =
     (let (total_distance, final_speed) = motion;
          distance_diff = fl_abs (fl_sub fu d_target total_distance);
          v_threshold = Fin (gc_speed_threshold cfg);
          speed_penalty =
            (if fl_le (Fin 0) final_speed \<and> fl_le final_speed v_threshold then Fin 0
             else fl_abs (fl_sub fu final_speed v_threshold));
          length_penalty = int (length throttles);
          nonzero_count = int (length throttles) - int (count_list throttles 0) in
      \<lparr> fs_score =
          fl_add fu
            (fl_add fu
              (fl_add fu
                (fl_mul fu (Fin (gc_distance_weight cfg)) distance_diff)
                (fl_mul fu (Fin (gc_speed_weight cfg)) speed_penalty))
              (fl_mul fu (Fin (gc_length_weight cfg)) (Fin (of_int length_penalty))))
            (fl_mul fu (Fin (of_int nonzero_count)) (Fin (gc_nonzero_weight cfg))),
        fs_distance_diff = distance_diff, fs_speed_penalty = speed_penalty,
        fs_length_penalty = length_penalty \<rparr>)"

definition fitness ::
    "float_unit \<Rightarrow> GeneticConfiguration \<Rightarrow> ThrottleCalculationInput \<Rightarrow> int list \<Rightarrow> exn + FitnessScore" where
  "fitness fu cfg inp throttles =
     map_sum id (score_of fu cfg (ti_d_target inp) throttles)
       (calculate_total_distance fu (ti_v0 inp) throttles (ti_mass inp) (ti_friction inp))"

fun fitness_all ::
    "float_unit \<Rightarrow> GeneticConfiguration \<Rightarrow> ThrottleCalculationInput \<Rightarrow> int list list \<Rightarrow> exn + FitnessScore list" where
  "fitness_all fu cfg inp [] = Inr []"
| "fitness_all fu cfg inp (throttles # population) =
     (case fitness fu cfg inp throttles of
        Inl e \<Rightarrow> Inl e
      | Inr s \<Rightarrow> map_sum id (\<lambda>scores. s # scores) (fitness_all fu cfg inp population))"

section \<open>Generations\<close>

text \<open>A program run a number of times, and once for each element of a list.\<close>

fun repeat_prog :: "nat \<Rightarrow> (rng, 'a) prog \<Rightarrow> (rng, 'a list) prog" where
  "repeat_prog 0 m = ret []"
| "repeat_prog (Suc n) m = bindM m (\<lambda>x. bindM (repeat_prog n m) (\<lambda>xs. ret (x # xs)))"

fun for_each :: "('a \<Rightarrow> (rng, 'b) prog) \<Rightarrow> 'a list \<Rightarrow> (rng, 'b list) prog" where
  "for_each f [] = ret []"
| "for_each f (x # xs) = bindM (f x) (\<lambda>y. bindM (for_each f xs) (\<lambda>ys. ret (y # ys)))"

definition random_sequence :: "int \<Rightarrow> int \<times> int \<Rightarrow> (rng, int list) prog" where
  "random_sequence max_t throttle_range =
     bindM (randint 1 max_t) (\<lambda>n.
       repeat_prog (nat n) (randint (fst throttle_range) (snd throttle_range)))"

definition generate_initial_population :: "int \<Rightarrow> int \<Rightarrow> int \<times> int \<Rightarrow> (rng, int list list) prog" where
  "generate_initial_population pop_size max_t throttle_range =
     repeat_prog (nat pop_size) (random_sequence max_t throttle_range)"

text \<open>
  \<open>sorted(..., key=...)\<close> by score. Scores without NaN are in a total order, and the sort is stable; in
  what order it leaves a list with NaN among its keys, Python leaves open: it is any order, drawn like
  the other choices.
\<close>

fun insert_scored :: "int list \<times> FitnessScore \<Rightarrow> (int list \<times> FitnessScore) list \<Rightarrow> (int list \<times> FitnessScore) list" where
  "insert_scored x [] = [x]"
| "insert_scored x (y # ys) =
     (if fl_le (fs_score (snd x)) (fs_score (snd y)) then x # y # ys else y # insert_scored x ys)"

definition sorted_by_score :: "(int list \<times> FitnessScore) list \<Rightarrow> (rng, (int list \<times> FitnessScore) list) prog" where
  "sorted_by_score xs =
     (if list_ex (\<lambda>x. fs_score (snd x) = NaN) xs then draw_members (length xs) xs
      else ret (foldr insert_scored xs []))"

definition select_best_parents ::
    "int list list \<Rightarrow> FitnessScore list \<Rightarrow> int \<Rightarrow> (rng, int list list) prog" where
  "select_best_parents population fitnesses num_parents =
     bindM (sorted_by_score (zip population fitnesses)) (\<lambda>parents. ret (map fst (slice_to num_parents parents)))"

definition select_random_parents :: "int list list \<Rightarrow> int \<Rightarrow> (rng, int list list) prog" where
  "select_random_parents population num_parents = sample population num_parents"

definition crossover :: "int list \<Rightarrow> int list \<Rightarrow> int \<Rightarrow> (rng, int list) prog" where
  "crossover parent1 parent2 max_allowed_length =
     bindM (randint 1 (int (length parent1))) (\<lambda>crossover_point1.
     bindM (randint 1 (int (length parent2))) (\<lambda>crossover_point2.
     let child = take (nat crossover_point1) parent1 @ drop (nat crossover_point2) parent2 in
     ret (if max_allowed_length \<le> int (length child) then slice_to max_allowed_length child else child)))"

definition mutate_gene :: "int \<times> int \<Rightarrow> rat \<Rightarrow> int \<Rightarrow> (rng, int) prog" where
  "mutate_gene throttle_range mutation_rate throttle =
     bindM random (\<lambda>x.
       if x < mutation_rate then randint (fst throttle_range) (snd throttle_range) else ret throttle)"

definition mutate :: "int \<times> int \<Rightarrow> rat \<Rightarrow> int list \<Rightarrow> (rng, int list) prog" where
  "mutate throttle_range mutation_rate throttle_sequence =
     bindM (for_each (mutate_gene throttle_range mutation_rate) throttle_sequence) (\<lambda>mutated.
     bindM random (\<lambda>x.
     if x < mutation_rate \<and> 1 < length mutated then
       bindM (randint 0 (int (length mutated) - 1)) (\<lambda>delete_pos.
       ret (take (nat delete_pos) mutated @ drop (Suc (nat delete_pos)) mutated))
     else ret mutated))"

definition breed :: "GeneticConfiguration \<Rightarrow> int list list \<Rightarrow> (rng, int list) prog" where
  "breed cfg all_parents =
     bindM (sample all_parents 2) (\<lambda>parents.
       crossover (parents ! 0) (parents ! 1) (gc_max_sequence_length cfg))"

definition next_generation ::
    "GeneticConfiguration \<Rightarrow> int list list \<Rightarrow> FitnessScore list \<Rightarrow> (rng, int list list) prog" where
  "next_generation cfg population fitness_scores =
     bindM (select_best_parents population fitness_scores (gc_num_best_parents cfg)) (\<lambda>best_parents.
     bindM (select_random_parents population (gc_num_worst_parents cfg)) (\<lambda>worst_parents.
     bindM (repeat_prog (nat (gc_population_size cfg)) (breed cfg (best_parents @ worst_parents)))
       (for_each (mutate (gc_throttle_range cfg) (gc_mutation_rate cfg)))))"

section \<open>The search\<close>

text \<open>
  \<open>min(scores, key=...)\<close> keeps the first score until a later one is less; and \<open>scores.index(score)\<close>.
  A best score of NaN is the first of the list, where \<open>index\<close> finds the object itself.
\<close>

fun least_from :: "FitnessScore \<Rightarrow> FitnessScore list \<Rightarrow> FitnessScore" where
  "least_from best [] = best"
| "least_from best (s # scores) =
     least_from (if fl_less (fs_score s) (fs_score best) then s else best) scores"

fun first_least :: "FitnessScore list \<Rightarrow> FitnessScore option" where
  "first_least [] = None"
| "first_least (s # scores) = Some (least_from s scores)"

fun index_of :: "'a list \<Rightarrow> 'a \<Rightarrow> nat" where
  "index_of [] x = 0"
| "index_of (y # ys) x = (if y = x then 0 else Suc (index_of ys x))"

definition best_individual ::
    "int list list \<Rightarrow> FitnessScore list \<Rightarrow> exn + ThrottleSequenceGeneticResult" where
  "best_individual population fitness_scores =
     (case first_least fitness_scores of
        None \<Rightarrow> Inl (ValueError ''min() iterable argument is empty'')
      | Some best_fitness \<Rightarrow>
          Inr \<lparr> tr_sequence = Some (population ! index_of fitness_scores best_fitness),
                tr_fitness_score = Some best_fitness \<rparr>)"

text \<open>
  The loop over the generations still to go. \<open>clock\<close> gives the readings of the monotonic clock in
  nanoseconds: reading 0 before the loop, reading \<open>g + 1\<close> at the end of generation \<open>g\<close>.
\<close>

definition elapsed_ms :: "(nat \<Rightarrow> int) \<Rightarrow> nat \<Rightarrow> rat" where
  "elapsed_ms clock generation = of_int (clock (Suc generation)) / 1000000 - of_int (clock 0) / 1000000"

fun generations_loop ::
    "float_unit \<Rightarrow> GeneticConfiguration \<Rightarrow> ThrottleCalculationInput \<Rightarrow> (nat \<Rightarrow> int) \<Rightarrow> nat \<Rightarrow> nat \<Rightarrow> int list list \<Rightarrow>
     ThrottleSequenceGeneticResult \<Rightarrow> (rng, ThrottleSequenceGeneticResult) prog" where
  "generations_loop fu cfg inp clock 0 generation population best = ret best"
| "generations_loop fu cfg inp clock (Suc n) generation population best =
     bindM (liftE (fitness_all fu cfg inp population)) (\<lambda>fitness_scores.
     bindM (next_generation cfg population fitness_scores) (\<lambda>children.
     bindM (liftE (best_individual population fitness_scores)) (\<lambda>best.
     if gc_timeout_ms cfg \<le> elapsed_ms clock generation then ret best
     else generations_loop fu cfg inp clock n (Suc generation) children best)))"

definition find_optimal_throttle_sequence ::
    "float_unit \<Rightarrow> ThrottleCalculationInput \<Rightarrow> GeneticConfiguration \<Rightarrow> (nat \<Rightarrow> int) \<Rightarrow>
     (rng, ThrottleSequenceGeneticResult) prog" where
  "find_optimal_throttle_sequence fu inp cfg clock =
     bindM (generate_initial_population (gc_population_size cfg) (gc_max_sequence_length cfg)
              (gc_throttle_range cfg)) (\<lambda>population.
     generations_loop fu cfg inp clock (nat (gc_num_generations cfg)) 0 population
       \<lparr> tr_sequence = None, tr_fitness_score = None \<rparr>)"

section \<open>Programs that return whatever is drawn\<close>

definition yields :: "('s \<Rightarrow> ('e + 'a) \<times> 's) \<Rightarrow> ('a \<Rightarrow> bool) \<Rightarrow> bool" where
  "yields m Q \<longleftrightarrow> (\<forall>r. \<exists>x r'. m r = (Inr x, r') \<and> Q x)"

named_theorems yields_rules \<open>rules for programs that return\<close>

lemma yieldsD: "yields m Q \<Longrightarrow> \<exists>x r'. m r = (Inr x, r') \<and> Q x"
  by (simp add: yields_def)

lemma yields_weaken: "yields m P \<Longrightarrow> (\<And>x. P x \<Longrightarrow> Q x) \<Longrightarrow> yields m Q"
  unfolding yields_def by metis

lemma yields_ret [yields_rules]: "Q x \<Longrightarrow> yields (ret x) Q"
  by (simp add: yields_def ret_def)

lemma yields_bind:
  assumes "yields m P" and "\<And>x. P x \<Longrightarrow> yields (f x) Q"
  shows "yields (bindM m f) Q"
  unfolding yields_def
proof
  fix r
  obtain x r' where m: "m r = (Inr x, r')" "P x" using yieldsD [OF assms(1)] by blast
  obtain y r'' where "f x r' = (Inr y, r'')" "Q y" using yieldsD [OF assms(2) [OF m(2)]] by blast
  then show "\<exists>y r'. bindM m f r = (Inr y, r') \<and> Q y" using m by (simp add: bindM_def)
qed

lemma yields_if [yields_rules]:
  "(b \<Longrightarrow> yields m Q) \<Longrightarrow> (\<not> b \<Longrightarrow> yields n Q) \<Longrightarrow> yields (if b then m else n) Q"
  by simp

lemma yields_liftE: "r = Inr x \<Longrightarrow> Q x \<Longrightarrow> yields (liftE r) Q"
  by (simp add: yields_def liftE_def)

lemma yields_draw: "yields draw (\<lambda>n. True)"
  by (simp add: yields_def draw_def)

lemma yields_randint: "a \<le> b \<Longrightarrow> yields (randint a b) (\<lambda>x. a \<le> x \<and> x \<le> b)"
proof -
  assume ab: "a \<le> b"
  have "a + n mod (b - a + 1) \<le> b" if "0 \<le> n" for n :: int
    using pos_mod_bound [of "b - a + 1" n] ab by linarith
  then show ?thesis using ab unfolding randint_def
    by (auto intro!: yields_bind [OF yields_draw] yields_ret)
qed

lemma yields_random: "yields random (\<lambda>x. 0 \<le> x \<and> x < 1)"
proof -
  have "(of_int (int n mod 2 ^ 53) :: rat) < 2 ^ 53 \<and> (0 :: rat) \<le> of_int (int n mod 2 ^ 53)" for n :: nat
    by (metis of_int_0_le_iff of_int_less_iff of_int_numeral of_int_power pos_mod_bound pos_mod_sign zero_less_numeral
        zero_less_power)
  then show ?thesis unfolding random_def by (auto intro!: yields_bind [OF yields_draw] yields_ret)
qed

lemma yields_draw_members:
  "k \<le> length xs \<Longrightarrow> yields (draw_members k xs) (\<lambda>ys. length ys = k \<and> set ys \<subseteq> set xs)"
proof (induction k xs rule: draw_members.induct)
  case (1 xs)
  then show ?case by (simp add: yields_ret)
next
  case (2 k xs)
  have "yields (let i = n mod length xs in
      bindM (draw_members k (take i xs @ drop (Suc i) xs)) (\<lambda>chosen. ret (xs ! i # chosen)))
    (\<lambda>ys. length ys = Suc k \<and> set ys \<subseteq> set xs)" for n
  proof -
    define i where "i = n mod length xs"
    have i: "i < length xs" using 2(2) by (auto simp: i_def intro: mod_less_divisor)
    then have "k \<le> length (take i xs @ drop (Suc i) xs)" using 2(2) by simp
    from 2(1) [OF i_def this]
    have "yields (draw_members k (take i xs @ drop (Suc i) xs))
        (\<lambda>ys. length ys = k \<and> set ys \<subseteq> set (take i xs @ drop (Suc i) xs))" .
    then show ?thesis unfolding Let_def i_def [symmetric]
      by (rule yields_bind)
         (use i set_take_subset [of i xs] set_drop_subset [of "Suc i" xs] in \<open>force intro!: yields_ret\<close>)
  qed
  then show ?case by (simp only: draw_members.simps) (rule yields_bind [OF yields_draw])
qed

lemma yields_sample:
  assumes "0 \<le> k" and "k \<le> int (length xs)"
  shows "yields (sample xs k) (\<lambda>ys. length ys = nat k \<and> set ys \<subseteq> set xs)"
  using assms yields_draw_members [of "nat k" xs] by (simp add: sample_def nat_le_iff)

lemma yields_repeat:
  assumes "yields m P"
  shows "yields (repeat_prog n m) (\<lambda>xs. length xs = n \<and> (\<forall>x \<in> set xs. P x))"
proof (induction n)
  case (Suc n)
  show ?case by (simp only: repeat_prog.simps)
      (rule yields_bind [OF assms], rule yields_bind [OF Suc], rule yields_ret, simp)
qed (simp add: yields_ret)

lemma yields_for_each:
  assumes "\<And>x. x \<in> set xs \<Longrightarrow> yields (f x) Q"
  shows "yields (for_each f xs) (\<lambda>ys. length ys = length xs \<and> (\<forall>y \<in> set ys. Q y))"
  using assms
proof (induction xs)
  case (Cons x xs)
  have "yields (f x) Q" using Cons.prems by simp
  moreover have "yields (for_each f xs) (\<lambda>ys. length ys = length xs \<and> (\<forall>y \<in> set ys. Q y))"
    using Cons by simp
  ultimately show ?case
    by (simp only: for_each.simps) (rule yields_bind, assumption, rule yields_bind, assumption, rule yields_ret, simp)
qed (simp add: yields_ret)

section \<open>Individuals and populations\<close>

definition configuration_ok :: "GeneticConfiguration \<Rightarrow> bool" where
  "configuration_ok cfg \<longleftrightarrow>
     1 \<le> gc_max_sequence_length cfg \<and> 1 \<le> gc_population_size cfg \<and> 1 \<le> gc_num_generations cfg \<and>
     fst (gc_throttle_range cfg) \<le> snd (gc_throttle_range cfg) \<and>
     0 \<le> gc_num_best_parents cfg \<and> 0 \<le> gc_num_worst_parents cfg \<and>
     gc_num_worst_parents cfg \<le> gc_population_size cfg \<and>
     2 \<le> min (gc_num_best_parents cfg) (gc_population_size cfg) + gc_num_worst_parents cfg"

definition in_range :: "GeneticConfiguration \<Rightarrow> int \<Rightarrow> bool" where
  "in_range cfg t \<longleftrightarrow> fst (gc_throttle_range cfg) \<le> t \<and> t \<le> snd (gc_throttle_range cfg)"

definition individual_ok :: "GeneticConfiguration \<Rightarrow> int list \<Rightarrow> bool" where
  "individual_ok cfg xs \<longleftrightarrow>
     xs \<noteq> [] \<and> int (length xs) \<le> gc_max_sequence_length cfg \<and> (\<forall>t \<in> set xs. in_range cfg t)"

definition population_ok :: "GeneticConfiguration \<Rightarrow> int list list \<Rightarrow> bool" where
  "population_ok cfg population \<longleftrightarrow>
     int (length population) = gc_population_size cfg \<and> (\<forall>xs \<in> set population. individual_ok cfg xs)"

lemma yields_in_range:
  "configuration_ok cfg \<Longrightarrow>
     yields (randint (fst (gc_throttle_range cfg)) (snd (gc_throttle_range cfg))) (in_range cfg)"
  unfolding in_range_def by (rule yields_randint) (simp add: configuration_ok_def)

lemma yields_random_sequence:
  assumes "configuration_ok cfg"
  shows "yields (random_sequence (gc_max_sequence_length cfg) (gc_throttle_range cfg)) (individual_ok cfg)"
  unfolding random_sequence_def
proof (rule yields_bind [OF yields_randint])
  show "1 \<le> gc_max_sequence_length cfg" using assms by (simp add: configuration_ok_def)
  fix n
  assume "1 \<le> n \<and> n \<le> gc_max_sequence_length cfg"
  then show "yields (repeat_prog (nat n) (randint (fst (gc_throttle_range cfg)) (snd (gc_throttle_range cfg))))
      (individual_ok cfg)"
    using yields_in_range [OF assms]
    by (intro yields_weaken [OF yields_repeat]) (auto simp: individual_ok_def)
qed

lemma yields_initial_population:
  assumes "configuration_ok cfg"
  shows "yields (generate_initial_population (gc_population_size cfg) (gc_max_sequence_length cfg)
    (gc_throttle_range cfg)) (population_ok cfg)"
  unfolding generate_initial_population_def
  by (rule yields_weaken [OF yields_repeat [OF yields_random_sequence [OF assms]]])
     (use assms in \<open>auto simp: population_ok_def configuration_ok_def\<close>)

lemma yields_crossover:
  assumes "configuration_ok cfg" and "individual_ok cfg p" and "individual_ok cfg q"
  shows "yields (crossover p q (gc_max_sequence_length cfg)) (individual_ok cfg)"
proof -
  have len: "1 \<le> int (length p)" "1 \<le> int (length q)"
    using assms(2,3) by (auto simp: individual_ok_def Suc_le_eq)
  show ?thesis
    unfolding crossover_def Let_def
  proof (rule yields_bind [OF yields_randint [OF len(1)]], rule yields_bind [OF yields_randint [OF len(2)]],
      rule yields_ret)
    fix c d
    assume c: "1 \<le> c \<and> c \<le> int (length p)" and d: "1 \<le> d \<and> d \<le> int (length q)"
    define child where "child = take (nat c) p @ drop (nat d) q"
    have "child \<noteq> []" "\<forall>t \<in> set child. in_range cfg t"
      using c assms(2,3) by (auto simp: child_def individual_ok_def dest: in_set_takeD in_set_dropD)
    then show "individual_ok cfg
        (if gc_max_sequence_length cfg \<le> int (length (take (nat c) p @ drop (nat d) q))
         then slice_to (gc_max_sequence_length cfg) (take (nat c) p @ drop (nat d) q)
         else take (nat c) p @ drop (nat d) q)"
      using assms(1) set_slice_to unfolding child_def [symmetric]
      by (auto simp: individual_ok_def configuration_ok_def slice_to_def dest: in_set_takeD)
  qed
qed

lemma yields_mutate_gene:
  assumes "configuration_ok cfg" and "in_range cfg t"
  shows "yields (mutate_gene (gc_throttle_range cfg) (gc_mutation_rate cfg) t) (in_range cfg)"
  unfolding mutate_gene_def
  by (rule yields_bind [OF yields_random], rule yields_if)
     (auto intro: yields_in_range yields_ret assms)

lemma yields_mutate:
  assumes "configuration_ok cfg" and "individual_ok cfg xs"
  shows "yields (mutate (gc_throttle_range cfg) (gc_mutation_rate cfg) xs) (individual_ok cfg)"
  unfolding mutate_def
proof (rule yields_bind [OF yields_for_each])
  fix t
  assume "t \<in> set xs"
  then show "yields (mutate_gene (gc_throttle_range cfg) (gc_mutation_rate cfg) t) (in_range cfg)"
    using assms by (intro yields_mutate_gene) (auto simp: individual_ok_def)
next
  fix ys
  assume "length ys = length xs \<and> (\<forall>y \<in> set ys. in_range cfg y)"
  then have ys: "individual_ok cfg ys" using assms(2) by (auto simp: individual_ok_def)
  have shorter: "individual_ok cfg (take (nat d) ys @ drop (Suc (nat d)) ys)"
    if "0 \<le> d" and "d < int (length ys)" and "Suc 0 < length ys" for d
  proof -
    have "length (take (nat d) ys @ drop (Suc (nat d)) ys) = length ys - 1" using that by auto
    then show ?thesis using ys that(3) set_take_subset [of "nat d" ys] set_drop_subset [of "Suc (nat d)" ys]
      unfolding individual_ok_def by (intro conjI) (auto simp: subset_iff)
  qed
  show "yields (bindM random (\<lambda>x.
      if x < gc_mutation_rate cfg \<and> 1 < length ys then
        bindM (randint 0 (int (length ys) - 1)) (\<lambda>delete_pos.
        ret (take (nat delete_pos) ys @ drop (Suc (nat delete_pos)) ys))
      else ret ys)) (individual_ok cfg)"
    by (rule yields_bind [OF yields_random], rule yields_if, rule yields_bind [OF yields_randint])
       (auto intro: yields_ret shorter ys)
qed

lemma yields_breed:
  assumes "configuration_ok cfg" and "2 \<le> length parents" and "\<forall>p \<in> set parents. individual_ok cfg p"
  shows "yields (breed cfg parents) (individual_ok cfg)"
  unfolding breed_def
proof (rule yields_bind [OF yields_sample])
  fix ps :: "int list list"
  assume "length ps = nat 2 \<and> set ps \<subseteq> set parents"
  then have "ps ! 0 \<in> set parents" "ps ! 1 \<in> set parents" by (auto simp: subset_iff)
  then show "yields (crossover (ps ! 0) (ps ! 1) (gc_max_sequence_length cfg)) (individual_ok cfg)"
    using assms by (intro yields_crossover) auto
qed (use assms(2) in auto)

lemma insert_scored_members: "set (insert_scored x xs) = insert x (set xs)" "length (insert_scored x xs) = Suc (length xs)"
  by (induction xs) auto

lemma sorted_members: "set (foldr insert_scored xs []) = set xs" "length (foldr insert_scored xs []) = length xs"
  by (induction xs) (auto simp: insert_scored_members)

lemma yields_sorted: "yields (sorted_by_score xs) (\<lambda>ys. length ys = length xs \<and> set ys \<subseteq> set xs)"
  unfolding sorted_by_score_def
  by (rule yields_if) (auto simp: sorted_members intro!: yields_draw_members yields_ret)

lemma yields_best_parents:
  assumes "length scores = length population" and "0 \<le> n"
  shows "yields (select_best_parents population scores n)
    (\<lambda>best. set best \<subseteq> set population \<and> int (length best) = min n (int (length population)))"
  unfolding select_best_parents_def
proof (rule yields_bind [OF yields_sorted], rule yields_ret)
  fix ys :: "(int list \<times> FitnessScore) list"
  assume ys: "length ys = length (zip population scores) \<and> set ys \<subseteq> set (zip population scores)"
  have zipped: "fst ` set (zip population scores) \<subseteq> set population" by (auto dest: set_zip_leftD)
  have "set (slice_to n ys) \<subseteq> set (zip population scores)"
    using ys set_slice_to [of n ys] by blast
  then have "set (map fst (slice_to n ys)) \<subseteq> set population"
    using zipped unfolding set_map by blast
  moreover have "int (length (map fst (slice_to n ys))) = min n (int (length population))"
    using assms ys by (simp add: slice_to_def)
  ultimately show "set (map fst (slice_to n ys)) \<subseteq> set population \<and>
      int (length (map fst (slice_to n ys))) = min n (int (length population))" ..
qed

lemma yields_next_generation:
  assumes "configuration_ok cfg" and "population_ok cfg population" and "length scores = length population"
  shows "yields (next_generation cfg population scores) (population_ok cfg)"
  unfolding next_generation_def select_random_parents_def
proof -
  have ok: "0 \<le> gc_num_best_parents cfg" "0 \<le> gc_num_worst_parents cfg"
    "gc_num_worst_parents cfg \<le> gc_population_size cfg"
    "2 \<le> min (gc_num_best_parents cfg) (gc_population_size cfg) + gc_num_worst_parents cfg"
    "1 \<le> gc_population_size cfg"
    using assms(1) by (auto simp: configuration_ok_def)
  have pop: "int (length population) = gc_population_size cfg" "\<forall>p \<in> set population. individual_ok cfg p"
    using assms(2) by (auto simp: population_ok_def)
  have draws: "0 \<le> gc_num_worst_parents cfg" "gc_num_worst_parents cfg \<le> int (length population)"
    using ok pop by auto
  have bred: "yields (bindM (repeat_prog (nat (gc_population_size cfg)) (breed cfg (best @ worst)))
      (for_each (mutate (gc_throttle_range cfg) (gc_mutation_rate cfg)))) (population_ok cfg)"
    if best: "set best \<subseteq> set population \<and> int (length best) = min (gc_num_best_parents cfg) (int (length population))"
      and worst: "length worst = nat (gc_num_worst_parents cfg) \<and> set worst \<subseteq> set population" for best worst
  proof -
    have "2 \<le> length (best @ worst)" using worst best ok pop by auto
    moreover have "\<forall>p \<in> set (best @ worst). individual_ok cfg p" using worst best pop(2) by auto
    ultimately have breeds: "yields (breed cfg (best @ worst)) (individual_ok cfg)"
      using assms(1) by (intro yields_breed)
    show ?thesis
    proof (rule yields_bind [OF yields_repeat [OF breeds]])
      fix children
      assume "length children = nat (gc_population_size cfg) \<and> (\<forall>x \<in> set children. individual_ok cfg x)"
      then show "yields (for_each (mutate (gc_throttle_range cfg) (gc_mutation_rate cfg)) children) (population_ok cfg)"
        using ok(5) by (intro yields_weaken [OF yields_for_each [OF yields_mutate [OF assms(1)]]])
          (auto simp: population_ok_def)
    qed
  qed
  show "yields (bindM (select_best_parents population scores (gc_num_best_parents cfg)) (\<lambda>best.
      bindM (sample population (gc_num_worst_parents cfg)) (\<lambda>worst.
      bindM (repeat_prog (nat (gc_population_size cfg)) (breed cfg (best @ worst)))
        (for_each (mutate (gc_throttle_range cfg) (gc_mutation_rate cfg)))))) (population_ok cfg)"
    by (rule yields_bind [OF yields_best_parents [OF assms(3) ok(1)]], rule yields_bind [OF yields_sample [OF draws]])
      (rule bred)
qed

section \<open>Scores\<close>

lemma velocity_total: "m \<noteq> Fin 0 \<Longrightarrow> \<exists>v. calculate_velocity fu v0 throttle m f = Inr v"
  using fl_div_total [of m fu throttle] by (auto simp: calculate_velocity_def)

lemma motion_total: "m \<noteq> Fin 0 \<Longrightarrow> \<exists>p. total_distance_loop fu d v throttles m f = Inr p"
proof (induction throttles arbitrary: d v)
  case (Cons t ts)
  obtain w where "calculate_velocity fu v (Fin (of_int t)) m f = Inr w" using velocity_total Cons.prems by blast
  then show ?case using Cons by simp
qed simp

definition the_fitness ::
    "float_unit \<Rightarrow> GeneticConfiguration \<Rightarrow> ThrottleCalculationInput \<Rightarrow> int list \<Rightarrow> FitnessScore" where
  "the_fitness fu cfg inp throttles =
     (case fitness fu cfg inp throttles of Inr s \<Rightarrow> s
      | Inl e \<Rightarrow> \<lparr> fs_score = NaN, fs_distance_diff = NaN, fs_speed_penalty = NaN, fs_length_penalty = 0 \<rparr>)"

lemma fitness_total: "ti_mass inp \<noteq> Fin 0 \<Longrightarrow> fitness fu cfg inp throttles = Inr (the_fitness fu cfg inp throttles)"
  using motion_total [of "ti_mass inp" fu "Fin 0" "ti_v0 inp" throttles "ti_friction inp"]
  by (auto simp: the_fitness_def fitness_def calculate_total_distance_def)

lemma fitness_all_total:
  "ti_mass inp \<noteq> Fin 0 \<Longrightarrow> fitness_all fu cfg inp population = Inr (map (the_fitness fu cfg inp) population)"
  by (induction population) (auto simp: fitness_total)

lemma least_from_le: "least_from b scores = b \<or> fl_less (fs_score (least_from b scores)) (fs_score b)"
proof (induction scores arbitrary: b)
  case (Cons s scores)
  show ?case
    using Cons.IH [of s] Cons.IH [of b] fl_less_trans [of "fs_score (least_from s scores)" "fs_score s" "fs_score b"]
    by (cases "fl_less (fs_score s) (fs_score b)") auto
qed simp

text \<open>What \<open>min\<close> returns is a score that none is less than, also when NaN is among them.\<close>

lemma least_from_spec:
  "least_from b scores \<in> insert b (set scores) \<and> \<not> fl_less (fs_score b) (fs_score (least_from b scores)) \<and>
     (\<forall>t \<in> set scores. \<not> fl_less (fs_score t) (fs_score (least_from b scores)))"
proof (induction scores arbitrary: b)
  case (Cons s scores)
  let ?b = "if fl_less (fs_score s) (fs_score b) then s else b"
  let ?m = "least_from ?b scores"
  have m: "?m \<in> insert ?b (set scores)" "\<not> fl_less (fs_score ?b) (fs_score ?m)"
      "\<forall>t \<in> set scores. \<not> fl_less (fs_score t) (fs_score ?m)"
    using Cons.IH [of ?b] by auto
  have "\<not> fl_less (fs_score b) (fs_score ?m) \<and> \<not> fl_less (fs_score s) (fs_score ?m)"
  proof (cases "fl_less (fs_score s) (fs_score b)")
    case True
    then show ?thesis using m(2) fl_less_trans by auto
  next
    case no: False
    then have b: "\<not> fl_less (fs_score b) (fs_score ?m)" using m(2) by simp
    moreover have "\<not> fl_less (fs_score s) (fs_score ?m)"
    proof
      assume s: "fl_less (fs_score s) (fs_score ?m)"
      then have "?m \<noteq> b" using no by auto
      then have "fs_score ?m = fs_score b \<or> fl_less (fs_score ?m) (fs_score b)"
        using least_from_le [of b scores] no by auto
      then show False using s no fl_less_trans by auto
    qed
    ultimately show ?thesis by blast
  qed
  then show ?case using m by auto
qed simp

lemma first_least_spec:
  "scores \<noteq> [] \<Longrightarrow> \<exists>s. first_least scores = Some s \<and> s \<in> set scores \<and>
     (\<forall>t \<in> set scores. \<not> fl_less (fs_score t) (fs_score s))"
  using least_from_spec by (cases scores) auto

lemma index_of_in: "x \<in> set xs \<Longrightarrow> index_of xs x < length xs \<and> xs ! index_of xs x = x"
  by (induction xs) auto

text \<open>The best of a population, with its score.\<close>

definition best_of ::
    "float_unit \<Rightarrow> GeneticConfiguration \<Rightarrow> ThrottleCalculationInput \<Rightarrow> int list list \<Rightarrow> ThrottleSequenceGeneticResult \<Rightarrow> bool" where
  "best_of fu cfg inp population result \<longleftrightarrow>
     (\<exists>x \<in> set population.
        result = \<lparr> tr_sequence = Some x, tr_fitness_score = Some (the_fitness fu cfg inp x) \<rparr> \<and>
        (\<forall>y \<in> set population. \<not> fl_less (fs_score (the_fitness fu cfg inp y)) (fs_score (the_fitness fu cfg inp x))))"

lemma best_individual_spec:
  assumes "population \<noteq> []"
  shows "\<exists>result. best_individual population (map (the_fitness fu cfg inp) population) = Inr result \<and>
    best_of fu cfg inp population result"
proof -
  let ?scores = "map (the_fitness fu cfg inp) population"
  obtain s where s: "first_least ?scores = Some s" "s \<in> set ?scores" "\<forall>t \<in> set ?scores. \<not> fl_less (fs_score t) (fs_score s)"
    using first_least_spec [of ?scores] assms by auto
  define i where "i = index_of ?scores s"
  have "i < length population" "the_fitness fu cfg inp (population ! i) = s"
    using index_of_in [OF s(2)] by (auto simp: i_def)
  then have "best_of fu cfg inp population \<lparr> tr_sequence = Some (population ! i), tr_fitness_score = Some s \<rparr>"
    using s(3) unfolding best_of_def by (intro bexI [of _ "population ! i"]) auto
  then show ?thesis using s(1) by (simp add: best_individual_def i_def)
qed

lemma yields_generations:
  assumes "configuration_ok cfg" and "ti_mass inp \<noteq> Fin 0"
  shows "population_ok cfg population \<Longrightarrow>
    yields (generations_loop fu cfg inp clock n generation population best)
      (\<lambda>result. n = 0 \<and> result = best \<or> (\<exists>last. population_ok cfg last \<and> best_of fu cfg inp last result))"
proof (induction n arbitrary: generation population best)
  case (Suc n)
  let ?scores = "map (the_fitness fu cfg inp) population"
  have "population \<noteq> []" using Suc.prems assms(1) by (auto simp: population_ok_def configuration_ok_def)
  then obtain result where b: "best_individual population ?scores = Inr result" "best_of fu cfg inp population result"
    using best_individual_spec by blast
  have children: "yields (next_generation cfg population ?scores) (population_ok cfg)"
    by (rule yields_next_generation [OF assms(1) Suc.prems]) simp
  show ?case
    unfolding generations_loop.simps fitness_all_total [OF assms(2)]
    by (rule yields_bind [OF yields_liftE [OF refl, where Q = "\<lambda>x. x = ?scores"]], simp,
        simp, rule yields_bind [OF children], rule yields_bind [OF yields_liftE [OF b(1), where Q = "\<lambda>x. x = result"]],
        simp, rule yields_if)
       (use b(2) Suc in \<open>auto intro!: yields_ret yields_weaken [OF Suc.IH]\<close>)
qed (simp add: yields_ret)

lemma yields_search:
  assumes "configuration_ok cfg" and "ti_mass inp \<noteq> Fin 0"
  shows "yields (find_optimal_throttle_sequence fu inp cfg clock)
    (\<lambda>result. \<exists>last. population_ok cfg last \<and> best_of fu cfg inp last result)"
proof -
  have "nat (gc_num_generations cfg) \<noteq> 0" using assms(1) by (simp add: configuration_ok_def)
  then show ?thesis unfolding find_optimal_throttle_sequence_def
    by (intro yields_bind [OF yields_initial_population [OF assms(1)]]
        yields_weaken [OF yields_generations [OF assms]]) auto
qed

text \<open>Without mass the first individual already raises.\<close>

lemma search_without_mass:
  assumes "configuration_ok cfg" and "ti_mass inp = Fin 0"
  shows "\<exists>e r'. find_optimal_throttle_sequence fu inp cfg clock r = (Inl e, r')"
proof -
  obtain population r1 where p: "generate_initial_population (gc_population_size cfg) (gc_max_sequence_length cfg)
      (gc_throttle_range cfg) r = (Inr population, r1)" "population_ok cfg population"
    using yieldsD [OF yields_initial_population [OF assms(1)]] by blast
  then obtain xs rest where xs: "population = xs # rest" "xs \<noteq> []"
    using assms(1) by (cases population) (auto simp: population_ok_def individual_ok_def configuration_ok_def)
  then have "\<exists>e. fitness_all fu cfg inp population = Inl e"
    using assms(2) by (cases xs)
      (auto simp: fitness_def calculate_total_distance_def calculate_velocity_def fl_div_zero)
  then obtain e where "fitness_all fu cfg inp population = Inl e" by blast
  moreover obtain n where "nat (gc_num_generations cfg) = Suc n"
    using assms(1) by (cases "nat (gc_num_generations cfg)") (auto simp: configuration_ok_def)
  ultimately show ?thesis
    using p(1) by (simp add: find_optimal_throttle_sequence_def bindM_def liftE_def)
qed

section \<open>The timeout\<close>

lemma fitness_generations: "fitness fu (cfg\<lparr> gc_num_generations := k \<rparr>) inp xs = fitness fu cfg inp xs"
  by (auto simp: fitness_def score_of_def Let_def fun_eq_iff intro!: arg_cong2 [where f = "map_sum id"])

lemma fitness_all_generations:
  "fitness_all fu (cfg\<lparr> gc_num_generations := k \<rparr>) inp population = fitness_all fu cfg inp population"
  by (induction population) (auto simp: fitness_generations split: sum.split)

lemma next_generation_generations:
  "next_generation (cfg\<lparr> gc_num_generations := k \<rparr>) = next_generation cfg"
  by (simp add: next_generation_def breed_def fun_eq_iff)

lemma generations_loop_generations:
  "generations_loop fu (cfg\<lparr> gc_num_generations := k \<rparr>) inp clock n g population best =
     generations_loop fu cfg inp clock n g population best"
  by (induction n arbitrary: g population best)
     (simp_all add: fitness_all_generations next_generation_generations cong: if_cong)

lemma generations_stop:
  assumes "gc_timeout_ms cfg \<le> elapsed_ms clock (generation + j)" and "j < n"
    and "\<And>i. i < j \<Longrightarrow> elapsed_ms clock (generation + i) < gc_timeout_ms cfg"
  shows "generations_loop fu cfg inp clock n generation population best =
    generations_loop fu cfg inp clock (Suc j) generation population best"
  using assms
proof (induction j arbitrary: n generation population best)
  case 0
  then show ?case by (cases n) simp_all
next
  case (Suc j)
  then obtain m where m: "n = Suc m" "j < m" by (cases n) auto
  have early: "\<not> gc_timeout_ms cfg \<le> elapsed_ms clock generation" using Suc.prems(3) [of 0] by simp
  have "generations_loop fu cfg inp clock m (Suc generation) children b =
      generations_loop fu cfg inp clock (Suc j) (Suc generation) children b" for children b
    using Suc.prems(1,3) m(2) by (intro Suc.IH) (auto, metis Suc_less_eq add_Suc_right)
  then show ?case using early by (subst m(1)) (simp only: generations_loop.simps if_False)
qed

section \<open>Properties\<close>

text \<open>
  C28 The search answers whatever is drawn and whatever the clock says: with an acceptable
  configuration and a mass that is not zero it returns a throttle sequence that is not empty, no
  longer than allowed and with every throttle in range, together with its own score; and no score of
  the last population that was scored is less: where none is NaN, it is the least. This holds for
  every rounding, also where the motion overflows or is not a number.
\<close>

theorem genetic_search_answers:
  assumes "configuration_ok cfg" and "ti_mass inp \<noteq> Fin 0"
  shows "\<exists>result r' xs last. find_optimal_throttle_sequence fu inp cfg clock r = (Inr result, r') \<and>
    tr_sequence result = Some xs \<and> individual_ok cfg xs \<and>
    fitness fu cfg inp xs = Inr (the_fitness fu cfg inp xs) \<and>
    tr_fitness_score result = Some (the_fitness fu cfg inp xs) \<and>
    population_ok cfg last \<and> xs \<in> set last \<and>
    (\<forall>ys \<in> set last. \<not> fl_less (fs_score (the_fitness fu cfg inp ys)) (fs_score (the_fitness fu cfg inp xs))) \<and>
    ((\<forall>ys \<in> set last. fs_score (the_fitness fu cfg inp ys) \<noteq> NaN) \<longrightarrow>
       (\<forall>ys \<in> set last. fl_le (fs_score (the_fitness fu cfg inp xs)) (fs_score (the_fitness fu cfg inp ys))))"
proof -
  obtain result r' last where "find_optimal_throttle_sequence fu inp cfg clock r = (Inr result, r')"
      "population_ok cfg last" "best_of fu cfg inp last result"
    using yields_search [OF assms] unfolding yields_def by blast
  moreover from this(3) obtain xs where "xs \<in> set last"
      "result = \<lparr> tr_sequence = Some xs, tr_fitness_score = Some (the_fitness fu cfg inp xs) \<rparr>"
      "\<forall>ys \<in> set last. \<not> fl_less (fs_score (the_fitness fu cfg inp ys)) (fs_score (the_fitness fu cfg inp xs))"
    unfolding best_of_def by blast
  moreover from calculation have "individual_ok cfg xs" by (simp add: population_ok_def)
  moreover have "\<forall>ys \<in> set last. fl_le (fs_score (the_fitness fu cfg inp xs)) (fs_score (the_fitness fu cfg inp ys))"
    if "\<forall>ys \<in> set last. fs_score (the_fitness fu cfg inp ys) \<noteq> NaN"
    using that calculation(4,6) fl_less_total unfolding fl_le_def by metis
  ultimately show ?thesis using fitness_total [OF assms(2)]
    by (intro exI [of _ result] exI [of _ r'] exI [of _ xs] exI [of _ last]) simp
qed

definition small_configuration :: GeneticConfiguration where
  "small_configuration = default_genetic_configuration\<lparr>
     gc_population_size := 2, gc_max_sequence_length := 1, gc_num_generations := 2, gc_num_best_parents := 1,
     gc_num_worst_parents := 1, gc_throttle_range := (0, 10) \<rparr>"

definition example_motion :: ThrottleCalculationInput where
  "example_motion = \<lparr> ti_v0 = Fin 0, ti_mass = Fin 1, ti_friction = Fin 0, ti_d_target = Fin 3 \<rparr>"

lemma small_configuration_ok: "configuration_ok small_configuration"
  by (simp add: configuration_ok_def small_configuration_def default_genetic_configuration_def)

theorem genetic_search_answers_witness:
  "\<exists>result r' xs. find_optimal_throttle_sequence plain_unit example_motion small_configuration (\<lambda>n. 0)
       \<lparr> rn_source = (\<lambda>n. n), rn_position = 0 \<rparr> = (Inr result, r') \<and>
     tr_sequence result = Some xs \<and> length xs = 1 \<and> (\<forall>t \<in> set xs. 0 \<le> t \<and> t \<le> 10)"
proof -
  have "ti_mass example_motion \<noteq> Fin 0" by (simp add: example_motion_def)
  from genetic_search_answers [OF small_configuration_ok this, of plain_unit "\<lambda>n. 0" "\<lparr> rn_source = (\<lambda>n. n), rn_position = 0 \<rparr>"]
  obtain result r' xs where r: "find_optimal_throttle_sequence plain_unit example_motion small_configuration (\<lambda>n. 0)
       \<lparr> rn_source = (\<lambda>n. n), rn_position = 0 \<rparr> = (Inr result, r')"
      "tr_sequence result = Some xs" "individual_ok small_configuration xs"
    by blast
  then have "length xs = 1" "\<forall>t \<in> set xs. 0 \<le> t \<and> t \<le> 10"
    by (auto simp: individual_ok_def in_range_def small_configuration_def Suc_le_eq
        intro: le_antisym)
  with r show ?thesis by blast
qed

text \<open>
  The answer is the best of the last generation, not of all: here the first population holds the
  sequence that covers the distance exactly, and the search returns a worse one.
\<close>

definition unlucky_draws :: rng where
  "unlucky_draws =
     \<lparr> rn_source = (\<lambda>n. if n = 1 then 3 else if n = 3 \<or> n = 14 \<or> n = 17 then 9 else 0), rn_position = 0 \<rparr>"

lemma search_forgets_better_sequences:
  "fst (generate_initial_population 2 1 (0, 10) unlucky_draws) = Inr [[3], [9]] \<and>
   map_sum id tr_sequence (fst (find_optimal_throttle_sequence exact_unit example_motion small_configuration (\<lambda>n. 0)
     unlucky_draws)) = Inr (Some [9]) \<and>
   fl_less (fs_score (the_fitness exact_unit small_configuration example_motion [3]))
     (fs_score (the_fitness exact_unit small_configuration example_motion [9]))"
  by code_simp

text \<open>
  C29 The timeout ends the search: if the clock first shows the timeout at the end of generation
  \<open>g\<close>, the search is the one over exactly \<open>g + 1\<close> generations, with the same answer from the same
  draws; a generation that has begun is always finished.
\<close>

theorem timeout_ends_the_search:
  assumes "int g < gc_num_generations cfg" and "gc_timeout_ms cfg \<le> elapsed_ms clock g"
    and "\<And>i. i < g \<Longrightarrow> elapsed_ms clock i < gc_timeout_ms cfg"
  shows "find_optimal_throttle_sequence fu inp cfg clock =
    find_optimal_throttle_sequence fu inp (cfg\<lparr> gc_num_generations := int g + 1 \<rparr>) clock"
proof -
  have "g < nat (gc_num_generations cfg)" using assms(1) by linarith
  then have "generations_loop fu cfg inp clock (nat (gc_num_generations cfg)) 0 population best =
      generations_loop fu cfg inp clock (Suc g) 0 population best" for population best
    using generations_stop [of cfg clock 0 g] assms(2,3) by simp
  moreover have "nat (int g + 1) = Suc g" by simp
  ultimately show ?thesis
    by (simp add: find_optimal_throttle_sequence_def generations_loop_generations del: generations_loop.simps)
qed

theorem timeout_ends_the_search_witness:
  "find_optimal_throttle_sequence plain_unit example_motion default_genetic_configuration (\<lambda>n. int n * 600000000) =
   find_optimal_throttle_sequence plain_unit example_motion
     (default_genetic_configuration\<lparr> gc_num_generations := 2 \<rparr>) (\<lambda>n. int n * 600000000)"
proof -
  have "elapsed_ms (\<lambda>n. int n * 600000000) i < 1000" if "i < 1" for i
    using that by (simp add: elapsed_ms_def)
  then show ?thesis
    using timeout_ends_the_search [of 1 default_genetic_configuration "\<lambda>n. int n * 600000000" plain_unit example_motion]
    by (simp add: default_genetic_configuration_def elapsed_ms_def)
qed

text \<open>
  The two ways of following a sequence of throttles agree: from position zero the last recorded
  position and velocity are the total distance and the final velocity; there is one entry per
  throttle and one for the start, and both fail together, exactly for a mass of zero and some
  throttle to apply.
\<close>

theorem recorded_motion_matches_total_distance:
  "case get_distance_for_throttles_velocities fu v0 m f throttles (Fin 0) of
     Inr motion \<Rightarrow>
       length motion = Suc (length throttles) \<and> hd motion = (Fin 0, v0) \<and>
       calculate_total_distance fu v0 throttles m f = Inr (last motion) \<and> (m \<noteq> Fin 0 \<or> throttles = [])
   | Inl e \<Rightarrow> calculate_total_distance fu v0 throttles m f = Inl e \<and> m = Fin 0 \<and> throttles \<noteq> []"
proof -
  have step: "case distance_velocity_loop fu d v m f ts of
      Inr motion \<Rightarrow> length motion = length ts \<and> (m \<noteq> Fin 0 \<or> ts = []) \<and>
        total_distance_loop fu d v ts m f = Inr (last ((d, v) # motion))
    | Inl e \<Rightarrow> total_distance_loop fu d v ts m f = Inl e \<and> m = Fin 0 \<and> ts \<noteq> []" for d v ts
  proof (induction ts arbitrary: d v)
    case (Cons t ts)
    show ?case
    proof (cases "m = Fin 0")
      case False
      then obtain w where "calculate_velocity fu v (Fin (of_int t)) m f = Inr w" using velocity_total by blast
      then show ?thesis using Cons.IH [of "fl_add fu d w" w] False by (auto split: sum.splits)
    qed (simp add: calculate_velocity_def fl_div_zero)
  qed simp
  show ?thesis using step [where d = "Fin 0" and v = v0 and ts = throttles]
    by (auto simp: get_distance_for_throttles_velocities_def calculate_total_distance_def split: sum.splits)
qed

end
