(* ===== verification/ThrottleApi.thy ===== *)
theory ThrottleApi
  imports GeneticSearch
begin

text \<open>
  Throttle steps for the first units of both sides: the game state (\<open>domain/game\<close>, \<open>domain/grid\<close>), the
  path finders (\<open>infrastructure/navigation/path_finders\<close>) behind their protocol, the service
  (\<open>services/throttle_steps_service.py\<close>) and the endpoint with its transfer objects and mappers.
\<close>

section \<open>The game\<close>

record Coordinate =
  co_x :: pyfloat
  co_y :: pyfloat

record Unit =
  un_coordinate :: Coordinate
  un_speed :: pyfloat
  un_mass :: pyfloat
  un_friction :: pyfloat

record GameState =
  gs_player_units :: "Unit list"
  gs_enemy_units :: "Unit list"

record UnitGoal =
  ug_coordinate :: Coordinate
  ug_throttle :: pyfloat

text \<open>
  The squares of the differences may be out of range, and then nothing is returned; an infinite
  difference has an infinite square.
\<close>

definition calc_euclidean_distance :: "float_unit \<Rightarrow> Coordinate \<Rightarrow> Coordinate \<Rightarrow> exn + pyfloat" where
  "calc_euclidean_distance fu c other =
     (case fl_square fu (fl_sub fu (co_x c) (co_x other)) of
        Inl e \<Rightarrow> Inl e
      | Inr dx \<Rightarrow>
          map_sum id (\<lambda>dy. fl_root fu (fl_add fu dx dy)) (fl_square fu (fl_sub fu (co_y c) (co_y other))))"

text \<open>Two places are too far apart when the square of a difference of theirs is out of range.\<close>

definition square_overflows :: "float_unit \<Rightarrow> pyfloat \<Rightarrow> bool" where
  "square_overflows fu x \<longleftrightarrow> (\<exists>a. x = Fin a \<and> fu_round fu (a ^ 2) \<notin> range Fin)"

definition too_far :: "float_unit \<Rightarrow> Coordinate \<Rightarrow> Coordinate \<Rightarrow> bool" where
  "too_far fu c other \<longleftrightarrow>
     square_overflows fu (fl_sub fu (co_x c) (co_x other)) \<or> square_overflows fu (fl_sub fu (co_y c) (co_y other))"

lemma distance_cases:
  "if too_far fu c other then calc_euclidean_distance fu c other = Inl out_of_range
   else \<exists>d. calc_euclidean_distance fu c other = Inr d"
  using fl_square_raises [of fu "fl_sub fu (co_x c) (co_x other)"] fl_square_error [of fu "fl_sub fu (co_x c) (co_x other)"]
    fl_square_raises [of fu "fl_sub fu (co_y c) (co_y other)"] fl_square_error [of fu "fl_sub fu (co_y c) (co_y other)"]
  by (cases "fl_square fu (fl_sub fu (co_x c) (co_x other))"; cases "fl_square fu (fl_sub fu (co_y c) (co_y other))")
     (auto simp: too_far_def square_overflows_def calc_euclidean_distance_def)

section \<open>Path finders\<close>

record 'r PathFinderStrategy =
  pf_find_path :: "GameState \<Rightarrow> Unit \<Rightarrow> Unit \<Rightarrow> ('r, UnitGoal list) prog"

text \<open>
  What a caller of a path finder relies on: for the units it can move to their target, a path that is
  not empty and all of whose goals are acceptable; for the others, an exception.
\<close>

locale path_finding =
  fixes strategy :: "'r PathFinderStrategy"
    and movable :: "Unit \<Rightarrow> Unit \<Rightarrow> bool"
    and goal_ok :: "Unit \<Rightarrow> Unit \<Rightarrow> UnitGoal \<Rightarrow> bool"
  assumes movable_path: "movable main target \<Longrightarrow>
      \<exists>goals r'. pf_find_path strategy game main target r = (Inr goals, r') \<and> goals \<noteq> [] \<and>
        (\<forall>goal \<in> set goals. goal_ok main target goal)"
    and stuck_path: "\<not> movable main target \<Longrightarrow> \<exists>e r'. pf_find_path strategy game main target r = (Inl e, r')"

text \<open>The genetic path finder; the clock and the float unit are arguments.\<close>

definition genetic_find_path ::
    "float_unit \<Rightarrow> GeneticConfiguration \<Rightarrow> (nat \<Rightarrow> int) \<Rightarrow> GameState \<Rightarrow> Unit \<Rightarrow> Unit \<Rightarrow>
     (rng, UnitGoal list) prog" where
  "genetic_find_path fu cfg clock game_state main_unit target_unit =
     bindM (liftE (calc_euclidean_distance fu (un_coordinate main_unit) (un_coordinate target_unit))) (\<lambda>distance_to_target.
     let throttle_input = \<lparr> ti_v0 = un_speed main_unit, ti_mass = un_mass main_unit,
                             ti_friction = un_friction main_unit, ti_d_target = distance_to_target \<rparr> in
     bindM (find_optimal_throttle_sequence fu throttle_input cfg clock) (\<lambda>result.
     case tr_sequence result of
       None \<Rightarrow> throw (TypeError ([CHR 0x27] @ ''NoneType'' @ [CHR 0x27] @ '' object is not iterable''))
     | Some sequence \<Rightarrow>
         ret (map (\<lambda>throttle. \<lparr> ug_coordinate = un_coordinate target_unit,
                                ug_throttle = Fin (of_int throttle) \<rparr>) sequence)))"

definition GeneticPathFinderStrategy ::
    "float_unit \<Rightarrow> GeneticConfiguration \<Rightarrow> (nat \<Rightarrow> int) \<Rightarrow> rng PathFinderStrategy" where
  "GeneticPathFinderStrategy fu cfg clock = \<lparr> pf_find_path = genetic_find_path fu cfg clock \<rparr>"

definition LLMPathFinderStrategy :: "'r PathFinderStrategy" where
  "LLMPathFinderStrategy = \<lparr> pf_find_path = (\<lambda>game_state main_unit target_unit.
     ret [\<lparr> ug_coordinate = un_coordinate main_unit, ug_throttle = Fin 0 \<rparr>,
          \<lparr> ug_coordinate = un_coordinate main_unit, ug_throttle = Fin 1 \<rparr>]) \<rparr>"

section \<open>Both path finders keep the contract\<close>

lemma default_configuration_ok: "configuration_ok default_genetic_configuration"
  by (simp add: configuration_ok_def default_genetic_configuration_def)

text \<open>A goal of the genetic path finder: where the target is, with a throttle in range.\<close>

definition heads_to :: "GeneticConfiguration \<Rightarrow> Unit \<Rightarrow> Unit \<Rightarrow> UnitGoal \<Rightarrow> bool" where
  "heads_to cfg main target goal \<longleftrightarrow>
     ug_coordinate goal = un_coordinate target \<and> (\<exists>t. ug_throttle goal = Fin (of_int t) \<and> in_range cfg t)"

interpretation genetic: path_finding
  "GeneticPathFinderStrategy fu default_genetic_configuration clock"
  "\<lambda>main target. un_mass main \<noteq> Fin 0 \<and> \<not> too_far fu (un_coordinate main) (un_coordinate target)"
  "heads_to default_genetic_configuration"
  for fu clock
proof unfold_locales
  fix main target :: Unit and game r
  let ?cfg = default_genetic_configuration
  let ?far = "too_far fu (un_coordinate main) (un_coordinate target)"
  let ?inp = "\<lambda>d. \<lparr> ti_v0 = un_speed main, ti_mass = un_mass main, ti_friction = un_friction main, ti_d_target = d \<rparr>"
  let ?find = "pf_find_path (GeneticPathFinderStrategy fu ?cfg clock) game main target r"
  note unfolds = GeneticPathFinderStrategy_def genetic_find_path_def Let_def bindM_def liftE_def ret_def
  have distance: "\<exists>d. calc_euclidean_distance fu (un_coordinate main) (un_coordinate target) = Inr d" if "\<not> ?far"
    using that distance_cases [of fu "un_coordinate main" "un_coordinate target"] by simp
  {
    assume ok: "un_mass main \<noteq> Fin 0 \<and> \<not> ?far"
    then obtain d where d: "calc_euclidean_distance fu (un_coordinate main) (un_coordinate target) = Inr d"
      using distance by blast
    have "ti_mass (?inp d) \<noteq> Fin 0" using ok by simp
    from yieldsD [OF yields_search [OF default_configuration_ok this], of fu clock r]
    obtain result r' last where f: "find_optimal_throttle_sequence fu (?inp d) ?cfg clock r = (Inr result, r')"
        "population_ok ?cfg last" "best_of fu ?cfg (?inp d) last result"
      by blast
    then obtain xs where "tr_sequence result = Some xs" "individual_ok ?cfg xs"
      by (auto simp: best_of_def population_ok_def)
    then show "\<exists>goals r'. ?find = (Inr goals, r') \<and> goals \<noteq> [] \<and> (\<forall>goal \<in> set goals. heads_to ?cfg main target goal)"
      using f(1) d by (auto simp: unfolds individual_ok_def heads_to_def)
  next
    assume stuck: "\<not> (un_mass main \<noteq> Fin 0 \<and> \<not> ?far)"
    show "\<exists>e r'. ?find = (Inl e, r')"
    proof (cases ?far)
      case True
      then show ?thesis
        using distance_cases [of fu "un_coordinate main" "un_coordinate target"] by (simp add: unfolds)
    next
      case False
      then obtain d where d: "calc_euclidean_distance fu (un_coordinate main) (un_coordinate target) = Inr d"
        using distance by blast
      have "ti_mass (?inp d) = Fin 0" using stuck False by simp
      from search_without_mass [OF default_configuration_ok this, of fu clock r] show ?thesis
        using d by (auto simp: unfolds)
    qed
  }
qed

interpretation llm: path_finding LLMPathFinderStrategy "\<lambda>main target. True"
  "\<lambda>main target goal. ug_coordinate goal = un_coordinate main \<and> ug_throttle goal \<in> {Fin 0, Fin 1}"
  by unfold_locales (simp_all add: LLMPathFinderStrategy_def ret_def)

section \<open>The service\<close>

definition first_unit :: "Unit list \<Rightarrow> exn + Unit" where
  "first_unit units =
     (case units of [] \<Rightarrow> Inl (OtherError ''list index out of range'') | u # us \<Rightarrow> Inr u)"

definition calculate_throttle_steps :: "'r PathFinderStrategy \<Rightarrow> GameState \<Rightarrow> ('r, UnitGoal list) prog" where
  "calculate_throttle_steps path_finder game_state =
     bindM (liftE (first_unit (gs_player_units game_state))) (\<lambda>main_unit.
     bindM (liftE (first_unit (gs_enemy_units game_state))) (\<lambda>target_unit.
       pf_find_path path_finder game_state main_unit target_unit))"

section \<open>The endpoint\<close>

record CoordinateDto =
  cd_x :: pyfloat
  cd_y :: pyfloat

record UnitDto =
  ud_coordinate :: CoordinateDto
  ud_speed :: pyfloat
  ud_mass :: pyfloat
  ud_friction :: pyfloat

record GameStateDto =
  gd_player_units :: "UnitDto list"
  gd_enemy_units :: "UnitDto list"

record UnitGoalDto =
  gl_coordinate :: Coordinate
  gl_throttle :: pyfloat

definition unit_of_dto :: "UnitDto \<Rightarrow> Unit" where
  "unit_of_dto u =
     \<lparr> un_coordinate = \<lparr> co_x = cd_x (ud_coordinate u), co_y = cd_y (ud_coordinate u) \<rparr>,
       un_speed = ud_speed u, un_mass = ud_mass u, un_friction = ud_friction u \<rparr>"

definition game_state_from_dto :: "GameStateDto \<Rightarrow> GameState" where
  "game_state_from_dto dto =
     \<lparr> gs_player_units = map unit_of_dto (gd_player_units dto),
       gs_enemy_units = map unit_of_dto (gd_enemy_units dto) \<rparr>"

definition unit_goal_to_dto :: "UnitGoal \<Rightarrow> UnitGoalDto" where
  "unit_goal_to_dto goal = \<lparr> gl_coordinate = ug_coordinate goal, gl_throttle = ug_throttle goal \<rparr>"

datatype throttle_response = ThrottleSteps "UnitGoalDto list" | HTTPException int string

definition throttle_steps :: "'r PathFinderStrategy \<Rightarrow> GameStateDto \<Rightarrow> 'r \<Rightarrow> throttle_response \<times> 'r" where
  "throttle_steps path_finder state r =
     (case calculate_throttle_steps path_finder (game_state_from_dto state) r of
        (Inl e, r') \<Rightarrow> (HTTPException 400 (exn_text e), r')
      | (Inr goals, r') \<Rightarrow> (ThrottleSteps (map unit_goal_to_dto goals), r'))"

context path_finding
begin

lemma endpoint_cases:
  "case fst (throttle_steps strategy state r) of
     ThrottleSteps goals \<Rightarrow>
       (\<exists>p ps e es. gd_player_units state = p # ps \<and> gd_enemy_units state = e # es \<and> movable (unit_of_dto p) (unit_of_dto e) \<and>
          goals \<noteq> [] \<and>
          (\<forall>goal \<in> set goals. \<exists>g. goal_ok (unit_of_dto p) (unit_of_dto e) g \<and> goal = unit_goal_to_dto g))
   | HTTPException code msg \<Rightarrow>
       code = 400 \<and> (gd_player_units state = [] \<or> gd_enemy_units state = [] \<or>
                      \<not> movable (unit_of_dto (hd (gd_player_units state))) (unit_of_dto (hd (gd_enemy_units state))))"
proof (cases "gd_player_units state"; cases "gd_enemy_units state")
  fix p ps e es
  assume units: "gd_player_units state = p # ps" "gd_enemy_units state = e # es"
  let ?game = "game_state_from_dto state"
  have go: "calculate_throttle_steps strategy ?game r = pf_find_path strategy ?game (unit_of_dto p) (unit_of_dto e) r"
    by (simp add: calculate_throttle_steps_def game_state_from_dto_def units first_unit_def liftE_def bindM_def)
  show ?thesis
  proof (cases "movable (unit_of_dto p) (unit_of_dto e)")
    case True
    then obtain goals r' where "pf_find_path strategy ?game (unit_of_dto p) (unit_of_dto e) r = (Inr goals, r')"
        "goals \<noteq> []" "\<forall>goal \<in> set goals. goal_ok (unit_of_dto p) (unit_of_dto e) goal"
      using movable_path by blast
    then show ?thesis using True units go by (auto simp: throttle_steps_def)
  next
    case False
    then obtain x r' where "pf_find_path strategy ?game (unit_of_dto p) (unit_of_dto e) r = (Inl x, r')"
      using stuck_path by blast
    then show ?thesis using False units go by (simp add: throttle_steps_def)
  qed
qed (simp_all add: throttle_steps_def calculate_throttle_steps_def game_state_from_dto_def first_unit_def
      liftE_def bindM_def)

end

section \<open>Properties\<close>

text \<open>
  C27 The throttle endpoint with the production configuration, for every game state, every sequence
  of draws, every clock and every rounding of the processor, infinite coordinates and NaN included:
  the handler raises the 400 exactly when a side has no unit, the mass of the first player unit is
  zero, or the first units are so far apart that the square of a finite difference of their
  coordinates is out of range; and otherwise it returns a list of steps that is not empty, each to
  the place of the first enemy unit with a whole throttle between 0 and 300. (Whether a place that is
  not finite can be written as JSON is up to the framework.)
\<close>

theorem throttle_endpoint_answers:
  "case fst (throttle_steps (GeneticPathFinderStrategy fu default_genetic_configuration clock) state r) of
     ThrottleSteps goals \<Rightarrow>
       (\<exists>p ps e es. gd_player_units state = p # ps \<and> gd_enemy_units state = e # es \<and> ud_mass p \<noteq> Fin 0 \<and>
          \<not> too_far fu (un_coordinate (unit_of_dto p)) (un_coordinate (unit_of_dto e)) \<and>
          goals \<noteq> [] \<and>
          (\<forall>goal \<in> set goals. gl_coordinate goal = un_coordinate (unit_of_dto e) \<and>
             (\<exists>t. gl_throttle goal = Fin (of_int t) \<and> 0 \<le> t \<and> t \<le> 300)))
   | HTTPException code msg \<Rightarrow>
       code = 400 \<and>
       (gd_player_units state = [] \<or> gd_enemy_units state = [] \<or>
        ud_mass (hd (gd_player_units state)) = Fin 0 \<or>
        too_far fu (un_coordinate (unit_of_dto (hd (gd_player_units state))))
          (un_coordinate (unit_of_dto (hd (gd_enemy_units state)))))"
proof -
  have mass: "un_mass (unit_of_dto p) = ud_mass p" for p by (simp add: unit_of_dto_def)
  have goal: "gl_coordinate (unit_goal_to_dto g) = un_coordinate (unit_of_dto e) \<and>
      (\<exists>t. gl_throttle (unit_goal_to_dto g) = Fin (of_int t) \<and> 0 \<le> t \<and> t \<le> 300)"
    if "heads_to default_genetic_configuration (unit_of_dto p) (unit_of_dto e) g" for p e g
    using that by (auto simp: heads_to_def unit_goal_to_dto_def in_range_def default_genetic_configuration_def)
  show ?thesis
    using genetic.endpoint_cases [where state = state and r = r and fu = fu and clock = clock]
    by (simp add: mass split: throttle_response.splits) (use goal in fast)
qed

definition example_game :: "rat \<Rightarrow> GameStateDto" where
  "example_game x =
     \<lparr> gd_player_units =
         [\<lparr> ud_coordinate = \<lparr> cd_x = Fin 0, cd_y = Fin 0 \<rparr>, ud_speed = Fin 0, ud_mass = Fin 2, ud_friction = Fin (1 / 10) \<rparr>],
       gd_enemy_units =
         [\<lparr> ud_coordinate = \<lparr> cd_x = Fin x, cd_y = Fin 4 \<rparr>, ud_speed = Fin 0, ud_mass = Fin 1, ud_friction = Fin 0 \<rparr>] \<rparr>"

text \<open>An enemy at distance five gets steps; one at \<open>2 ^ 600\<close>, whose square is out of range, the 400.\<close>

theorem throttle_endpoint_answers_witness:
  "(\<exists>goals. fst (throttle_steps (GeneticPathFinderStrategy plain_unit default_genetic_configuration (\<lambda>n. 0))
        (example_game 3) unlucky_draws) = ThrottleSteps goals \<and>
      goals \<noteq> [] \<and> (\<forall>goal \<in> set goals. gl_coordinate goal = \<lparr> co_x = Fin 3, co_y = Fin 4 \<rparr>)) \<and>
   (\<exists>msg. fst (throttle_steps (GeneticPathFinderStrategy plain_unit default_genetic_configuration (\<lambda>n. 0))
        (example_game (2 ^ 600)) unlucky_draws) = HTTPException 400 msg)"
proof -
  have near: "\<not> too_far plain_unit (un_coordinate (unit_of_dto (hd (gd_player_units (example_game 3)))))
      (un_coordinate (unit_of_dto (hd (gd_enemy_units (example_game 3)))))"
    by (simp add: example_game_def unit_of_dto_def too_far_def square_overflows_def fl_sub_def plain_unit_def
        largest_double_def)
  have far: "too_far plain_unit (un_coordinate (unit_of_dto (hd (gd_player_units (example_game (2 ^ 600))))))
      (un_coordinate (unit_of_dto (hd (gd_enemy_units (example_game (2 ^ 600))))))"
    by (auto simp: example_game_def unit_of_dto_def too_far_def square_overflows_def fl_sub_def plain_unit_def
        largest_double_def)
  note answers = throttle_endpoint_answers [where fu = plain_unit and clock = "\<lambda>n. 0" and r = unlucky_draws]
  show ?thesis
    using answers [of "example_game 3"] near answers [of "example_game (2 ^ 600)"] far
    by (auto simp: example_game_def unit_of_dto_def split: throttle_response.splits)
qed

end
