(* ===== verification/DemoModels.thy ===== *)
theory DemoModels
  imports Values
begin

text \<open>
  The data of the demo reservation workflow (\<open>demo/models.py\<close>, \<open>demo/config.py\<close>) and its trace
  context (\<open>demo/trace_context.py\<close>), which carries the caller's correlation and trace ids through
  the workflow and on to every tool server.
\<close>

section \<open>Trace context\<close>

record DemoTraceContext =
  tc_traceparent :: "string option"
  tc_tracestate :: "string option"
  tc_correlation_id :: string
  tc_request_id :: string
  tc_workflow_id :: string

text \<open>
  Request headers are a dictionary by lower-case name. The two ids that \<open>uuid4()\<close> may be asked
  for are arguments.
\<close>

type_synonym headers = "(string, string) dict"

definition trace_from_headers ::
    "string \<Rightarrow> string \<Rightarrow> headers \<Rightarrow> string option \<Rightarrow> DemoTraceContext" where
  "trace_from_headers new_request_id new_workflow_id headers current_traceparent =
     (let request_id = or_else (map_of headers ''x-request-id'') new_request_id;
          correlation_id = or_else (map_of headers ''x-correlation-id'') request_id in
      \<lparr> tc_traceparent = or_opt (map_of headers ''traceparent'') current_traceparent,
        tc_tracestate = map_of headers ''tracestate'',
        tc_correlation_id = correlation_id,
        tc_request_id = request_id,
        tc_workflow_id = new_workflow_id \<rparr>)"

text \<open>\<open>text.split(c)\<close>.\<close>

fun split_on :: "char \<Rightarrow> string \<Rightarrow> string list" where
  "split_on c [] = [[]]"
| "split_on c (x # xs) =
     (if x = c then [] # split_on c xs
      else case split_on c xs of [] \<Rightarrow> [[x]] | p # ps \<Rightarrow> (x # p) # ps)"

definition trace_id :: "DemoTraceContext \<Rightarrow> string option" where
  "trace_id ctx =
     (case tc_traceparent ctx of
        None \<Rightarrow> None
      | Some traceparent \<Rightarrow>
          let parts = split_on (CHR ''-'') traceparent in
          if length parts \<noteq> 4 \<or> length (parts ! 1) \<noteq> 32 then None else Some (parts ! 1))"

text \<open>The entry of a dictionary that is only made for a truthy value.\<close>

definition entry_if :: "string \<Rightarrow> string option \<Rightarrow> (string, string) dict" where
  "entry_if k v = (case v of None \<Rightarrow> [] | Some [] \<Rightarrow> [] | Some t \<Rightarrow> [(k, t)])"

definition to_headers :: "DemoTraceContext \<Rightarrow> string option \<Rightarrow> (string, string) dict" where
  "to_headers ctx traceparent =
     [(''X-Correlation-Id'', tc_correlation_id ctx), (''X-Request-Id'', tc_request_id ctx)]
     @ entry_if ''traceparent'' (or_opt traceparent (tc_traceparent ctx))
     @ entry_if ''tracestate'' (tc_tracestate ctx)"

definition to_tool_arguments ::
    "DemoTraceContext \<Rightarrow> string \<Rightarrow> string option \<Rightarrow> (string, string) dict" where
  "to_tool_arguments ctx fault traceparent =
     [(''correlation_id'', tc_correlation_id ctx), (''request_id'', tc_request_id ctx),
      (''demo_fault'', fault)]
     @ entry_if ''traceparent'' (or_opt traceparent (tc_traceparent ctx))
     @ entry_if ''tracestate'' (tc_tracestate ctx)"

section \<open>Settings\<close>

record DemoAgentSettings =
  service_name :: string
  movie_reservation_mcp_url :: string
  movie_recommendation_mcp_url :: string
  demo_mcp_timeout_seconds :: rat
  demo_recommendation_limit :: int
  demo_reservation_poll_attempts :: int
  demo_reservation_poll_interval_seconds :: rat

definition default_demo_settings :: DemoAgentSettings where
  "default_demo_settings =
     \<lparr> service_name = ''movie-reservation-agent'',
       movie_reservation_mcp_url = ''http://127.0.0.1:8091/mcp'',
       movie_recommendation_mcp_url = ''http://127.0.0.1:8092/mcp'',
       demo_mcp_timeout_seconds = 15,
       demo_recommendation_limit = 5,
       demo_reservation_poll_attempts = 6,
       demo_reservation_poll_interval_seconds = 1 / 4 \<rparr>"

text \<open>The field constraints; settings that break one are refused when they are built.\<close>

definition demo_settings_ok :: "DemoAgentSettings \<Rightarrow> bool" where
  "demo_settings_ok st \<longleftrightarrow>
     0 < demo_mcp_timeout_seconds st \<and> demo_mcp_timeout_seconds st \<le> 60 \<and>
     1 \<le> demo_recommendation_limit st \<and> demo_recommendation_limit st \<le> 20 \<and>
     1 \<le> demo_reservation_poll_attempts st \<and> demo_reservation_poll_attempts st \<le> 20 \<and>
     0 \<le> demo_reservation_poll_interval_seconds st \<and> demo_reservation_poll_interval_seconds st \<le> 5"

section \<open>Requests, tool results, results, errors\<close>

datatype DemoFault = FaultNone | SlowRecommendation | RecommendationError

fun fault_text :: "DemoFault \<Rightarrow> string" where
  "fault_text FaultNone = ''none''"
| "fault_text SlowRecommendation = ''slow-recommendation''"
| "fault_text RecommendationError = ''recommendation-error''"

record DemoReservationRequest =
  dq_movie_preference :: string
  dq_seat_preference :: string
  dq_fault :: DemoFault
  dq_trace_context :: DemoTraceContext

record DemoToolResult =
  dt_tool_name :: string
  dt_outcome :: string
  dt_payload :: pyval
  dt_error :: "string option"

record DemoReservationResult =
  dr_workflow_id :: string
  dr_outcome :: string
  dr_reservation_status :: "string option"
  dr_reservation_request_id :: "string option"
  dr_final_answer :: string
  dr_trace_context :: DemoTraceContext
  dr_movie :: "pydict option"
  dr_screening :: "pydict option"
  dr_seat :: "pydict option"
  dr_tool_results :: "DemoToolResult list"
  dr_error :: "string option"

text \<open>What the workflow raises: its two own errors, or an exception it does not expect.\<close>

datatype demo_error =
    DemoDependencyError DemoReservationResult
  | DemoWorkflowTimeoutError DemoReservationResult
  | Unexpected exn

section \<open>The protocol of the tool client\<close>

record 'm DemoMcpToolClient =
  dm_call_tool :: "string \<Rightarrow> pydict \<Rightarrow> DemoTraceContext \<Rightarrow> DemoFault \<Rightarrow> ('m, DemoToolResult) prog"

section \<open>Trace contexts survive the way between services\<close>

text \<open>Header names are compared without case, as the receiving server does.\<close>

definition receive_headers :: "(string, string) dict \<Rightarrow> headers" where
  "receive_headers d = map (\<lambda>(k, v). (casefold k, v)) d"

lemma casefold_header_names:
  "casefold ''X-Correlation-Id'' = ''x-correlation-id''" "casefold ''X-Request-Id'' = ''x-request-id''"
  "casefold ''traceparent'' = ''traceparent''" "casefold ''tracestate'' = ''tracestate''"
  by code_simp+

lemma receive_headers_simps [simp]:
  "receive_headers (d @ e) = receive_headers d @ receive_headers e"
  "receive_headers [] = []"
  "receive_headers ((k, v) # d) = (casefold k, v) # receive_headers d"
  by (simp_all add: receive_headers_def)

lemma entry_if_cases: "entry_if k v = (case or_opt v None of None \<Rightarrow> [] | Some t \<Rightarrow> [(k, t)])"
  by (auto simp: entry_if_def or_opt_def split: option.splits list.splits)

text \<open>
  A service that is called with the headers of a trace context continues that context: it
  reads back the same correlation id and request id, the trace parent in force at the caller, and
  the trace state.
\<close>

theorem trace_context_survives_the_wire:
  assumes "tc_correlation_id ctx \<noteq> []" and "tc_request_id ctx \<noteq> []"
  shows "trace_from_headers r w (receive_headers (to_headers ctx tp)) None =
    \<lparr> tc_traceparent = or_opt (or_opt tp (tc_traceparent ctx)) None,
      tc_tracestate = or_opt (tc_tracestate ctx) None,
      tc_correlation_id = tc_correlation_id ctx, tc_request_id = tc_request_id ctx,
      tc_workflow_id = w \<rparr>"
proof -
  have rec: "receive_headers (entry_if k v) = entry_if (casefold k) v" for k v
    by (auto simp: entry_if_cases split: option.split)
  have one: "map_of (entry_if k v) k' = (if k = k' then or_opt v None else None)" for k v k'
    by (auto simp: entry_if_cases split: option.split)
  have two: "or_opt v None = Some t \<Longrightarrow> or_opt (Some t) None = Some t" for v t
    by (auto simp: or_opt_def split: option.splits list.splits)
  show ?thesis
    using assms
    by (simp add: trace_from_headers_def to_headers_def Let_def casefold_header_names rec map_add_def one two
        split: option.split)
qed

definition example_context :: DemoTraceContext where
  "example_context =
     \<lparr> tc_traceparent = Some ''00-0af7651916cd43dd8448eb211c80319c-b7ad6b7169203331-01'',
       tc_tracestate = None, tc_correlation_id = ''corr-1'', tc_request_id = ''req-1'',
       tc_workflow_id = ''wf-1'' \<rparr>"

end
