(* ===== verification/DemoSelection.thy ===== *)
theory DemoSelection
  imports DemoModels
begin

text \<open>
  The helper functions of the reservation workflow (the second half of
  \<open>services/demo/reservation.py\<close>): reading tool payloads whose shape is not trusted, choosing a
  seat, and the wording of the answer.
\<close>

section \<open>Reading untrusted payloads\<close>

definition dicts_of :: "pyval list \<Rightarrow> pydict list" where
  "dicts_of xs = List.map_filter as_dict xs"

definition first_mapping :: "pyval \<Rightarrow> pydict option" where
  "first_mapping v =
     (case as_list v of
        None \<Rightarrow> None
      | Some xs \<Rightarrow> List.find (\<lambda>_. True) (dicts_of xs))"

definition find_mapping :: "pyval \<Rightarrow> string \<Rightarrow> string \<Rightarrow> pydict option" where
  "find_mapping items key expected =
     (case as_list items of
        None \<Rightarrow> None
      | Some xs \<Rightarrow> List.find (\<lambda>item. pget item key = PStr expected) (dicts_of xs))"

definition mapping_value :: "pydict \<Rightarrow> string \<Rightarrow> pydict" where
  "mapping_value value key = (case as_dict (pget value key) of None \<Rightarrow> [] | Some nested \<Rightarrow> nested)"

definition optional_mapping_value :: "pydict \<Rightarrow> string \<Rightarrow> pydict option" where
  "optional_mapping_value value key = as_dict (pget value key)"

definition string_value :: "pydict option \<Rightarrow> string \<Rightarrow> string option" where
  "string_value value key =
     (case value of
        None \<Rightarrow> None
      | Some d \<Rightarrow> (case as_str (pget d key) of None \<Rightarrow> None | Some item \<Rightarrow> if item = [] then None else Some item))"

definition normalized_status :: "pydict \<Rightarrow> string option" where
  "normalized_status value =
     (case string_value (Some value) ''status'' of None \<Rightarrow> None | Some status \<Rightarrow> Some (casefold status))"

definition has_seats :: "pydict \<Rightarrow> bool" where
  "has_seats item = (case as_list (pget item ''seats'') of None \<Rightarrow> False | Some seats \<Rightarrow> seats \<noteq> [])"

definition first_screening_with_seats :: "pyval \<Rightarrow> string \<Rightarrow> pydict option" where
  "first_screening_with_seats value movie_id =
     (case as_list value of
        None \<Rightarrow> None
      | Some xs \<Rightarrow>
          List.find (\<lambda>item. pget item ''movieId'' = PStr movie_id \<and> has_seats item) (dicts_of xs))"

section \<open>Choosing a seat\<close>

text \<open>
  \<open>int(value)\<close> with TypeError and ValueError answered by 0: an infinite float raises
  OverflowError, which is not caught.
\<close>

definition truncate :: "rat \<Rightarrow> int" where
  "truncate q = (if 0 \<le> q then floor q else ceiling q)"

fun numeric_value :: "pyval \<Rightarrow> exn + int" where
  "numeric_value (PBool b) = Inr (if b then 1 else 0)"
| "numeric_value (PInt i) = Inr i"
| "numeric_value (PFloat (Fin q)) = Inr (truncate q)"
| "numeric_value (PFloat NaN) = Inr 0"
| "numeric_value (PFloat PosInf) = Inl (OverflowError ''cannot convert float infinity to integer'')"
| "numeric_value (PFloat NegInf) = Inl (OverflowError ''cannot convert float infinity to integer'')"
| "numeric_value (PStr t) = Inr (case int_of_text t of None \<Rightarrow> 0 | Some i \<Rightarrow> i)"
| "numeric_value _ = Inr 0"

text \<open>\<open>max(seats, key=...)\<close>: the keys in order; the first of the greatest wins.\<close>

fun max_by :: "('a \<Rightarrow> exn + int) \<Rightarrow> 'a \<Rightarrow> int \<Rightarrow> 'a list \<Rightarrow> exn + 'a" where
  "max_by key best best_key [] = Inr best"
| "max_by key best best_key (x # xs) =
     (case key x of
        Inl e \<Rightarrow> Inl e
      | Inr k \<Rightarrow> if k > best_key then max_by key x k xs else max_by key best best_key xs)"

fun max_first :: "('a \<Rightarrow> exn + int) \<Rightarrow> 'a list \<Rightarrow> exn + 'a" where
  "max_first key [] = Inl (ValueError ''max() arg is an empty sequence'')"
| "max_first key (x # xs) = (case key x of Inl e \<Rightarrow> Inl e | Inr k \<Rightarrow> max_by key x k xs)"

text \<open>
  Iterating over \<open>screening.get("seats", [])\<close>: the characters of a string and the keys of a
  dictionary are no dictionaries; the other values are not iterable.
\<close>

fun iterated_dicts :: "pyval \<Rightarrow> exn + pydict list" where
  "iterated_dicts (PList xs) = Inr (dicts_of xs)"
| "iterated_dicts (PStr t) = Inr []"
| "iterated_dicts (PDict d) = Inr []"
| "iterated_dicts _ = Inl (TypeError ''object is not iterable'')"

definition seat_number :: "pydict \<Rightarrow> exn + int" where
  "seat_number seat = numeric_value (pget seat ''number'')"

definition choose_seat :: "pydict option \<Rightarrow> string \<Rightarrow> exn + pydict option" where
  "choose_seat screening preference =
     (case screening of
        None \<Rightarrow> Inr None
      | Some sc \<Rightarrow>
          (case iterated_dicts (pget_default sc ''seats'' (PList [])) of
             Inl e \<Rightarrow> Inl e
           | Inr seats \<Rightarrow>
               if seats = [] then Inr None
               else if substring_of ''aisle'' (casefold preference)
               then map_sum id Some (max_first seat_number seats)
               else Inr (Some (hd seats))))"

section \<open>Wording\<close>

definition display_movie :: "pydict \<Rightarrow> string" where
  "display_movie movie = or_else (string_value (Some movie) ''title'') ''the recommended movie''"

definition display_seat :: "pydict \<Rightarrow> string" where
  "display_seat seat =
     (let fallback = or_else (string_value (Some seat) ''id'') ''the selected seat'' in
      case pget seat ''row'' of
        PStr row \<Rightarrow>
          (case pget seat ''number'' of
             PStr number \<Rightarrow> row @ number
           | PInt number \<Rightarrow> row @ int_text number
           | PBool number \<Rightarrow> row @ (if number then ''True'' else ''False'')
           | _ \<Rightarrow> fallback)
      | _ \<Rightarrow> fallback)"

section \<open>Facts\<close>

lemma dicts_of_simps [simp]:
  "dicts_of [] = []"
  "dicts_of (v # vs) = (case as_dict v of None \<Rightarrow> dicts_of vs | Some d \<Rightarrow> d # dicts_of vs)"
  by (simp_all add: dicts_of_def map_filter_simps split: option.split)

lemma in_dicts_of [simp]: "d \<in> set (dicts_of xs) \<longleftrightarrow> PDict d \<in> set xs"
  by (induction xs) (auto split: option.split)

lemma string_value_nonempty: "string_value v k = Some t \<Longrightarrow> t \<noteq> []"
  by (auto simp: string_value_def split: option.splits if_splits)

lemma string_value_pget: "string_value (Some d) k = Some t \<longleftrightarrow> pget d k = PStr t \<and> t \<noteq> []"
  by (auto simp: string_value_def split: option.splits if_splits)

lemma first_screening_spec:
  assumes "first_screening_with_seats v m = Some sc"
  shows "\<exists>xs. v = PList xs \<and> PDict sc \<in> set xs \<and> pget sc ''movieId'' = PStr m \<and>
           (\<exists>seats. pget sc ''seats'' = PList seats \<and> seats \<noteq> [])"
proof -
  obtain xs where "v = PList xs"
    and f: "List.find (\<lambda>item. pget item ''movieId'' = PStr m \<and> has_seats item) (dicts_of xs) = Some sc"
    using assms by (auto simp: first_screening_with_seats_def split: option.splits)
  with find_Some_in [OF f] show ?thesis by (auto simp: has_seats_def split: option.splits)
qed

lemma max_by_spec:
  "max_by key b kb xs = Inr y \<Longrightarrow> key b = Inr kb \<Longrightarrow>
     y \<in> set (b # xs) \<and> (\<exists>ky. key y = Inr ky \<and> kb \<le> ky \<and> (\<forall>x \<in> set xs. \<exists>k. key x = Inr k \<and> k \<le> ky))"
proof (induction xs arbitrary: b kb)
  case (Cons x xs)
  obtain k where k: "key x = Inr k" using Cons.prems(1) by (auto split: sum.splits)
  show ?case
  proof (cases "k > kb")
    case True
    then have "max_by key x k xs = Inr y" using Cons.prems(1) k by simp
    from Cons.IH [OF this k] True k show ?thesis by fastforce
  next
    case False
    then have "max_by key b kb xs = Inr y" using Cons.prems(1) k by simp
    from Cons.IH [OF this Cons.prems(2)] False k show ?thesis by fastforce
  qed
qed simp

lemma max_by_fails: "max_by key b kb xs = Inl e \<Longrightarrow> \<exists>x \<in> set xs. key x = Inl e"
  by (induction xs arbitrary: b kb) (auto split: sum.splits if_splits)

lemma max_first_spec:
  assumes "max_first key xs = Inr y"
  shows "y \<in> set xs \<and> (\<exists>ky. key y = Inr ky \<and> (\<forall>x \<in> set xs. \<exists>k. key x = Inr k \<and> k \<le> ky))"
proof (cases xs)
  case (Cons x xs')
  then obtain k where k: "key x = Inr k" "max_by key x k xs' = Inr y"
    using assms by (auto split: sum.splits)
  show ?thesis using max_by_spec [OF k(2,1)] k(1) Cons by auto
qed (use assms in simp)

lemma seat_number_overflow: "seat_number s = Inl e \<Longrightarrow> \<exists>m. e = OverflowError m"
  unfolding seat_number_def by (cases "pget s ''number''" rule: numeric_value.cases) auto

lemma max_first_overflow:
  assumes "max_first seat_number seats = Inl e" and "seats \<noteq> []"
  shows "\<exists>m. e = OverflowError m"
proof (cases seats)
  case (Cons s ss)
  then show ?thesis
    using assms(1) seat_number_overflow by (auto split: sum.splits dest!: max_by_fails)
qed (use assms in simp)

lemma choose_seat_overflow:
  assumes "choose_seat (first_screening_with_seats v m) preference = Inl e"
  shows "\<exists>msg. e = OverflowError msg"
proof (cases "first_screening_with_seats v m")
  case None
  then show ?thesis using assms by (simp add: choose_seat_def)
next
  case (Some sc)
  obtain seats where "pget sc ''seats'' = PList seats" using first_screening_spec [OF Some] by auto
  then have "pget_default sc ''seats'' (PList []) = PList seats"
    by (auto simp: pget_default_def pget_def split: option.splits)
  then show ?thesis
    using assms Some max_first_overflow by (auto simp: choose_seat_def map_sum_def split: if_splits sum.splits)
qed

text \<open>
  Choosing a seat from a screening that lists seats: without a dictionary among them there is
  none; a preference that mentions an aisle, in any case, gets a seat with the greatest number
  and any other preference the first seat; the only error, OverflowError, needs an infinite seat
  number.
\<close>

theorem choose_seat_meets_preference:
  assumes "pget sc ''seats'' = PList xs"
  shows "case choose_seat (Some sc) preference of
      Inl e \<Rightarrow> (\<exists>m. e = OverflowError m) \<and>
        (\<exists>s. PDict s \<in> set xs \<and> pget s ''number'' \<in> {PFloat PosInf, PFloat NegInf})
    | Inr None \<Rightarrow> dicts_of xs = []
    | Inr (Some seat) \<Rightarrow> PDict seat \<in> set xs \<and>
        (if substring_of ''aisle'' (casefold preference)
         then \<exists>n. seat_number seat = Inr n \<and> (\<forall>s. PDict s \<in> set xs \<longrightarrow> (\<exists>k. seat_number s = Inr k \<and> k \<le> n))
         else seat = hd (dicts_of xs))"
proof (cases "dicts_of xs = [] \<or> \<not> substring_of ''aisle'' (casefold preference)")
  case True
  have "pget_default sc ''seats'' (PList []) = PList xs"
    using assms by (auto simp: pget_default_def pget_def split: option.splits)
  moreover have "dicts_of xs \<noteq> [] \<Longrightarrow> PDict (hd (dicts_of xs)) \<in> set xs"
    using hd_in_set [of "dicts_of xs"] by simp
  ultimately show ?thesis using True by (auto simp: choose_seat_def)
next
  case False
  have seats: "pget_default sc ''seats'' (PList []) = PList xs"
    using assms by (auto simp: pget_default_def pget_def split: option.splits)
  show ?thesis
  proof (cases "max_first seat_number (dicts_of xs)")
    case (Inr seat)
    then show ?thesis
      using max_first_spec [OF Inr] False seats by (auto simp: choose_seat_def)
  next
    case (Inl e)
    obtain d ds where d: "dicts_of xs = d # ds" using False by (cases "dicts_of xs") auto
    have "\<exists>s \<in> set (dicts_of xs). seat_number s = Inl e"
      using Inl d by (auto split: sum.splits dest!: max_by_fails)
    then obtain s where s: "PDict s \<in> set xs" "seat_number s = Inl e" by auto
    then have "pget s ''number'' \<in> {PFloat PosInf, PFloat NegInf}"
      unfolding seat_number_def by (cases "pget s ''number''" rule: numeric_value.cases) auto
    then show ?thesis
      using max_first_overflow [OF Inl] False Inl s(1) seats by (auto simp: choose_seat_def)
  qed
qed

definition example_seats :: "pyval list" where
  "example_seats =
     [PDict [(''id'', PStr ''s1''), (''row'', PStr ''A''), (''number'', PInt 3)],
      PDict [(''id'', PStr ''s2''), (''row'', PStr ''A''), (''number'', PStr ''12'')]]"

end
