(* ===== verification/DemoWorkflow.thy ===== *)
theory DemoWorkflow
  imports DemoSelection
begin

text \<open>
  The reservation workflow (\<open>DemoReservationService\<close> in \<open>services/demo/reservation.py\<close>) over any
  tool client: four tools are called in turn, the last one polled until the reservation is
  decided. The state is the list of tool results that the service keeps, the time it has slept
  while polling, and the world behind the tool client. Spans and log lines are left out.
\<close>

section \<open>State and errors\<close>

record 'm workflow_state =
  wf_tool_results :: "DemoToolResult list"
  wf_slept :: rat
  wf_world :: 'm

type_synonym ('m, 'a) workflow = "(demo_error, 'm workflow_state, 'a) eprog"

definition on_client :: "('m, 'a) prog \<Rightarrow> ('m, 'a) workflow" where
  "on_client m = (\<lambda>s. case m (wf_world s) of
     (Inl e, w) \<Rightarrow> (Inl (Unexpected e), s\<lparr> wf_world := w \<rparr>)
   | (Inr x, w) \<Rightarrow> (Inr x, s\<lparr> wf_world := w \<rparr>))"

definition sleep :: "rat \<Rightarrow> ('m, unit) workflow" where
  "sleep seconds = modify (\<lambda>s. s\<lparr> wf_slept := wf_slept s + seconds \<rparr>)"

definition dependency_result ::
    "DemoReservationRequest \<Rightarrow> DemoToolResult list \<Rightarrow> string \<Rightarrow> DemoReservationResult" where
  "dependency_result request tool_results err =
     \<lparr> dr_workflow_id = tc_workflow_id (dq_trace_context request),
       dr_outcome = ''dependency_failed'',
       dr_reservation_status = None,
       dr_reservation_request_id = None,
       dr_final_answer = ''A dependency failed during the reservation workflow.'',
       dr_trace_context = dq_trace_context request,
       dr_movie = None, dr_screening = None, dr_seat = None,
       dr_tool_results = tool_results,
       dr_error = Some err \<rparr>"

definition timeout_result ::
    "DemoReservationRequest \<Rightarrow> DemoToolResult list \<Rightarrow> string \<Rightarrow> string option \<Rightarrow> string option \<Rightarrow>
     DemoReservationResult" where
  "timeout_result request tool_results err reservation_request_id reservation_status =
     \<lparr> dr_workflow_id = tc_workflow_id (dq_trace_context request),
       dr_outcome = ''timeout'',
       dr_reservation_status = reservation_status,
       dr_reservation_request_id = reservation_request_id,
       dr_final_answer = ''The reservation workflow timed out before confirmation.'',
       dr_trace_context = dq_trace_context request,
       dr_movie = None, dr_screening = None, dr_seat = None,
       dr_tool_results = tool_results,
       dr_error = Some err \<rparr>"

definition raise_dependency_error :: "DemoReservationRequest \<Rightarrow> string \<Rightarrow> ('m, 'a) workflow" where
  "raise_dependency_error request err =
     bindM (gets wf_tool_results) (\<lambda>tool_results.
     throw (DemoDependencyError (dependency_result request tool_results err)))"

definition raise_timeout_error ::
    "DemoReservationRequest \<Rightarrow> string \<Rightarrow> string option \<Rightarrow> string option \<Rightarrow> ('m, 'a) workflow" where
  "raise_timeout_error request err reservation_request_id reservation_status =
     bindM (gets wf_tool_results) (\<lambda>tool_results.
     throw (DemoWorkflowTimeoutError
       (timeout_result request tool_results err reservation_request_id reservation_status)))"

section \<open>Calling a tool\<close>

definition record_result :: "string \<Rightarrow> bool \<Rightarrow> DemoToolResult \<Rightarrow> 'm workflow_state \<Rightarrow> 'm workflow_state" where
  "record_result tool_name replace_existing result s =
     (let kept = (if replace_existing then filter (\<lambda>item. dt_tool_name item \<noteq> tool_name) (wf_tool_results s)
                  else wf_tool_results s)
      in s\<lparr> wf_tool_results := kept @ [result] \<rparr>)"

definition call_required ::
    "'m DemoMcpToolClient \<Rightarrow> DemoReservationRequest \<Rightarrow> string \<Rightarrow> pydict \<Rightarrow> bool \<Rightarrow> ('m, pydict) workflow" where
  "call_required client request tool_name arguments replace_existing =
     bindM (on_client (dm_call_tool client tool_name arguments (dq_trace_context request) (dq_fault request)))
       (\<lambda>result.
     bindM (modify (record_result tool_name replace_existing result)) (\<lambda>_.
     if dt_outcome result = ''timeout''
     then raise_timeout_error request (or_else (dt_error result) ''mcp_tool_timeout'') None None
     else if dt_outcome result \<noteq> ''succeeded''
     then raise_dependency_error request (or_else (dt_error result) ''mcp_tool_failed'')
     else case as_dict (dt_payload result) of
            None \<Rightarrow> raise_dependency_error request ''mcp_tool_contract_invalid''
          | Some payload \<Rightarrow> ret payload))"

section \<open>The steps of the workflow\<close>

definition recommend_movie ::
    "DemoAgentSettings \<Rightarrow> 'm DemoMcpToolClient \<Rightarrow> DemoReservationRequest \<Rightarrow> ('m, pydict \<times> string) workflow" where
  "recommend_movie settings client request =
     bindM (call_required client request ''recommendation_get_movies''
              [(''limit'', PInt (demo_recommendation_limit settings)),
               (''preference'', PStr (dq_movie_preference request))] False) (\<lambda>recommendation_payload.
     let recommendation = first_mapping (pget recommendation_payload ''recommendations'') in
     case recommendation of
       None \<Rightarrow> raise_dependency_error request ''recommendation_contract_invalid''
     | Some rec \<Rightarrow>
         (case string_value recommendation ''movie_reservation_movie_id'' of
            None \<Rightarrow> raise_dependency_error request ''recommendation_contract_invalid''
          | Some movie_id \<Rightarrow> ret (rec, movie_id)))"

definition pick_seat ::
    "'m DemoMcpToolClient \<Rightarrow> DemoReservationRequest \<Rightarrow> pydict \<Rightarrow> string \<Rightarrow>
     ('m, pydict \<times> pydict \<times> pydict \<times> string \<times> string) workflow" where
  "pick_seat client request recommendation movie_id =
     bindM (call_required client request ''reservation_get_catalog'' [(''movie_id'', PStr movie_id)] False)
       (\<lambda>catalog_payload.
     let catalog = mapping_value catalog_payload ''catalog'';
         movie = (case find_mapping (pget catalog ''movies'') ''id'' movie_id of
                    None \<Rightarrow> recommendation
                  | Some m \<Rightarrow> if m = [] then recommendation else m);
         screening = first_screening_with_seats (pget catalog ''screenings'') movie_id in
     bindM (liftE (map_sum Unexpected id (choose_seat screening (dq_seat_preference request)))) (\<lambda>seat.
     case (screening, seat, string_value screening ''id'', string_value seat ''id'') of
       (Some sc, Some st, Some screening_id, Some seat_id) \<Rightarrow> ret (movie, sc, st, screening_id, seat_id)
     | _ \<Rightarrow> raise_dependency_error request ''reservation_catalog_has_no_seats''))"

definition request_seat ::
    "'m DemoMcpToolClient \<Rightarrow> DemoReservationRequest \<Rightarrow> string \<Rightarrow> string \<Rightarrow>
     ('m, string \<times> string option) workflow" where
  "request_seat client request screening_id seat_id =
     bindM (call_required client request ''reservation_request_seats''
              [(''screening_id'', PStr screening_id), (''seat_ids'', PList [PStr seat_id])] False)
       (\<lambda>reservation_payload.
     let reservation_request = mapping_value reservation_payload ''reservation_request'';
         reservation_status = normalized_status reservation_request in
     case string_value (Some reservation_request) ''id'' of
       None \<Rightarrow> raise_dependency_error request ''reservation_request_contract_invalid''
     | Some reservation_request_id \<Rightarrow> ret (reservation_request_id, reservation_status))"

definition decided_result ::
    "DemoReservationRequest \<Rightarrow> string \<Rightarrow> string \<Rightarrow> string \<Rightarrow> pydict \<Rightarrow> pydict \<Rightarrow> pydict \<Rightarrow>
     DemoToolResult list \<Rightarrow> DemoReservationResult" where
  "decided_result request outcome answer reservation_request_id movie screening seat tool_results =
     \<lparr> dr_workflow_id = tc_workflow_id (dq_trace_context request),
       dr_outcome = outcome,
       dr_reservation_status = Some outcome,
       dr_reservation_request_id = Some reservation_request_id,
       dr_final_answer = answer,
       dr_trace_context = dq_trace_context request,
       dr_movie = Some movie, dr_screening = Some screening, dr_seat = Some seat,
       dr_tool_results = tool_results,
       dr_error = None \<rparr>"

text \<open>The polling loop with the number of attempts left.\<close>

fun poll_loop ::
    "DemoAgentSettings \<Rightarrow> 'm DemoMcpToolClient \<Rightarrow> DemoReservationRequest \<Rightarrow> string \<Rightarrow> pydict \<Rightarrow> pydict \<Rightarrow>
     pydict \<Rightarrow> nat \<Rightarrow> string option \<Rightarrow> ('m, DemoReservationResult) workflow" where
  "poll_loop settings client request reservation_request_id movie screening seat 0 reservation_status =
     raise_timeout_error request ''reservation_confirmation_timeout''
       (Some reservation_request_id) reservation_status"
| "poll_loop settings client request reservation_request_id movie screening seat (Suc attempts_left)
     reservation_status =
     bindM (call_required client request ''reservation_get_request_status''
              [(''reservation_request_id'', PStr reservation_request_id)] True) (\<lambda>status_payload.
     let status_request = mapping_value status_payload ''reservation_request'';
         reservation_status = or_opt (normalized_status status_request) reservation_status;
         reservation = optional_mapping_value status_payload ''reservation'' in
     if reservation \<noteq> None \<or> reservation_status = Some ''confirmed'' then
       bindM (gets wf_tool_results) (\<lambda>tool_results.
       ret (decided_result request ''confirmed''
              (''Reserved seat '' @ display_seat seat @ '' for '' @ display_movie movie @ ''.'')
              reservation_request_id movie screening seat tool_results))
     else if reservation_status = Some ''rejected'' \<or> reservation_status = Some ''failed'' then
       bindM (gets wf_tool_results) (\<lambda>tool_results.
       ret (decided_result request (the reservation_status)
              (''The reservation request was '' @ the reservation_status @ ''.'')
              reservation_request_id movie screening seat tool_results))
     else
       bindM (if attempts_left \<noteq> 0 then sleep (demo_reservation_poll_interval_seconds settings) else ret ())
         (\<lambda>_.
       poll_loop settings client request reservation_request_id movie screening seat attempts_left
         reservation_status))"

definition run_workflow ::
    "DemoAgentSettings \<Rightarrow> 'm DemoMcpToolClient \<Rightarrow> DemoReservationRequest \<Rightarrow>
     ('m, DemoReservationResult) workflow" where
  "run_workflow settings client request =
     bindM (recommend_movie settings client request) (\<lambda>(recommendation, movie_id).
     bindM (pick_seat client request recommendation movie_id)
       (\<lambda>(movie, screening, seat, screening_id, seat_id).
     bindM (request_seat client request screening_id seat_id)
       (\<lambda>(reservation_request_id, reservation_status).
     poll_loop settings client request reservation_request_id movie screening seat
       (nat (demo_reservation_poll_attempts settings)) reservation_status)))"

text \<open>The public operation starts without tool results; it lets every error through.\<close>

definition service_reserve_recommended_seat ::
    "DemoAgentSettings \<Rightarrow> 'm DemoMcpToolClient \<Rightarrow> DemoReservationRequest \<Rightarrow> 'm \<Rightarrow>
     (demo_error + DemoReservationResult) \<times> 'm workflow_state" where
  "service_reserve_recommended_seat settings client request world =
     run_workflow settings client request
       \<lparr> wf_tool_results = [], wf_slept = 0, wf_world = world \<rparr>"

section \<open>A client that records its calls\<close>

text \<open>
  To state which tools are called with which arguments, a client is wrapped so that its world
  also holds the calls made.
\<close>

definition recorded ::
    "'m DemoMcpToolClient \<Rightarrow> ('m \<times> (string \<times> pydict) list) DemoMcpToolClient" where
  "recorded client =
     \<lparr> dm_call_tool = (\<lambda>tool_name arguments ctx fault (m, calls).
         case dm_call_tool client tool_name arguments ctx fault m of
           (r, m') \<Rightarrow> (r, (m', calls @ [(tool_name, arguments)]))) \<rparr>"

section \<open>The contract of a tool client and what the workflow does over it\<close>

text \<open>
  A failed workflow: one of the two errors, with a message, the caller's trace context, and the
  results of the tools called so far.
\<close>

definition failed_with :: "DemoReservationRequest \<Rightarrow> string list \<Rightarrow> demo_error \<Rightarrow> bool" where
  "failed_with request names e \<longleftrightarrow>
     (\<exists>r err. (e = DemoDependencyError r \<and> dr_outcome r = ''dependency_failed'' \<or>
               e = DemoWorkflowTimeoutError r \<and> dr_outcome r = ''timeout'') \<and>
        dr_error r = Some err \<and> err \<noteq> [] \<and> dr_trace_context r = dq_trace_context request \<and>
        map dt_tool_name (dr_tool_results r) = names)"

lemma failed_with_dependency:
  "err \<noteq> [] \<Longrightarrow> failed_with request (map dt_tool_name rs) (DemoDependencyError (dependency_result request rs err))"
  by (simp add: failed_with_def dependency_result_def)

lemma failed_with_timeout:
  "err \<noteq> [] \<Longrightarrow> failed_with request (map dt_tool_name rs) (DemoWorkflowTimeoutError (timeout_result request rs err a b))"
  by (simp add: failed_with_def timeout_result_def)

text \<open>The calls made and the tools with a result, as functions of how far the workflow got.\<close>

definition at_stage ::
    "string list \<Rightarrow> (string \<times> pydict) list \<Rightarrow> rat \<Rightarrow> ('m \<times> (string \<times> pydict) list) workflow_state \<Rightarrow> bool" where
  "at_stage names calls slept s \<longleftrightarrow>
     map dt_tool_name (wf_tool_results s) = names \<and> snd (wf_world s) = calls \<and> wf_slept s = slept"

definition failed_at ::
    "(exn \<Rightarrow> bool) \<Rightarrow> DemoReservationRequest \<Rightarrow> string list \<Rightarrow> (string \<times> pydict) list \<Rightarrow> rat \<Rightarrow> demo_error \<Rightarrow>
     ('m \<times> (string \<times> pydict) list) workflow_state \<Rightarrow> bool" where
  "failed_at bad request names calls slept e s \<longleftrightarrow>
     (\<exists>ns. prefix ns names \<and> at_stage ns calls slept s \<and>
        (failed_with request ns e \<or> (\<exists>x. e = Unexpected x \<and> (bad x \<or> (\<exists>m. x = OverflowError m)))))"

lemma valid_raise_dependency:
  "err \<noteq> [] \<Longrightarrow> valid (at_stage names calls z) (raise_dependency_error request err) Q (failed_at bad request names calls z)"
  unfolding raise_dependency_error_def
  by (auto simp: valid_def bindM_def gets_def throw_def failed_at_def at_stage_def failed_with_dependency)

lemma valid_raise_timeout:
  "err \<noteq> [] \<Longrightarrow> valid (at_stage names calls z) (raise_timeout_error request err a b) Q (failed_at bad request names calls z)"
  unfolding raise_timeout_error_def
  by (auto simp: valid_def bindM_def gets_def throw_def failed_at_def at_stage_def failed_with_timeout)

text \<open>The payload that a tool's latest result carries.\<close>

definition answered :: "string \<Rightarrow> pydict \<Rightarrow> DemoToolResult list \<Rightarrow> bool" where
  "answered tool payload results \<longleftrightarrow>
     (\<exists>r \<in> set results. dt_tool_name r = tool \<and> dt_outcome r = ''succeeded'' \<and> dt_payload r = PDict payload)"

lemma answered_keep:
  "answered tool p (wf_tool_results s) \<Longrightarrow> tool \<noteq> tool' \<Longrightarrow>
     answered tool p (wf_tool_results (record_result tool' b r s))"
  by (auto simp: answered_def record_result_def Let_def)

text \<open>What each step took from its tool's payload.\<close>

definition recommended :: "pydict \<Rightarrow> string \<Rightarrow> DemoToolResult list \<Rightarrow> bool" where
  "recommended movie movie_id results \<longleftrightarrow>
     (\<exists>p. answered ''recommendation_get_movies'' p results \<and>
        first_mapping (pget p ''recommendations'') = Some movie \<and>
        string_value (Some movie) ''movie_reservation_movie_id'' = Some movie_id)"

definition selected ::
    "DemoReservationRequest \<Rightarrow> pydict \<Rightarrow> string \<Rightarrow> pydict \<Rightarrow> pydict \<Rightarrow> pydict \<Rightarrow> string \<Rightarrow> string \<Rightarrow>
     DemoToolResult list \<Rightarrow> bool" where
  "selected request recommendation movie_id movie screening seat screening_id seat_id results \<longleftrightarrow>
     (\<exists>p. answered ''reservation_get_catalog'' p results \<and>
        movie = (case find_mapping (pget (mapping_value p ''catalog'') ''movies'') ''id'' movie_id of
                   None \<Rightarrow> recommendation
                 | Some m \<Rightarrow> if m = [] then recommendation else m) \<and>
        first_screening_with_seats (pget (mapping_value p ''catalog'') ''screenings'') movie_id = Some screening \<and>
        choose_seat (Some screening) (dq_seat_preference request) = Inr (Some seat) \<and>
        string_value (Some screening) ''id'' = Some screening_id \<and>
        string_value (Some seat) ''id'' = Some seat_id)"

definition requested :: "string \<Rightarrow> string option \<Rightarrow> DemoToolResult list \<Rightarrow> bool" where
  "requested reservation_request_id status results \<longleftrightarrow>
     (\<exists>p. answered ''reservation_request_seats'' p results \<and>
        string_value (Some (mapping_value p ''reservation_request'')) ''id'' = Some reservation_request_id \<and>
        status = normalized_status (mapping_value p ''reservation_request''))"

text \<open>What the last status answer must say for an outcome, given the status of the request itself.\<close>

definition decided :: "string option \<Rightarrow> string \<Rightarrow> DemoToolResult list \<Rightarrow> bool" where
  "decided first_status outcome results \<longleftrightarrow>
     (\<exists>p. answered ''reservation_get_request_status'' p results \<and>
        (optional_mapping_value p ''reservation'' \<noteq> None \<and> outcome = ''confirmed'' \<or>
         or_opt (normalized_status (mapping_value p ''reservation_request'')) first_status = Some outcome \<and>
         outcome \<in> {''confirmed'', ''rejected'', ''failed''}))"

lemma facts_keep:
  "recommended m i (wf_tool_results s) \<Longrightarrow> t \<noteq> ''recommendation_get_movies'' \<Longrightarrow>
     recommended m i (wf_tool_results (record_result t b r s))"
  "selected q rc i mv sc st a c (wf_tool_results s) \<Longrightarrow> t \<noteq> ''reservation_get_catalog'' \<Longrightarrow>
     selected q rc i mv sc st a c (wf_tool_results (record_result t b r s))"
  "requested i st0 (wf_tool_results s) \<Longrightarrow> t \<noteq> ''reservation_request_seats'' \<Longrightarrow>
     requested i st0 (wf_tool_results (record_result t b r s))"
  unfolding recommended_def selected_def requested_def
  using answered_keep [where tool' = t and b = b and r = r and s = s] by blast+

text \<open>The calls of a workflow.\<close>

definition recommend_call :: "DemoAgentSettings \<Rightarrow> DemoReservationRequest \<Rightarrow> string \<times> pydict" where
  "recommend_call settings request =
     (''recommendation_get_movies'',
      [(''limit'', PInt (demo_recommendation_limit settings)),
       (''preference'', PStr (dq_movie_preference request))])"

definition catalog_call :: "string \<Rightarrow> string \<times> pydict" where
  "catalog_call movie_id = (''reservation_get_catalog'', [(''movie_id'', PStr movie_id)])"

definition seat_call :: "string \<Rightarrow> string \<Rightarrow> string \<times> pydict" where
  "seat_call screening_id seat_id =
     (''reservation_request_seats'',
      [(''screening_id'', PStr screening_id), (''seat_ids'', PList [PStr seat_id])])"

definition status_call :: "string \<Rightarrow> string \<times> pydict" where
  "status_call reservation_request_id =
     (''reservation_get_request_status'', [(''reservation_request_id'', PStr reservation_request_id)])"

abbreviation three_tools :: "string list" where
  "three_tools \<equiv> [''recommendation_get_movies'', ''reservation_get_catalog'', ''reservation_request_seats'']"

abbreviation tools_after :: "nat \<Rightarrow> string list" where
  "tools_after n \<equiv> (if n = 0 then three_tools else three_tools @ [''reservation_get_request_status''])"

definition decided_at ::
    "DemoReservationRequest \<Rightarrow> string \<Rightarrow> pydict \<Rightarrow> pydict \<Rightarrow> pydict \<Rightarrow> string option \<Rightarrow>
     DemoReservationResult \<Rightarrow> DemoToolResult list \<Rightarrow> bool" where
  "decided_at request i movie sc st first_status r results \<longleftrightarrow>
     decided first_status (dr_outcome r) results \<and>
     r = decided_result request (dr_outcome r) (dr_final_answer r) i movie sc st results"

text \<open>
  A reservation that was decided: the tools were called in order, each with what the one before
  answered, and the result says what they said.
\<close>

definition reserved ::
    "DemoAgentSettings \<Rightarrow> DemoReservationRequest \<Rightarrow> nat \<Rightarrow> DemoReservationResult \<Rightarrow>
     ('m \<times> (string \<times> pydict) list) workflow_state \<Rightarrow> bool" where
  "reserved settings request attempts r s \<longleftrightarrow>
     (\<exists>rec mid movie sc st scid sid i first_status n.
        0 < n \<and> n \<le> attempts \<and>
        at_stage (three_tools @ [''reservation_get_request_status''])
          ([recommend_call settings request, catalog_call mid, seat_call scid sid] @ replicate n (status_call i))
          (of_nat (n - 1) * demo_reservation_poll_interval_seconds settings) s \<and>
        recommended rec mid (wf_tool_results s) \<and>
        selected request rec mid movie sc st scid sid (wf_tool_results s) \<and>
        requested i first_status (wf_tool_results s) \<and>
        decided_at request i movie sc st first_status r (wf_tool_results s))"

definition not_reserved ::
    "(exn \<Rightarrow> bool) \<Rightarrow> DemoAgentSettings \<Rightarrow> DemoReservationRequest \<Rightarrow> nat \<Rightarrow> demo_error \<Rightarrow>
     ('m \<times> (string \<times> pydict) list) workflow_state \<Rightarrow> bool" where
  "not_reserved bad settings request attempts e s \<longleftrightarrow>
     (\<exists>calls names n. n \<le> attempts \<and>
        failed_at bad request names calls (of_nat (n - 1) * demo_reservation_poll_interval_seconds settings) e s \<and>
        prefix names (three_tools @ [''reservation_get_request_status'']) \<and>
        prefix (map fst calls) (three_tools @ replicate n ''reservation_get_request_status''))"

lemma reserved_facts:
  assumes "reserved settings request attempts r s"
  shows "\<exists>rec mid movie sc st scid sid i first_status.
     recommended rec mid (wf_tool_results s) \<and> selected request rec mid movie sc st scid sid (wf_tool_results s) \<and>
     requested i first_status (wf_tool_results s) \<and>
     decided_at request i movie sc st first_status r (wf_tool_results s)"
  using assms unfolding reserved_def by (elim exE conjE) (intro exI conjI; assumption)

lemma not_reserved_error:
  assumes "not_reserved bad settings request attempts e s"
  shows "(\<exists>ns. failed_with request ns e) \<or>
         (\<exists>x. e = Unexpected x \<and> (bad x \<or> (\<exists>m. x = OverflowError m)))"
  using assms unfolding not_reserved_def failed_at_def by (elim exE conjE) (erule disjE, auto)

lemma not_reservedI:
  "failed_at bad request names calls (of_nat (n - 1) * demo_reservation_poll_interval_seconds settings) e s \<Longrightarrow>
     n \<le> attempts \<Longrightarrow> prefix names (three_tools @ [''reservation_get_request_status'']) \<Longrightarrow>
     prefix (map fst calls) (three_tools @ replicate n ''reservation_get_request_status'') \<Longrightarrow>
     not_reserved bad settings request attempts e s"
  unfolding not_reserved_def by blast

lemma not_reserved_early:
  "failed_at bad request names calls 0 e s \<Longrightarrow>
     prefix names three_tools \<Longrightarrow> prefix (map fst calls) three_tools \<Longrightarrow>
     not_reserved bad settings request attempts e s"
  by (rule not_reservedI [where n = 0 and names = names and calls = calls]) (auto intro: prefix_order.trans)

text \<open>The state when a number of polls have been made, and a loop that ends after some of them.\<close>

definition polled_at ::
    "DemoAgentSettings \<Rightarrow> (string \<times> pydict) list \<Rightarrow> string \<Rightarrow> nat \<Rightarrow> nat \<Rightarrow>
     ('m \<times> (string \<times> pydict) list) workflow_state \<Rightarrow> bool" where
  "polled_at settings calls i n sleeps =
     at_stage (tools_after n) (calls @ replicate n (status_call i))
       (of_nat sleeps * demo_reservation_poll_interval_seconds settings)"

definition poll_ends ::
    "DemoAgentSettings \<Rightarrow> (string \<times> pydict) list \<Rightarrow> string \<Rightarrow> (DemoReservationResult \<Rightarrow> DemoToolResult list \<Rightarrow> bool) \<Rightarrow>
     nat \<Rightarrow> nat \<Rightarrow> DemoReservationResult \<Rightarrow> ('m \<times> (string \<times> pydict) list) workflow_state \<Rightarrow> bool" where
  "poll_ends settings calls i D k m r s \<longleftrightarrow>
     (\<exists>n. k < n \<and> n \<le> m \<and> polled_at settings calls i n (n - 1) s \<and> D r (wf_tool_results s))"

definition poll_fails ::
    "(exn \<Rightarrow> bool) \<Rightarrow> DemoAgentSettings \<Rightarrow> DemoReservationRequest \<Rightarrow> (string \<times> pydict) list \<Rightarrow> string \<Rightarrow>
     nat \<Rightarrow> nat \<Rightarrow> demo_error \<Rightarrow> ('m \<times> (string \<times> pydict) list) workflow_state \<Rightarrow> bool" where
  "poll_fails bad settings request calls i k m e s \<longleftrightarrow>
     (\<exists>n. k \<le> n \<and> n \<le> m \<and>
        failed_at bad request (tools_after n) (calls @ replicate n (status_call i))
          (of_nat (n - 1) * demo_reservation_poll_interval_seconds settings) e s)"

lemma poll_later:
  "poll_ends settings calls i D (Suc k) m r s \<Longrightarrow> poll_ends settings calls i D k m r s"
  "poll_fails bad settings request calls i (Suc k) m e s \<Longrightarrow> poll_fails bad settings request calls i k m e s"
  unfolding poll_ends_def poll_fails_def by (meson Suc_lessD Suc_leD)+

lemma poll_timeout:
  "valid (polled_at settings calls i k (k - 1))
     (raise_timeout_error request ''reservation_confirmation_timeout'' (Some rid) status) Q
     (poll_fails bad settings request calls i k k)"
proof (rule valid_weaken [OF valid_raise_timeout [where bad = bad and names = "tools_after k"
        and calls = "calls @ replicate k (status_call i)"
        and z = "of_nat (k - 1) * demo_reservation_poll_interval_seconds settings"]], goal_cases)
  case (4 e s)
  then show ?case unfolding poll_fails_def by (intro exI [of _ k]) simp
qed (simp_all add: polled_at_def)

lemma poll_decides:
  assumes "\<And>s. P s \<Longrightarrow> polled_at settings calls i n (n - 1) s" and "k < n" "n \<le> m"
    and "\<And>s. P s \<Longrightarrow> D (decided_result request outcome answer i movie sc seat (wf_tool_results s)) (wf_tool_results s)"
  shows "valid P (bindM (gets wf_tool_results) (\<lambda>tool_results.
      ret (decided_result request outcome answer i movie sc seat tool_results)))
    (poll_ends settings calls i D k m) E"
  using assms unfolding valid_def poll_ends_def bindM_def gets_def ret_def by auto

lemma poll_waits:
  "valid (\<lambda>s. polled_at settings calls i (Suc k) k s \<and> I (wf_tool_results s))
     (if left \<noteq> 0 then sleep (demo_reservation_poll_interval_seconds settings) else ret ())
     (\<lambda>_ s. polled_at settings calls i (Suc k) (case left of 0 \<Rightarrow> Suc k - 1 | Suc _ \<Rightarrow> Suc k) s \<and> I (wf_tool_results s)) E"
  by (rule validI) (auto simp: sleep_def modify_def ret_def polled_at_def at_stage_def algebra_simps split: nat.split)

lemma reserved_after_polls:
  "poll_ends settings [recommend_call settings request, catalog_call mid, seat_call scid sid] i
     (\<lambda>r rs. ((recommended rec mid rs \<and> selected request rec mid movie sc st scid sid rs) \<and> requested i status rs) \<and>
        decided_at request i movie sc st status r rs) 0 attempts r s \<Longrightarrow>
   reserved settings request attempts r s"
  unfolding poll_ends_def polled_at_def reserved_def
  by (elim exE conjE, simp only: if_not_P neq0_conv) (intro exI conjI; assumption)

lemma not_reserved_after_polls:
  "poll_fails bad settings request [recommend_call settings request, catalog_call mid, seat_call scid sid] i
     0 attempts e s \<Longrightarrow> not_reserved bad settings request attempts e s"
  unfolding poll_fails_def
  by (elim exE conjE, erule not_reservedI)
     (simp_all add: recommend_call_def catalog_call_def seat_call_def status_call_def)

lemma failed_at_stage:
  assumes "at_stage names calls z s" and "err \<noteq> []"
  shows "failed_at bad request names calls z
           (DemoDependencyError (dependency_result request (wf_tool_results s) err)) s"
    and "failed_at bad request names calls z
           (DemoWorkflowTimeoutError (timeout_result request (wf_tool_results s) err rid status)) s"
  using assms failed_with_dependency [of err request "wf_tool_results s"]
    failed_with_timeout [of err request "wf_tool_results s"]
  by (auto simp: failed_at_def at_stage_def)

text \<open>A client answers for the tool it was asked for; \<open>bad\<close> are the exceptions it may let through.\<close>

locale demo_tool_client =
  fixes client :: "'m DemoMcpToolClient"
    and bad :: "exn \<Rightarrow> bool"
  assumes answers: "dm_call_tool client tool args ctx fault m = (Inr r, m') \<Longrightarrow> dt_tool_name r = tool"
    and raises: "dm_call_tool client tool args ctx fault m = (Inl e, m') \<Longrightarrow> bad e"
begin

text \<open>One tool call: it is recorded, its result is kept, and everything but a dictionary fails.\<close>

lemma call_spec:
  assumes keep: "\<And>s. P s \<Longrightarrow> at_stage names calls z s"
    and names': "names' = (if b then filter (\<lambda>n. n \<noteq> tool) names else names) @ [tool]"
      "prefix names names'"
    and stable: "\<And>s r m. P s \<Longrightarrow> I (wf_tool_results (record_result tool b r s))"
  shows "valid P (call_required (recorded client) request tool args b)
    (\<lambda>payload s. at_stage names' (calls @ [(tool, args)]) z s \<and> answered tool payload (wf_tool_results s) \<and>
                 I (wf_tool_results s))
    (failed_at bad request names' (calls @ [(tool, args)]) z)"
proof (rule validI)
  fix s
  assume P: "P s"
  obtain m log where w: "wf_world s = (m, log)" by fastforce
  have st: "map dt_tool_name (wf_tool_results s) = names" "log = calls" "wf_slept s = z"
    using keep [OF P] w by (simp_all add: at_stage_def)
  obtain q m' where q: "dm_call_tool client tool args (dq_trace_context request) (dq_fault request) m = (q, m')"
    by fastforce
  show "case call_required (recorded client) request tool args b s of
      (Inr payload, s) \<Rightarrow> at_stage names' (calls @ [(tool, args)]) z s \<and> answered tool payload (wf_tool_results s) \<and>
                 I (wf_tool_results s)
    | (Inl e, s) \<Rightarrow> failed_at bad request names' (calls @ [(tool, args)]) z e s"
  proof (cases q)
    case (Inl e)
    then have "bad e" using raises q by blast
    moreover have "at_stage names (calls @ [(tool, args)]) z (s\<lparr> wf_world := (m', log @ [(tool, args)]) \<rparr>)"
      using st by (simp add: at_stage_def)
    ultimately show ?thesis
      using q Inl w names'(2)
      by (auto simp: call_required_def recorded_def on_client_def bindM_def failed_at_def)
  next
    case (Inr r)
    then have r: "dt_tool_name r = tool" using answers q by blast
    let ?t = "record_result tool b r (s\<lparr> wf_world := (m', log @ [(tool, args)]) \<rparr>)"
    have t: "at_stage names' (calls @ [(tool, args)]) z ?t"
      using st r names'(1) by (auto simp: at_stage_def record_result_def Let_def filter_map comp_def)
    have res: "wf_tool_results ?t = wf_tool_results (record_result tool b r s)"
      by (simp add: record_result_def Let_def)
    have last: "dt_outcome r = ''succeeded'' \<Longrightarrow> dt_payload r = PDict p \<Longrightarrow> answered tool p (wf_tool_results ?t)" for p
      using r by (auto simp: answered_def record_result_def Let_def)
    show ?thesis
      using q Inr w st(2) t failed_at_stage [OF t] last stable [OF P] res or_else_nonempty
      by (auto simp: call_required_def recorded_def on_client_def bindM_def modify_def ret_def
          raise_timeout_error_def raise_dependency_error_def gets_def throw_def
          split: option.split)
  qed
qed

lemma call_then:
  assumes "\<And>s. P s \<Longrightarrow> at_stage names calls z s"
    and "names' = (if b then filter (\<lambda>n. n \<noteq> tool) names else names) @ [tool]" "prefix names names'"
    and "calls' = calls @ [(tool, args)]"
    and "\<And>s r. P s \<Longrightarrow> I (wf_tool_results (record_result tool b r s))"
    and "\<And>payload. valid (\<lambda>s. at_stage names' calls' z s \<and> answered tool payload (wf_tool_results s) \<and>
                 I (wf_tool_results s)) (f payload) Q E"
    and "\<And>e s. failed_at bad request names' calls' z e s \<Longrightarrow> E e s"
  shows "valid P (bindM (call_required (recorded client) request tool args b) f) Q E"
proof (rule valid_bindM)
  show "valid P (call_required (recorded client) request tool args b)
    (\<lambda>payload s. at_stage names' calls' z s \<and> answered tool payload (wf_tool_results s) \<and>
                 I (wf_tool_results s)) E"
    unfolding assms(4)
    by (rule valid_weaken [OF call_spec [where P = P and names = names and I = I]])
       (use assms(1-3,5,7) in \<open>auto simp: assms(4)\<close>)
qed (rule assms(6))

lemma recommend_spec:
  "valid (at_stage [] [] 0) (recommend_movie settings (recorded client) request)
     (\<lambda>(movie, movie_id) s. at_stage [''recommendation_get_movies''] [recommend_call settings request] 0 s \<and>
        recommended movie movie_id (wf_tool_results s))
     (failed_at bad request [''recommendation_get_movies''] [recommend_call settings request] 0)"
  unfolding recommend_movie_def
proof (rule call_then [where names = "[]" and calls = "[]" and z = 0 and I = "\<lambda>_. True"
        and names' = "[''recommendation_get_movies'']" and calls' = "[recommend_call settings request]"],
      goal_cases)
  case (6 payload)
  have fail: "valid P (raise_dependency_error request ''recommendation_contract_invalid'') Q
      (failed_at bad request [''recommendation_get_movies''] [recommend_call settings request] 0)"
    if "\<And>s. P s \<Longrightarrow> at_stage [''recommendation_get_movies''] [recommend_call settings request] 0 s" for P Q
    by (rule valid_weaken [OF valid_raise_dependency]) (use that in auto)
  show ?case
    unfolding Let_def
    by (intro valid_case_option valid_ret fail) (auto simp: recommended_def)
qed (simp_all add: recommend_call_def)

lemma pick_spec:
  assumes I: "\<And>(s :: ('m \<times> (string \<times> pydict) list) workflow_state) r. I (wf_tool_results s) \<Longrightarrow>
      I (wf_tool_results (record_result ''reservation_get_catalog'' False r s))"
  shows "valid (\<lambda>s. at_stage [''recommendation_get_movies''] calls 0 s \<and> I (wf_tool_results s))
     (pick_seat (recorded client) request recommendation movie_id)
     (\<lambda>(movie, sc, st, i, j) s.
        at_stage [''recommendation_get_movies'', ''reservation_get_catalog''] (calls @ [catalog_call movie_id]) 0 s \<and>
        I (wf_tool_results s) \<and> selected request recommendation movie_id movie sc st i j (wf_tool_results s))
     (failed_at bad request [''recommendation_get_movies'', ''reservation_get_catalog'']
        (calls @ [catalog_call movie_id]) 0)"
  unfolding pick_seat_def
proof (rule call_then [where names = "[''recommendation_get_movies'']" and calls = calls and z = 0 and I = I
        and names' = "[''recommendation_get_movies'', ''reservation_get_catalog'']"
        and calls' = "calls @ [catalog_call movie_id]"], goal_cases)
  case (6 payload)
  let ?E = "failed_at bad request [''recommendation_get_movies'', ''reservation_get_catalog'']
        (calls @ [catalog_call movie_id]) 0"
  let ?sc = "first_screening_with_seats (pget (mapping_value payload ''catalog'') ''screenings'') movie_id"
  let ?P = "\<lambda>s. at_stage [''recommendation_get_movies'', ''reservation_get_catalog''] (calls @ [catalog_call movie_id]) 0 s \<and>
        answered ''reservation_get_catalog'' payload (wf_tool_results s) \<and> I (wf_tool_results s)"
  have fail: "valid P (raise_dependency_error request ''reservation_catalog_has_no_seats'') Q ?E"
    if "\<And>s. P s \<Longrightarrow> ?P s" for P Q
    by (rule valid_weaken [OF valid_raise_dependency]) (use that in auto)
  have over: "choose_seat ?sc (dq_seat_preference request) = Inl e \<Longrightarrow> \<exists>m. e = OverflowError m" for e
    using choose_seat_overflow by blast
  show ?case
    unfolding Let_def
  proof (rule valid_bindM [where R = "\<lambda>seat s. ?P s \<and> choose_seat ?sc (dq_seat_preference request) = Inr seat"],
      goal_cases)
    case 1
    show ?case
      by (rule valid_liftE)
         (use over in \<open>auto simp: failed_at_def map_sum_def split: sum.splits\<close>)
  next
    case (2 seat)
    show ?case
      by (cases ?sc; cases seat; cases "string_value ?sc ''id''"; cases "string_value seat ''id''")
         (auto intro!: valid_ret fail simp: selected_def)
  qed
qed (use I in \<open>auto simp: catalog_call_def\<close>)

lemma request_spec:
  assumes I: "\<And>(s :: ('m \<times> (string \<times> pydict) list) workflow_state) r. I (wf_tool_results s) \<Longrightarrow>
      I (wf_tool_results (record_result ''reservation_request_seats'' False r s))"
  shows "valid (\<lambda>s. at_stage [''recommendation_get_movies'', ''reservation_get_catalog''] calls 0 s \<and>
                     I (wf_tool_results s))
     (request_seat (recorded client) request screening_id seat_id)
     (\<lambda>(i, status) s. at_stage three_tools (calls @ [seat_call screening_id seat_id]) 0 s \<and>
        I (wf_tool_results s) \<and> requested i status (wf_tool_results s))
     (failed_at bad request three_tools (calls @ [seat_call screening_id seat_id]) 0)"
  unfolding request_seat_def
proof (rule call_then [where names = "[''recommendation_get_movies'', ''reservation_get_catalog'']"
        and calls = calls and z = 0 and I = I and names' = three_tools
        and calls' = "calls @ [seat_call screening_id seat_id]"], goal_cases)
  case (6 payload)
  have fail: "valid P (raise_dependency_error request ''reservation_request_contract_invalid'') Q
      (failed_at bad request three_tools (calls @ [seat_call screening_id seat_id]) 0)"
    if "\<And>s. P s \<Longrightarrow> at_stage three_tools (calls @ [seat_call screening_id seat_id]) 0 s" for P Q
    by (rule valid_weaken [OF valid_raise_dependency]) (use that in auto)
  show ?case
    unfolding Let_def
    by (intro valid_case_option valid_ret fail) (auto simp: requested_def)
qed (use I in \<open>auto simp: seat_call_def\<close>)

lemma status_call_spec:
  fixes settings :: DemoAgentSettings
  assumes I: "\<And>(s :: ('m \<times> (string \<times> pydict) list) workflow_state) r. I (wf_tool_results s) \<Longrightarrow>
      I (wf_tool_results (record_result ''reservation_get_request_status'' True r s))"
    and f: "\<And>payload. valid (\<lambda>s. polled_at settings calls i (Suc k) k s \<and>
        answered ''reservation_get_request_status'' payload (wf_tool_results s) \<and> I (wf_tool_results s)) (f payload) Q
        (poll_fails bad settings request calls i k (Suc (k + left)))"
  shows "valid (\<lambda>s. polled_at settings calls i k k s \<and> I (wf_tool_results s))
     (bindM (call_required (recorded client) request ''reservation_get_request_status''
        [(''reservation_request_id'', PStr i)] True) f) Q
     (poll_fails bad settings request calls i k (Suc (k + left)))"
proof -
  have rep: "replicate (Suc k) x = replicate k x @ [x]" for x :: "string \<times> pydict"
    by (simp add: replicate_append_same)
  show ?thesis
  proof (rule call_then [where names = "tools_after k" and calls = "calls @ replicate k (status_call i)"
        and z = "of_nat k * demo_reservation_poll_interval_seconds settings" and I = I and names' = "tools_after (Suc k)"
        and calls' = "calls @ replicate (Suc k) (status_call i)"], goal_cases)
    case (6 payload)
    show ?case using f [of payload] by (simp add: polled_at_def)
  next
    case (7 e s)
    then show ?case unfolding poll_fails_def by (intro exI [of _ "Suc k"]) simp
  qed (use I in \<open>auto simp: status_call_def rep polled_at_def simp del: replicate.simps(2)\<close>)
qed

lemma poll_spec:
  fixes settings :: DemoAgentSettings and request :: DemoReservationRequest and i :: string
    and movie sc seat :: pydict and first_status :: "string option" and I :: "DemoToolResult list \<Rightarrow> bool"
  assumes I: "\<And>(s :: ('m \<times> (string \<times> pydict) list) workflow_state) r. I (wf_tool_results s) \<Longrightarrow>
      I (wf_tool_results (record_result ''reservation_get_request_status'' True r s))"
    and st: "status \<in> {Some ''confirmed'', Some ''rejected'', Some ''failed''} \<Longrightarrow> status = first_status"
  defines "D \<equiv> \<lambda>r rs. I rs \<and> decided_at request i movie sc seat first_status r rs"
  shows "valid (\<lambda>s. polled_at settings calls i k (case left of 0 \<Rightarrow> k - 1 | Suc _ \<Rightarrow> k) s \<and> I (wf_tool_results s))
     (poll_loop settings (recorded client) request i movie sc seat left status)
     (poll_ends settings calls i D k (k + left)) (poll_fails bad settings request calls i k (k + left))"
  using st
proof (induction left arbitrary: k status)
  case 0
  show ?case unfolding poll_loop.simps by (rule valid_weaken [OF poll_timeout [where k = k]]) simp_all
next
  case (Suc left)
  show ?case
    unfolding poll_loop.simps add_Suc_right nat.case
  proof (rule status_call_spec [where I = I], goal_cases)
    case (1 s r)
    then show ?case by (rule I)
  next
    case (2 payload)
    let ?P = "\<lambda>s. polled_at settings calls i (Suc k) k s \<and>
        answered ''reservation_get_request_status'' payload (wf_tool_results s) \<and> I (wf_tool_results s)"
      and ?Q = "poll_ends settings calls i D k (Suc (k + left))"
      and ?E = "poll_fails bad settings request calls i k (Suc (k + left))"
      and ?st = "or_opt (normalized_status (mapping_value payload ''reservation_request'')) status"
    have finish: "valid ?P (bindM (gets wf_tool_results) (\<lambda>tool_results.
        ret (decided_result request outcome answer i movie sc seat tool_results))) ?Q ?E"
      if "\<And>rs. answered ''reservation_get_request_status'' payload rs \<Longrightarrow> decided first_status outcome rs"
      for outcome answer
      by (rule poll_decides [where n = "Suc k"]) (use that in \<open>auto simp: D_def decided_at_def decided_result_def\<close>)
    have st: "?st = or_opt (normalized_status (mapping_value payload ''reservation_request'')) first_status"
      if "?st \<in> {Some ''confirmed'', Some ''rejected'', Some ''failed''}"
      using that Suc.prems by (auto simp: or_opt_def split: option.splits list.splits)
    have go_on: "valid ?P (bindM (if left \<noteq> 0 then sleep (demo_reservation_poll_interval_seconds settings) else ret ())
          (\<lambda>_. poll_loop settings (recorded client) request i movie sc seat left ?st)) ?Q ?E"
      if "?st \<notin> {Some ''confirmed'', Some ''rejected'', Some ''failed''}"
    proof (rule valid_bind_weak [OF poll_waits [where I = I and calls = calls and i = i and k = k and E = ?E]], goal_cases)
      case (3 u)
      have "valid (\<lambda>s. polled_at settings calls i (Suc k) (case left of 0 \<Rightarrow> Suc k - 1 | Suc _ \<Rightarrow> Suc k) s \<and> I (wf_tool_results s))
          (poll_loop settings (recorded client) request i movie sc seat left ?st)
          (poll_ends settings calls i D (Suc k) (Suc k + left)) (poll_fails bad settings request calls i (Suc k) (Suc k + left))"
        using Suc.IH [of ?st "Suc k"] that by blast
      then show ?case by (rule valid_weaken) (auto intro: poll_later)
    qed (assumption | simp)+
    show ?case
      unfolding Let_def
      by (intro valid_if finish go_on) (use st in \<open>auto simp: decided_def\<close>)
  qed
qed

lemma poll_from_start:
  fixes I :: "DemoToolResult list \<Rightarrow> bool"
  assumes I: "\<And>(s :: ('m \<times> (string \<times> pydict) list) workflow_state) r. I (wf_tool_results s) \<Longrightarrow>
      I (wf_tool_results (record_result ''reservation_get_request_status'' True r s))"
  shows "valid (\<lambda>s. at_stage three_tools calls 0 s \<and> I (wf_tool_results s))
     (poll_loop settings (recorded client) request i movie sc seat attempts first_status)
     (poll_ends settings calls i (\<lambda>r rs. I rs \<and> decided_at request i movie sc seat first_status r rs) 0 attempts)
     (poll_fails bad settings request calls i 0 attempts)"
  by (rule valid_weaken [OF poll_spec [where I = I and k = 0 and calls = calls and first_status = first_status]])
     (auto simp: polled_at_def I split: nat.split)

text \<open>The whole workflow: what a result and what an error means, and which calls were made.\<close>

lemma request_and_poll_spec:
  fixes settings :: DemoAgentSettings
  shows "valid
     (\<lambda>s. at_stage [''recommendation_get_movies'', ''reservation_get_catalog'']
            [recommend_call settings request, catalog_call mid] 0 s \<and>
          recommended rec mid (wf_tool_results s) \<and> selected request rec mid movie sc st scid sid (wf_tool_results s))
     (bindM (request_seat (recorded client) request scid sid) (\<lambda>(i, status).
        poll_loop settings (recorded client) request i movie sc st attempts status))
     (reserved settings request attempts) (not_reserved bad settings request attempts)"
proof (rule valid_bind_weak [OF request_spec [where
        I = "\<lambda>rs. recommended rec mid rs \<and> selected request rec mid movie sc st scid sid rs"
        and calls = "[recommend_call settings request, catalog_call mid]"]], goal_cases)
  case (1 s r)
  then show ?case by (simp add: facts_keep)
next
  case (2 e s)
  then show ?case
    by (rule not_reserved_early) (simp_all add: recommend_call_def catalog_call_def seat_call_def)
next
  case (4 z)
  obtain i status where z: "z = (i, status)" by (cases z)
  show ?case
    unfolding z prod.case
    by (rule valid_weaken [OF poll_from_start [where
            I = "\<lambda>rs. (recommended rec mid rs \<and> selected request rec mid movie sc st scid sid rs) \<and> requested i status rs"
            and calls = "[recommend_call settings request, catalog_call mid, seat_call scid sid]"]])
       (auto simp: facts_keep intro: reserved_after_polls not_reserved_after_polls)
qed simp_all

lemma workflow_spec:
  fixes settings :: DemoAgentSettings
  defines "attempts \<equiv> nat (demo_reservation_poll_attempts settings)"
  shows "valid (at_stage [] [] 0) (run_workflow settings (recorded client) request)
     (reserved settings request attempts) (not_reserved bad settings request attempts)"
  unfolding run_workflow_def attempts_def [symmetric]
proof (rule valid_bind_weak [OF recommend_spec], goal_cases)
  case (1 e s)
  then show ?case by (rule not_reserved_early) (simp_all add: recommend_call_def)
next
  case (3 x)
  obtain rec mid where x: "x = (rec, mid)" by (cases x)
  show ?case
    unfolding x prod.case
  proof (rule valid_bind_weak [OF pick_spec [where I = "recommended rec mid"
          and calls = "[recommend_call settings request]"]], goal_cases)
    case (1 s r)
    then show ?case by (rule facts_keep) simp
  next
    case (2 e s)
    then show ?case by (rule not_reserved_early) (simp_all add: recommend_call_def catalog_call_def)
  next
    case (4 y)
    obtain movie sc st scid sid where y: "y = (movie, sc, st, scid, sid)" by (cases y) auto
    show ?case
      unfolding y prod.case by (rule valid_weaken [OF request_and_poll_spec]) auto
  qed simp_all
qed simp_all

end

section \<open>Recording is transparent\<close>

text \<open>Forgetting the record: the workflow does the same with and without it.\<close>

definition forget :: "('m \<times> 'c) workflow_state \<Rightarrow> 'm workflow_state" where
  "forget s = \<lparr> wf_tool_results = wf_tool_results s, wf_slept = wf_slept s, wf_world = fst (wf_world s) \<rparr>"

definition same_run :: "('m \<times> 'c, 'a) workflow \<Rightarrow> ('m, 'a) workflow \<Rightarrow> bool" where
  "same_run m m' \<longleftrightarrow> (\<forall>s. m' (forget s) = map_prod id forget (m s))"

lemma same_run_pure:
  "same_run (ret x) (ret x)" "same_run (throw e) (throw e)" "same_run (liftE r) (liftE r)"
  "same_run (gets wf_tool_results) (gets wf_tool_results)"
  "same_run (modify (record_result tool b res)) (modify (record_result tool b res))"
  "same_run (sleep z) (sleep z)"
  by (simp_all add: same_run_def ret_def throw_def liftE_def gets_def modify_def sleep_def forget_def
      record_result_def Let_def)

lemma same_run_bind:
  assumes "same_run m m'" and "\<And>x. same_run (f x) (f' x)"
  shows "same_run (bindM m f) (bindM m' f')"
proof -
  have "bindM m' f' (forget s) = map_prod id forget (bindM m f s)" for s
  proof -
    obtain r t where m: "m s = (r, t)" by fastforce
    then have "m' (forget s) = (r, forget t)" using assms(1) by (simp add: same_run_def)
    then show ?thesis using m assms(2) by (cases r) (auto simp: bindM_def same_run_def)
  qed
  then show ?thesis by (simp add: same_run_def)
qed

lemma same_run_if: "same_run m m' \<Longrightarrow> same_run n n' \<Longrightarrow> same_run (if b then m else n) (if b then m' else n')"
  by simp

lemma same_run_case_option:
  "same_run m m' \<Longrightarrow> (\<And>x. same_run (f x) (f' x)) \<Longrightarrow>
     same_run (case v of None \<Rightarrow> m | Some x \<Rightarrow> f x) (case v of None \<Rightarrow> m' | Some x \<Rightarrow> f' x)"
  by (cases v) auto

lemma same_run_case_prod:
  "(\<And>x y. same_run (f x y) (f' x y)) \<Longrightarrow>
     same_run (case p of (x, y) \<Rightarrow> f x y) (case p of (x, y) \<Rightarrow> f' x y)"
  by (cases p) auto

lemma same_run_client:
  "same_run (on_client (dm_call_tool (recorded client) tool args ctx fault))
     (on_client (dm_call_tool client tool args ctx fault))"
proof -
  have "on_client (dm_call_tool client tool args ctx fault) (forget s) =
      map_prod id forget (on_client (dm_call_tool (recorded client) tool args ctx fault) s)"
    for s :: "('a \<times> (string \<times> pydict) list) workflow_state"
  proof -
    obtain m calls where w: "wf_world s = (m, calls)" by fastforce
    obtain q m' where "dm_call_tool client tool args ctx fault m = (q, m')" by fastforce
    then show ?thesis
      using w by (cases q) (simp_all add: on_client_def recorded_def forget_def)
  qed
  then show ?thesis by (simp add: same_run_def)
qed

lemma same_run_raise:
  "same_run (raise_dependency_error request err) (raise_dependency_error request err)"
  "same_run (raise_timeout_error request err a b) (raise_timeout_error request err a b)"
  unfolding raise_dependency_error_def raise_timeout_error_def
  by (intro same_run_bind same_run_pure)+

lemma same_run_call:
  "same_run (call_required (recorded client) request tool args b) (call_required client request tool args b)"
  unfolding call_required_def
  by (intro same_run_bind same_run_client same_run_pure same_run_if same_run_raise same_run_case_option)

lemmas same_run_intros =
  same_run_bind same_run_call same_run_pure same_run_if same_run_raise same_run_case_option
  same_run_case_prod

lemma same_run_poll:
  "same_run (poll_loop settings (recorded client) request i movie sc st left status)
     (poll_loop settings client request i movie sc st left status)"
proof (induction left arbitrary: status)
  case 0
  show ?case by (simp add: same_run_raise)
next
  case (Suc left)
  show ?case
    unfolding poll_loop.simps Let_def by (intro same_run_intros Suc.IH)
qed

lemma same_run_workflow:
  "same_run (run_workflow settings (recorded client) request) (run_workflow settings client request)"
  unfolding run_workflow_def recommend_movie_def pick_seat_def request_seat_def Let_def
  by (intro same_run_intros same_run_poll)

lemma recording_is_transparent:
  "service_reserve_recommended_seat settings client request m =
     map_prod id forget (service_reserve_recommended_seat settings (recorded client) request (m, []))"
proof -
  have "\<lparr> wf_tool_results = [], wf_slept = 0, wf_world = m \<rparr> =
      forget \<lparr> wf_tool_results = [], wf_slept = 0, wf_world = (m, [] :: (string \<times> pydict) list) \<rparr>"
    by (simp add: forget_def)
  then show ?thesis
    unfolding service_reserve_recommended_seat_def
    using same_run_workflow [of settings client request] unfolding same_run_def by metis
qed

end
