(* ===== verification/McpClient.thy ===== *)
theory McpClient
  imports DemoWorkflow
begin

text \<open>
  The tool client over MCP (\<open>infrastructure/mcp/demo_client.py\<close>). The MCP library, the trace
  parent of the current span and the JSON decoder are a record of operations that the client is
  given; everything the client itself does with their answers is defined here.
\<close>

section \<open>What the client is given\<close>

datatype mcp_failure = McpTimeout | McpFailure

text \<open>
  The answer of the library: a plain Python value, or an object with structured content, content
  items (each with its text, if it has one) and an error flag; a missing attribute and one that is
  \<open>None\<close> are the same to the client.
\<close>

datatype mcp_result =
    PlainResult pyval
  | ToolCallResult (structured_content: pyval) (content_texts: "string option list") (is_error_flag: bool)

record 'm mcp_library =
  lib_call :: "string \<Rightarrow> headers \<Rightarrow> string \<Rightarrow> pydict \<Rightarrow> rat \<Rightarrow> 'm \<Rightarrow> (mcp_failure + mcp_result) \<times> 'm"
  lib_traceparent :: "'m \<Rightarrow> string option"
  lib_json_loads :: "string \<Rightarrow> json_outcome"
  lib_repr :: "pyval \<Rightarrow> string"

section \<open>The payload of a result\<close>

fun decode_items :: "(string \<Rightarrow> json_outcome) \<Rightarrow> string option list \<Rightarrow> exn + pyval list" where
  "decode_items json_loads [] = Inr []"
| "decode_items json_loads (None # items) = decode_items json_loads items"
| "decode_items json_loads (Some text # items) =
     (case json_loads text of
        JsonRaises e \<Rightarrow> Inl e
      | Decoded v \<Rightarrow> map_sum id (\<lambda>vs. v # vs) (decode_items json_loads items)
      | NotJson \<Rightarrow> map_sum id (\<lambda>vs. PStr text # vs) (decode_items json_loads items))"

definition extract_tool_payload :: "(string \<Rightarrow> json_outcome) \<Rightarrow> mcp_result \<Rightarrow> exn + pyval" where
  "extract_tool_payload json_loads result =
     (case result of
        PlainResult v \<Rightarrow> Inr v
      | ToolCallResult structured content flag \<Rightarrow>
          if structured \<noteq> PNone then
            (case structured of
               PDict d \<Rightarrow> if set (dict_keys d) = {''result''} then Inr (pget d ''result'') else Inr structured
             | _ \<Rightarrow> Inr structured)
          else if content = [] then Inr PNone
          else map_sum id (\<lambda>payloads. case payloads of [v] \<Rightarrow> v | _ \<Rightarrow> PList payloads)
                 (decode_items json_loads content))"

section \<open>Calling a tool\<close>

definition RECOMMENDATION_TOOL :: string where
  "RECOMMENDATION_TOOL = ''recommendation_get_movies''"

definition RESERVATION_TOOLS :: "string set" where
  "RESERVATION_TOOLS =
     {''reservation_get_catalog'', ''reservation_request_seats'', ''reservation_get_request_status''}"

definition REQUIRED_TOOLS :: "string set" where
  "REQUIRED_TOOLS = insert RECOMMENDATION_TOOL RESERVATION_TOOLS"

definition url_for_tool :: "DemoAgentSettings \<Rightarrow> string \<Rightarrow> string" where
  "url_for_tool settings tool_name =
     (if tool_name = RECOMMENDATION_TOOL then movie_recommendation_mcp_url settings
      else movie_reservation_mcp_url settings)"

definition propagated_arguments ::
    "pydict \<Rightarrow> DemoTraceContext \<Rightarrow> DemoFault \<Rightarrow> string option \<Rightarrow> pydict" where
  "propagated_arguments arguments ctx fault current_traceparent =
     dict_merge arguments
       (map (\<lambda>(k, v). (k, PStr v)) (to_tool_arguments ctx (fault_text fault) current_traceparent))"

definition tool_failed :: "string \<Rightarrow> string \<Rightarrow> DemoToolResult" where
  "tool_failed tool_name err =
     \<lparr> dt_tool_name = tool_name, dt_outcome = ''failed'', dt_payload = PNone, dt_error = Some err \<rparr>"

text \<open>\<open>str(payload.get("error") or "mcp_dependency_failed")\<close>.\<close>

definition dependency_message :: "(pyval \<Rightarrow> string) \<Rightarrow> pydict \<Rightarrow> string" where
  "dependency_message repr payload =
     (let err = pget payload ''error'' in
      if truthy err then (case err of PStr t \<Rightarrow> t | v \<Rightarrow> repr v) else ''mcp_dependency_failed'')"

definition classify_result ::
    "(pyval \<Rightarrow> string) \<Rightarrow> string \<Rightarrow> mcp_result \<Rightarrow> pyval \<Rightarrow> DemoToolResult" where
  "classify_result repr tool_name result payload =
     (let flagged = (case result of PlainResult v \<Rightarrow> False | ToolCallResult st c flag \<Rightarrow> flag);
          otherwise = (if flagged then tool_failed tool_name ''mcp_tool_failed''
                       else \<lparr> dt_tool_name = tool_name, dt_outcome = ''succeeded'',
                              dt_payload = payload, dt_error = None \<rparr>) in
      case as_dict payload of
        None \<Rightarrow> otherwise
      | Some d \<Rightarrow>
          if pget d ''ok'' = PBool False
          then \<lparr> dt_tool_name = tool_name, dt_outcome = ''failed'', dt_payload = payload,
                 dt_error = Some (dependency_message repr d) \<rparr>
          else otherwise)"

definition call_tool ::
    "DemoAgentSettings \<Rightarrow> 'm mcp_library \<Rightarrow> string \<Rightarrow> pydict \<Rightarrow> DemoTraceContext \<Rightarrow> DemoFault \<Rightarrow>
     ('m, DemoToolResult) prog" where
  "call_tool settings lib tool_name arguments ctx fault = (\<lambda>m.
     if tool_name \<notin> REQUIRED_TOOLS then (Inr (tool_failed tool_name ''agent_tool_not_allowlisted''), m)
     else
       let url = url_for_tool settings tool_name;
           current_traceparent = or_opt (lib_traceparent lib m) (tc_traceparent ctx);
           arguments = propagated_arguments arguments ctx fault current_traceparent;
           headers = to_headers ctx current_traceparent in
       case lib_call lib url headers tool_name arguments (demo_mcp_timeout_seconds settings) m of
         (Inl McpTimeout, m') \<Rightarrow>
           (Inr \<lparr> dt_tool_name = tool_name, dt_outcome = ''timeout'', dt_payload = PNone,
                  dt_error = Some ''mcp_tool_timeout'' \<rparr>, m')
       | (Inl McpFailure, m') \<Rightarrow> (Inr (tool_failed tool_name ''mcp_tool_failed''), m')
       | (Inr result, m') \<Rightarrow>
           (map_sum id (classify_result (lib_repr lib) tool_name result)
              (extract_tool_payload (lib_json_loads lib) result), m'))"

definition FastMcpDemoToolClient :: "DemoAgentSettings \<Rightarrow> 'm mcp_library \<Rightarrow> 'm DemoMcpToolClient" where
  "FastMcpDemoToolClient settings lib = \<lparr> dm_call_tool = call_tool settings lib \<rparr>"

section \<open>The client keeps the contract\<close>

definition json_raises :: "'m mcp_library \<Rightarrow> exn \<Rightarrow> bool" where
  "json_raises lib e \<longleftrightarrow> (\<exists>text. lib_json_loads lib text = JsonRaises e)"

lemma decode_items_raises: "decode_items json items = Inl e \<Longrightarrow> \<exists>text. json text = JsonRaises e"
  by (induction json items rule: decode_items.induct)
     (auto split: json_outcome.splits simp: map_sum_def split: sum.splits)

lemma extract_raises: "extract_tool_payload json result = Inl e \<Longrightarrow> \<exists>text. json text = JsonRaises e"
  by (cases result)
     (auto simp: extract_tool_payload_def map_sum_def split: if_splits pyval.splits sum.splits
        dest: decode_items_raises)

lemma classify_result_name: "dt_tool_name (classify_result repr tool result payload) = tool"
  by (auto simp: classify_result_def tool_failed_def Let_def split: option.split mcp_result.split)

interpretation fast_mcp: demo_tool_client "FastMcpDemoToolClient settings lib" "json_raises lib"
  for settings lib
proof unfold_locales
  fix tool args ctx fault m r m'
  assume "dm_call_tool (FastMcpDemoToolClient settings lib) tool args ctx fault m = (Inr r, m')"
  then show "dt_tool_name r = tool"
    by (auto simp: FastMcpDemoToolClient_def call_tool_def tool_failed_def Let_def classify_result_name
        map_sum_def split: if_splits prod.splits sum.splits mcp_failure.splits)
next
  fix tool args ctx fault m e m'
  assume "dm_call_tool (FastMcpDemoToolClient settings lib) tool args ctx fault m = (Inl e, m')"
  then show "json_raises lib e"
    by (auto simp: FastMcpDemoToolClient_def call_tool_def tool_failed_def Let_def json_raises_def
        map_sum_def split: if_splits prod.splits sum.splits mcp_failure.splits dest: extract_raises)
qed

section \<open>Properties\<close>

lemma distinct_tool_arguments: "distinct (dict_keys (to_tool_arguments ctx fault tp))"
  by (auto simp: to_tool_arguments_def entry_if_cases split: option.split)

text \<open>
  The trace is not forgeable by arguments: in the arguments sent to a tool, every entry of the
  trace context (correlation id, request id, fault, and trace parent and state if there are any)
  is the context's own, whatever the caller's arguments say, and every other argument is kept.
\<close>

theorem trace_arguments_win:
  "map_of (propagated_arguments args ctx fault tp) k =
     (case map_of (to_tool_arguments ctx (fault_text fault) tp) k of
        Some v \<Rightarrow> Some (PStr v)
      | None \<Rightarrow> map_of args k) \<and>
   map_of (to_tool_arguments ctx (fault_text fault) tp) ''correlation_id'' = Some (tc_correlation_id ctx) \<and>
   map_of (to_tool_arguments ctx (fault_text fault) tp) ''request_id'' = Some (tc_request_id ctx) \<and>
   map_of (to_tool_arguments ctx (fault_text fault) tp) ''demo_fault'' = Some (fault_text fault)"
proof -
  let ?t = "to_tool_arguments ctx (fault_text fault) tp"
  let ?p = "map (\<lambda>(k, v). (k, PStr v)) ?t"
  have keys: "dict_keys ?p = dict_keys ?t" by (simp add: comp_def case_prod_beta)
  have lookup: "map_of ?p k = map_option PStr (map_of ?t k)" by (simp add: map_of_map)
  have "map_of (propagated_arguments args ctx fault tp) k =
     (case map_of ?t k of Some v \<Rightarrow> Some (PStr v) | None \<Rightarrow> map_of args k)"
  proof (cases "map_of ?t k")
    case None
    then have "k \<notin> set (dict_keys ?p)" using keys by (simp add: map_of_None_keys)
    then show ?thesis using None by (simp add: propagated_arguments_def map_of_dict_merge_keys)
  next
    case (Some v)
    then have "map_of ?p k = Some (PStr v)" using lookup by simp
    moreover have "distinct (dict_keys ?p)" unfolding keys by (rule distinct_tool_arguments)
    ultimately have "map_of (dict_merge args ?p) k = Some (PStr v)" by (rule map_of_dict_merge [rotated])
    then show ?thesis using Some by (simp add: propagated_arguments_def)
  qed
  then show ?thesis by (simp add: to_tool_arguments_def)
qed

text \<open>
  What a tool call means: a tool that is not on the list is never called; a timeout of the
  library is a timeout, any other failure of it a failed result; a result is a success exactly
  when its payload does not say \<open>ok: false\<close> and it is not flagged as an error; and the only
  exceptions that escape are those of the JSON decoder other than JSONDecodeError.
\<close>

theorem tool_calls_are_classified:
  "call_tool settings lib tool args ctx fault m =
    (if tool \<notin> REQUIRED_TOOLS then (Inr (tool_failed tool ''agent_tool_not_allowlisted''), m)
     else
       let tp = or_opt (lib_traceparent lib m) (tc_traceparent ctx);
           (q, m') = lib_call lib (url_for_tool settings tool) (to_headers ctx tp) tool
                      (propagated_arguments args ctx fault tp) (demo_mcp_timeout_seconds settings) m in
       case q of
         Inl McpTimeout \<Rightarrow> (Inr \<lparr> dt_tool_name = tool, dt_outcome = ''timeout'', dt_payload = PNone,
                                 dt_error = Some ''mcp_tool_timeout'' \<rparr>, m')
       | Inl McpFailure \<Rightarrow> (Inr (tool_failed tool ''mcp_tool_failed''), m')
       | Inr result \<Rightarrow> (map_sum id (classify_result (lib_repr lib) tool result)
                           (extract_tool_payload (lib_json_loads lib) result), m')) \<and>
   (dt_outcome (classify_result repr tool result payload) = ''succeeded'' \<longleftrightarrow>
      (\<forall>d. payload = PDict d \<longrightarrow> pget d ''ok'' \<noteq> PBool False) \<and>
      (\<forall>st c. result \<noteq> ToolCallResult st c True)) \<and>
   (extract_tool_payload (lib_json_loads lib) result = Inl e \<longrightarrow>
      (\<exists>text. lib_json_loads lib text = JsonRaises e))"
proof (intro conjI)
  show "dt_outcome (classify_result repr tool result payload) = ''succeeded'' \<longleftrightarrow>
      (\<forall>d. payload = PDict d \<longrightarrow> pget d ''ok'' \<noteq> PBool False) \<and>
      (\<forall>st c. result \<noteq> ToolCallResult st c True)"
    by (cases result; cases payload) (auto simp: classify_result_def tool_failed_def Let_def)
  show "extract_tool_payload (lib_json_loads lib) result = Inl e \<longrightarrow>
      (\<exists>text. lib_json_loads lib text = JsonRaises e)"
    using extract_raises by blast
qed (auto simp: call_tool_def Let_def split: prod.split sum.split mcp_failure.split)

end
