(* ===== verification/DemoApi.thy ===== *)
theory DemoApi
  imports McpClient
begin

text \<open>
  The demo endpoints (\<open>api/http/v1/routes/demo.py\<close>), their data transfer objects, and what the
  workflow over the MCP client promises to a caller.
\<close>

section \<open>Data transfer objects\<close>

record DemoReservationRequestDto =
  dd_movie_preference :: string
  dd_seat_preference :: string
  dd_fault :: DemoFault

text \<open>The field constraints of the request; the framework answers 422 when they fail.\<close>

definition demo_request_ok :: "DemoReservationRequestDto \<Rightarrow> bool" where
  "demo_request_ok dto \<longleftrightarrow>
     1 \<le> length (dd_movie_preference dto) \<and> length (dd_movie_preference dto) \<le> 500 \<and>
     1 \<le> length (dd_seat_preference dto) \<and> length (dd_seat_preference dto) \<le> 100"

definition default_demo_request :: DemoReservationRequestDto where
  "default_demo_request =
     \<lparr> dd_movie_preference = ''something exciting'', dd_seat_preference = ''aisle'', dd_fault = FaultNone \<rparr>"

record DemoTraceDto =
  td_trace_id :: "string option"
  td_correlation_id :: string
  td_request_id :: string

record DemoToolResultDto =
  tt_tool_name :: string
  tt_outcome :: string

record DemoReservationResponseDto =
  dp_workflow_id :: string
  dp_outcome :: string
  dp_reservation_status :: "string option"
  dp_reservation_request_id :: "string option"
  dp_final_answer :: string
  dp_movie :: "pydict option"
  dp_screening :: "pydict option"
  dp_seat :: "pydict option"
  dp_tool_results :: "DemoToolResultDto list"
  dp_trace :: DemoTraceDto

record DemoReservationErrorDto =
  de_error :: string
  de_message :: string
  de_workflow_id :: string
  de_trace :: DemoTraceDto

datatype demo_response = DemoOk DemoReservationResponseDto | JSONResponse int DemoReservationErrorDto

section \<open>The routes\<close>

definition demo_health :: "(string, string) dict" where
  "demo_health = [(''status'', ''ok''), (''service'', ''movie-reservation-agent'')]"

text \<open>The trace id of the current span is an argument.\<close>

definition trace_dto :: "string option \<Rightarrow> DemoReservationResult \<Rightarrow> DemoTraceDto" where
  "trace_dto current_trace_id result =
     \<lparr> td_trace_id = or_opt current_trace_id (trace_id (dr_trace_context result)),
       td_correlation_id = tc_correlation_id (dr_trace_context result),
       td_request_id = tc_request_id (dr_trace_context result) \<rparr>"

definition error_response ::
    "string option \<Rightarrow> string \<Rightarrow> DemoReservationResult \<Rightarrow> int \<Rightarrow> demo_response" where
  "error_response current_trace_id error_code result status_code =
     JSONResponse status_code
       \<lparr> de_error = error_code,
         de_message = or_else (dr_error result) (dr_final_answer result),
         de_workflow_id = dr_workflow_id result,
         de_trace = trace_dto current_trace_id result \<rparr>"

definition response_dto :: "string option \<Rightarrow> DemoReservationResult \<Rightarrow> DemoReservationResponseDto" where
  "response_dto current_trace_id result =
     \<lparr> dp_workflow_id = dr_workflow_id result,
       dp_outcome = dr_outcome result,
       dp_reservation_status = dr_reservation_status result,
       dp_reservation_request_id = dr_reservation_request_id result,
       dp_final_answer = dr_final_answer result,
       dp_movie = dr_movie result,
       dp_screening = dr_screening result,
       dp_seat = dr_seat result,
       dp_tool_results =
         map (\<lambda>t. \<lparr> tt_tool_name = dt_tool_name t, tt_outcome = dt_outcome t \<rparr>) (dr_tool_results result),
       dp_trace = trace_dto current_trace_id result \<rparr>"

definition demo_service_request ::
    "string \<Rightarrow> string \<Rightarrow> headers \<Rightarrow> string option \<Rightarrow> DemoReservationRequestDto \<Rightarrow> DemoReservationRequest" where
  "demo_service_request new_request_id new_workflow_id headers current_traceparent payload =
     \<lparr> dq_movie_preference = dd_movie_preference payload,
       dq_seat_preference = dd_seat_preference payload,
       dq_fault = dd_fault payload,
       dq_trace_context = trace_from_headers new_request_id new_workflow_id headers current_traceparent \<rparr>"

text \<open>
  The answer to what the service returned or raised; an exception that is none of the workflow's
  own goes through to the framework.
\<close>

definition answer_reservation ::
    "string option \<Rightarrow> demo_error + DemoReservationResult \<Rightarrow> exn + demo_response" where
  "answer_reservation current_trace_id outcome =
     (case outcome of
        Inl (DemoDependencyError result) \<Rightarrow>
          Inr (error_response current_trace_id ''demo_dependency_failed'' result 502)
      | Inl (DemoWorkflowTimeoutError result) \<Rightarrow>
          Inr (error_response current_trace_id ''demo_workflow_timeout'' result 504)
      | Inl (Unexpected e) \<Rightarrow> Inl e
      | Inr result \<Rightarrow> Inr (DemoOk (response_dto current_trace_id result)))"

definition reserve_recommended_seat ::
    "DemoAgentSettings \<Rightarrow> 'm DemoMcpToolClient \<Rightarrow> string \<Rightarrow> string \<Rightarrow> headers \<Rightarrow> string option \<Rightarrow>
     string option \<Rightarrow> DemoReservationRequestDto \<Rightarrow> 'm \<Rightarrow> (exn + demo_response) \<times> 'm" where
  "reserve_recommended_seat settings client new_request_id new_workflow_id headers current_traceparent
     current_trace_id payload m =
     (let request = demo_service_request new_request_id new_workflow_id headers current_traceparent payload in
      case service_reserve_recommended_seat settings client request m of
        (outcome, s) \<Rightarrow> (answer_reservation current_trace_id outcome, wf_world s))"

section \<open>The workflow over the MCP client\<close>

abbreviation recorded_workflow ::
    "DemoAgentSettings \<Rightarrow> 'm mcp_library \<Rightarrow> DemoReservationRequest \<Rightarrow> 'm \<Rightarrow>
     (demo_error + DemoReservationResult) \<times> ('m \<times> (string \<times> pydict) list) workflow_state" where
  "recorded_workflow settings lib request m \<equiv>
     service_reserve_recommended_seat settings (recorded (FastMcpDemoToolClient settings lib)) request (m, [])"

lemma workflow_outcomes:
  "case recorded_workflow settings lib request m of
     (Inr r, s) \<Rightarrow> reserved settings request (nat (demo_reservation_poll_attempts settings)) r s
   | (Inl e, s) \<Rightarrow>
       not_reserved (json_raises lib) settings request (nat (demo_reservation_poll_attempts settings)) e s"
proof -
  let ?s = "\<lparr> wf_tool_results = [], wf_slept = 0, wf_world = (m, []) \<rparr>"
  have "at_stage [] [] 0 ?s" by (simp add: at_stage_def)
  moreover have "valid (at_stage [] [] 0)
      (run_workflow settings (recorded (FastMcpDemoToolClient settings lib)) request)
      (reserved settings request (nat (demo_reservation_poll_attempts settings)))
      (not_reserved (json_raises lib) settings request (nat (demo_reservation_poll_attempts settings)))"
    by (rule fast_mcp.workflow_spec)
  ultimately show ?thesis
    unfolding service_reserve_recommended_seat_def by (rule validE [rotated])
qed

lemma reserved_bounds:
  assumes "reserved settings request attempts r s" and "0 \<le> demo_reservation_poll_interval_seconds settings"
  shows "length (snd (wf_world s)) \<le> 3 + attempts \<and>
         wf_slept s \<le> of_nat (attempts - 1) * demo_reservation_poll_interval_seconds settings"
proof -
  obtain n where "n \<le> attempts" "length (snd (wf_world s)) = 3 + n"
      "wf_slept s = of_nat (n - 1) * demo_reservation_poll_interval_seconds settings"
    using assms(1) by (auto simp: reserved_def at_stage_def)
  then show ?thesis using assms(2) by (simp add: mult_right_mono)
qed

lemma not_reserved_bounds:
  assumes "not_reserved bad settings request attempts e s"
    and "0 \<le> demo_reservation_poll_interval_seconds settings"
  shows "length (snd (wf_world s)) \<le> 3 + attempts \<and>
         wf_slept s \<le> of_nat (attempts - 1) * demo_reservation_poll_interval_seconds settings"
proof -
  obtain n calls where n: "n \<le> attempts" "snd (wf_world s) = calls"
      "wf_slept s = of_nat (n - 1) * demo_reservation_poll_interval_seconds settings"
      "prefix (map fst calls) (three_tools @ replicate n ''reservation_get_request_status'')"
    using assms(1) by (auto simp: not_reserved_def failed_at_def at_stage_def)
  have "length (map fst calls) \<le> 3 + n" using prefix_length_le [OF n(4)] by simp
  then show ?thesis using n(1-3) assms(2) by (simp add: mult_right_mono)
qed

section \<open>A concrete tool server\<close>

definition example_payload :: "string \<Rightarrow> pyval" where
  "example_payload tool =
     (if tool = ''recommendation_get_movies''
      then PDict [(''recommendations'', PList [PDict [(''movie_reservation_movie_id'', PStr ''m1''),
                                                     (''title'', PStr ''Alien'')]])]
      else if tool = ''reservation_get_catalog''
      then PDict [(''catalog'', PDict [(''movies'', PList []),
             (''screenings'', PList [PDict [(''id'', PStr ''sc1''), (''movieId'', PStr ''m1''),
                                            (''seats'', PList example_seats)]])])]
      else if tool = ''reservation_request_seats''
      then PDict [(''reservation_request'', PDict [(''id'', PStr ''q1''), (''status'', PStr ''pending'')])]
      else PDict [(''reservation_request'', PDict [(''status'', PStr ''Confirmed'')])])"

definition example_library :: "unit mcp_library" where
  "example_library =
     \<lparr> lib_call = (\<lambda>url hs tool args timeout m. (Inr (PlainResult (example_payload tool)), m)),
       lib_traceparent = (\<lambda>m. None),
       lib_json_loads = (\<lambda>text. NotJson),
       lib_repr = (\<lambda>v. []) \<rparr>"

definition example_reservation :: DemoReservationRequest where
  "example_reservation =
     \<lparr> dq_movie_preference = ''space'', dq_seat_preference = ''Aisle'', dq_fault = FaultNone,
       dq_trace_context = example_context \<rparr>"

lemma default_demo_settings_ok: "demo_settings_ok default_demo_settings"
  by (simp add: demo_settings_ok_def default_demo_settings_def)

section \<open>Properties\<close>

text \<open>
  C17 The reservation workflow over the MCP client, whatever the servers answer: a result means
  that the four tools were called in order, each with what the one before answered, and that it
  says what they said; an error is one of the two workflow errors with a message, the trace
  context and the results so far, or an exception of the JSON decoder or an OverflowError. There
  are at most three calls more than polling attempts, and the sleeping between polls is bounded.
\<close>

theorem reservation_workflow_outcomes:
  assumes "demo_settings_ok settings"
  shows "case recorded_workflow settings lib request m of (outcome, s) \<Rightarrow>
    (case outcome of
       Inr r \<Rightarrow> reserved settings request (nat (demo_reservation_poll_attempts settings)) r s
     | Inl e \<Rightarrow> not_reserved (json_raises lib) settings request
                  (nat (demo_reservation_poll_attempts settings)) e s) \<and>
    int (length (snd (wf_world s))) \<le> 3 + demo_reservation_poll_attempts settings \<and>
    wf_slept s \<le> of_int (demo_reservation_poll_attempts settings - 1)
                     * demo_reservation_poll_interval_seconds settings \<and>
    service_reserve_recommended_seat settings (FastMcpDemoToolClient settings lib) request m = (outcome, forget s)"
proof -
  let ?n = "nat (demo_reservation_poll_attempts settings)"
  obtain outcome s where w: "recorded_workflow settings lib request m = (outcome, s)" by fastforce
  have n: "0 \<le> demo_reservation_poll_interval_seconds settings" "1 \<le> demo_reservation_poll_attempts settings"
    using assms by (simp_all add: demo_settings_ok_def)
  have plain: "service_reserve_recommended_seat settings (FastMcpDemoToolClient settings lib) request m = (outcome, forget s)"
    by (subst recording_is_transparent) (simp add: w)
  have res: "case outcome of
       Inr r \<Rightarrow> reserved settings request ?n r s
     | Inl e \<Rightarrow> not_reserved (json_raises lib) settings request ?n e s"
    using workflow_outcomes [where settings = settings and lib = lib and request = request and m = m] w by simp
  then have "length (snd (wf_world s)) \<le> 3 + ?n \<and>
      wf_slept s \<le> of_nat (?n - 1) * demo_reservation_poll_interval_seconds settings"
    by (cases outcome) (auto dest: reserved_bounds [OF _ n(1)] not_reserved_bounds [OF _ n(1)])
  moreover have "(of_nat (?n - 1) :: rat) = of_int (demo_reservation_poll_attempts settings - 1)"
    using n(2) by (simp add: nat_diff_distrib of_nat_diff)
  ultimately show ?thesis using res plain w n(2) by auto
qed

theorem reservation_workflow_outcomes_witness:
  "\<exists>r s. recorded_workflow default_demo_settings example_library example_reservation () = (Inr r, s) \<and>
     reserved default_demo_settings example_reservation 6 r s \<and> dr_outcome r = ''confirmed'' \<and>
     length (snd (wf_world s)) \<le> 9"
proof -
  obtain outcome s where
      w: "recorded_workflow default_demo_settings example_library example_reservation () = (outcome, s)"
    by fastforce
  have "map_sum (\<lambda>_. ()) dr_outcome
      (fst (recorded_workflow default_demo_settings example_library example_reservation ())) = Inr ''confirmed''"
    by code_simp
  then obtain r where "outcome = Inr r" "dr_outcome r = ''confirmed''" using w by (cases outcome) auto
  then show ?thesis
    using reservation_workflow_outcomes [OF default_demo_settings_ok, of example_library example_reservation "()"] w
    by (simp add: default_demo_settings_def)
qed

text \<open>What was selected, spelled out over the catalog answer.\<close>

lemma selected_facts:
  assumes "selected request rec mid movie sc st scid sid results"
  shows "\<exists>p screenings seats. answered ''reservation_get_catalog'' p results \<and>
     pget (mapping_value p ''catalog'') ''screenings'' = PList screenings \<and> PDict sc \<in> set screenings \<and>
     first_screening_with_seats (PList screenings) mid = Some sc \<and>
     pget sc ''movieId'' = PStr mid \<and> pget sc ''seats'' = PList seats \<and> PDict st \<in> set seats \<and>
     choose_seat (Some sc) (dq_seat_preference request) = Inr (Some st) \<and>
     (movie = rec \<or> (\<exists>movies. pget (mapping_value p ''catalog'') ''movies'' = PList movies \<and>
                  PDict movie \<in> set movies \<and> pget movie ''id'' = PStr mid))"
proof -
  obtain p where p: "answered ''reservation_get_catalog'' p results"
      "first_screening_with_seats (pget (mapping_value p ''catalog'') ''screenings'') mid = Some sc"
      "choose_seat (Some sc) (dq_seat_preference request) = Inr (Some st)"
    and movie: "movie = (case find_mapping (pget (mapping_value p ''catalog'') ''movies'') ''id'' mid of
                   None \<Rightarrow> rec | Some m \<Rightarrow> if m = [] then rec else m)"
    using assms by (auto simp: selected_def)
  obtain screenings seats where sc: "pget (mapping_value p ''catalog'') ''screenings'' = PList screenings"
      "PDict sc \<in> set screenings" "pget sc ''movieId'' = PStr mid" "pget sc ''seats'' = PList seats"
    using first_screening_spec [OF p(2)] by blast
  have "PDict st \<in> set seats"
    using choose_seat_meets_preference [OF sc(4), of "dq_seat_preference request"] p(3) by simp
  moreover have "movie = rec \<or> (\<exists>movies. pget (mapping_value p ''catalog'') ''movies'' = PList movies \<and>
      PDict movie \<in> set movies \<and> pget movie ''id'' = PStr mid)"
    using movie by (auto simp: find_mapping_def split: option.splits if_splits dest!: find_Some_in)
  ultimately show ?thesis using p sc by (intro exI [of _ p] exI [of _ screenings] exI [of _ seats]) simp
qed

text \<open>
  C18 A reservation is backed by what the servers said. The recommended movie is the first one that
  the recommendation server named. The screening shown is the first of the screenings in the catalog
  answer that plays that movie and lists seats; the seat is the one of its seats that the preference
  selects; the movie shown is the entry of the catalog with that id, or the recommendation itself
  where the catalog has none. The request id is the one the reservation server gave; and the outcome
  is confirmed, rejected or failed only when the last status answer (or, where it is silent, the
  request itself) says so, or carries the reservation.
\<close>

theorem reservations_are_backed:
  assumes "fst (service_reserve_recommended_seat settings (FastMcpDemoToolClient settings lib) request m) = Inr r"
  shows "\<exists>rec mid p screenings sc st mv seats i first_status.
     dr_movie r = Some mv \<and> dr_screening r = Some sc \<and> dr_seat r = Some st \<and>
     dr_reservation_request_id r = Some i \<and> dr_reservation_status r = Some (dr_outcome r) \<and>
     dr_outcome r \<in> {''confirmed'', ''rejected'', ''failed''} \<and>
     recommended rec mid (dr_tool_results r) \<and>
     answered ''reservation_get_catalog'' p (dr_tool_results r) \<and>
     pget (mapping_value p ''catalog'') ''screenings'' = PList screenings \<and> PDict sc \<in> set screenings \<and>
     first_screening_with_seats (PList screenings) mid = Some sc \<and>
     pget sc ''movieId'' = PStr mid \<and> pget sc ''seats'' = PList seats \<and> PDict st \<in> set seats \<and>
     choose_seat (Some sc) (dq_seat_preference request) = Inr (Some st) \<and>
     (mv = rec \<or> (\<exists>movies. pget (mapping_value p ''catalog'') ''movies'' = PList movies \<and>
                  PDict mv \<in> set movies \<and> pget mv ''id'' = PStr mid)) \<and>
     requested i first_status (dr_tool_results r) \<and>
     decided first_status (dr_outcome r) (dr_tool_results r)"
proof -
  obtain outcome s where w: "recorded_workflow settings lib request m = (outcome, s)" by fastforce
  then have "service_reserve_recommended_seat settings (FastMcpDemoToolClient settings lib) request m = (outcome, forget s)"
    by (subst recording_is_transparent) simp
  with assms have "outcome = Inr r" by simp
  then have "reserved settings request (nat (demo_reservation_poll_attempts settings)) r s"
    using workflow_outcomes [where settings = settings and lib = lib and request = request and m = m] w by simp
  from reserved_facts [OF this] obtain rec mid movie sc st scid sid i first_status where
      facts: "recommended rec mid (wf_tool_results s)"
        "selected request rec mid movie sc st scid sid (wf_tool_results s)"
        "requested i first_status (wf_tool_results s)"
        "decided_at request i movie sc st first_status r (wf_tool_results s)"
    by (elim exE conjE) (rule that)
  have dec: "decided first_status (dr_outcome r) (wf_tool_results s)"
    using facts(4) by (simp add: decided_at_def)
  then have outcomes: "dr_outcome r \<in> {''confirmed'', ''rejected'', ''failed''}"
    by (auto simp: decided_def)
  have eq: "r = decided_result request (dr_outcome r) (dr_final_answer r) i movie sc st (wf_tool_results s)"
    using facts(4) by (simp add: decided_at_def)
  have shown: "dr_movie r = Some movie" "dr_screening r = Some sc" "dr_seat r = Some st"
      "dr_reservation_request_id r = Some i" "dr_reservation_status r = Some (dr_outcome r)"
      "dr_tool_results r = wf_tool_results s"
    by (subst eq, simp add: decided_result_def)+
  from selected_facts [OF facts(2)] obtain p screenings seats where
      "answered ''reservation_get_catalog'' p (wf_tool_results s)"
      "pget (mapping_value p ''catalog'') ''screenings'' = PList screenings" "PDict sc \<in> set screenings"
      "first_screening_with_seats (PList screenings) mid = Some sc" "pget sc ''movieId'' = PStr mid"
      "pget sc ''seats'' = PList seats" "PDict st \<in> set seats"
      "choose_seat (Some sc) (dq_seat_preference request) = Inr (Some st)"
      "movie = rec \<or> (\<exists>movies. pget (mapping_value p ''catalog'') ''movies'' = PList movies \<and>
         PDict movie \<in> set movies \<and> pget movie ''id'' = PStr mid)"
    by (elim exE conjE) (rule that)
  then show ?thesis
    using facts(1,3) dec outcomes shown by (intro exI conjI; simp)
qed

theorem reservations_are_backed_witness:
  "\<exists>r sc mv. fst (service_reserve_recommended_seat default_demo_settings
            (FastMcpDemoToolClient default_demo_settings example_library) example_reservation ()) = Inr r \<and>
     dr_screening r = Some sc \<and> pget sc ''movieId'' = PStr ''m1'' \<and> dr_movie r = Some mv"
proof -
  let ?q = "fst (service_reserve_recommended_seat default_demo_settings
            (FastMcpDemoToolClient default_demo_settings example_library) example_reservation ())"
  have "map_sum (\<lambda>_. ()) (\<lambda>r. map_option (\<lambda>d. pget d ''movieId'') (dr_screening r)) ?q = Inr (Some (PStr ''m1''))"
    by code_simp
  then obtain r where r: "?q = Inr r" "map_option (\<lambda>d. pget d ''movieId'') (dr_screening r) = Some (PStr ''m1'')"
    by (cases ?q) auto
  from reservations_are_backed [OF r(1)] r show ?thesis by auto
qed

text \<open>What the caller sees of a workflow that reserved a seat, and of one that did not.\<close>

lemma reserved_response:
  assumes "reserved settings request attempts r s"
  shows "dr_outcome r \<in> {''confirmed'', ''rejected'', ''failed''}" and "dr_reservation_status r = Some (dr_outcome r)"
    and "dr_seat r \<noteq> None" and "dr_trace_context r = dq_trace_context request"
proof -
  from reserved_facts [OF assms] obtain i movie sc st first_status where
      "decided_at request i movie sc st first_status r (wf_tool_results s)"
    by (elim exE conjE) (rule that)
  then have d: "decided first_status (dr_outcome r) (wf_tool_results s)"
      "r = decided_result request (dr_outcome r) (dr_final_answer r) i movie sc st (wf_tool_results s)"
    by (simp_all add: decided_at_def)
  show "dr_outcome r \<in> {''confirmed'', ''rejected'', ''failed''}" using d(1) by (auto simp: decided_def)
  show "dr_reservation_status r = Some (dr_outcome r)" "dr_seat r \<noteq> None" "dr_trace_context r = dq_trace_context request"
    by (subst d(2), simp add: decided_result_def)+
qed

lemma not_reserved_response:
  assumes "not_reserved bad settings request attempts e s"
  shows "case answer_reservation tid (Inl e) of
      Inl x \<Rightarrow> bad x \<or> (\<exists>msg. x = OverflowError msg)
    | Inr (DemoOk dto) \<Rightarrow> False
    | Inr (JSONResponse code err) \<Rightarrow>
        (code = 502 \<and> de_error err = ''demo_dependency_failed'' \<or>
         code = 504 \<and> de_error err = ''demo_workflow_timeout'') \<and> de_message err \<noteq> [] \<and>
        td_request_id (de_trace err) = tc_request_id (dq_trace_context request) \<and>
        td_correlation_id (de_trace err) = tc_correlation_id (dq_trace_context request)"
  using not_reserved_error [OF assms]
  by (auto simp: failed_with_def answer_reservation_def error_response_def trace_dto_def)

text \<open>
  C19 The demo endpoint: status 200 with a decided reservation, 502 for a failed dependency or 504
  for a timeout, each with a message; its trace part carries the caller's request and correlation
  ids (or the new ones); the only exceptions it lets through are those of the JSON decoder and an
  OverflowError for an infinite seat number.
\<close>

theorem demo_endpoint_answers:
  "case fst (reserve_recommended_seat settings (FastMcpDemoToolClient settings lib) rid wid headers tp tid payload m) of
     Inl e \<Rightarrow> json_raises lib e \<or> (\<exists>msg. e = OverflowError msg)
   | Inr (DemoOk dto) \<Rightarrow>
       dp_outcome dto \<in> {''confirmed'', ''rejected'', ''failed''} \<and>
       dp_reservation_status dto = Some (dp_outcome dto) \<and> dp_seat dto \<noteq> None \<and>
       td_request_id (dp_trace dto) = or_else (map_of headers ''x-request-id'') rid \<and>
       td_correlation_id (dp_trace dto) =
         or_else (map_of headers ''x-correlation-id'') (td_request_id (dp_trace dto))
   | Inr (JSONResponse code err) \<Rightarrow>
       (code = 502 \<and> de_error err = ''demo_dependency_failed'' \<or>
        code = 504 \<and> de_error err = ''demo_workflow_timeout'') \<and> de_message err \<noteq> [] \<and>
       td_request_id (de_trace err) = or_else (map_of headers ''x-request-id'') rid \<and>
       td_correlation_id (de_trace err) =
         or_else (map_of headers ''x-correlation-id'') (td_request_id (de_trace err))"
proof -
  let ?q = "demo_service_request rid wid headers tp payload"
  have ctx: "tc_request_id (dq_trace_context ?q) = or_else (map_of headers ''x-request-id'') rid"
    "tc_correlation_id (dq_trace_context ?q) =
       or_else (map_of headers ''x-correlation-id'') (tc_request_id (dq_trace_context ?q))"
    by (simp_all add: demo_service_request_def trace_from_headers_def Let_def)
  obtain outcome s where w: "recorded_workflow settings lib ?q m = (outcome, s)" by fastforce
  have go: "fst (reserve_recommended_seat settings (FastMcpDemoToolClient settings lib) rid wid headers tp tid payload m)
      = answer_reservation tid outcome"
    unfolding reserve_recommended_seat_def Let_def
    by (subst recording_is_transparent) (simp add: w)
  note out = workflow_outcomes [where settings = settings and lib = lib and request = ?q and m = m, unfolded w]
  show ?thesis
  proof (cases outcome)
    case (Inr r)
    then have r: "reserved settings ?q (nat (demo_reservation_poll_attempts settings)) r s" using out by simp
    show ?thesis
      using go Inr ctx reserved_response [OF r] by (simp add: answer_reservation_def response_dto_def trace_dto_def)
  next
    case (Inl e)
    then have e: "not_reserved (json_raises lib) settings ?q (nat (demo_reservation_poll_attempts settings)) e s"
      using out by simp
    show ?thesis
      using not_reserved_response [OF e, of tid] ctx
      by (auto simp: go Inl split: sum.splits demo_response.splits)
  qed
qed

end
