(* ===== verification/AuditTrail.thy ===== *)
theory AuditTrail
  imports DemoModels
begin

text \<open>
  The authentication audit trail (\<open>application/audit/authentication.py\<close>): bounded identifiers,
  validated sources, contexts and events, the event as the sinks publish it, and the context of a
  request (\<open>api/http/audit_context.py\<close>).
\<close>

section \<open>Bounded identifiers\<close>

definition safe_id_char :: "char \<Rightarrow> bool" where
  "safe_id_char c =
     (let n = code_of c in
      48 \<le> n \<and> n \<le> 57 \<or> 65 \<le> n \<and> n \<le> 90 \<or> 97 \<le> n \<and> n \<le> 122 \<or> c \<in> set ''._:/@-'')"

definition SAFE_ID :: "string \<Rightarrow> bool" where
  "SAFE_ID t \<longleftrightarrow> 1 \<le> length t \<and> length t \<le> 128 \<and> list_all safe_id_char t"

definition safe_identifier :: "string option \<Rightarrow> string option" where
  "safe_identifier value =
     (case value of
        None \<Rightarrow> None
      | Some t \<Rightarrow> if t \<noteq> [] \<and> SAFE_ID t then Some t else None)"

definition safe_header :: "string option \<Rightarrow> string option" where
  "safe_header value =
     (case value of
        None \<Rightarrow> None
      | Some t \<Rightarrow>
          if t \<noteq> [] \<and> length t \<le> 512 \<and> list_all (\<lambda>c. 32 \<le> code_of c \<and> code_of c \<le> 126) t
          then Some t else None)"

lemma safe_identifier_Some: "safe_identifier v = Some t \<longleftrightarrow> v = Some t \<and> SAFE_ID t"
  by (auto simp: safe_identifier_def SAFE_ID_def split: option.splits)

lemma safe_identifier_nonempty: "safe_identifier v = Some t \<Longrightarrow> t \<noteq> []"
  by (auto simp: safe_identifier_Some SAFE_ID_def)

lemma safe_header_idem: "safe_header (Some t) \<noteq> None \<longleftrightarrow> safe_header (Some t) = Some t"
  by (auto simp: safe_header_def)

lemma safe_header_result: "safe_header v = Some t \<Longrightarrow> safe_header (Some t) = Some t"
  by (auto simp: safe_header_def split: option.splits if_splits)

section \<open>Hexadecimal text\<close>

definition hex_char :: "char \<Rightarrow> bool" where
  "hex_char c = (let n = code_of c in 48 \<le> n \<and> n \<le> 57 \<or> 97 \<le> n \<and> n \<le> 102)"

definition hex_digit :: "nat \<Rightarrow> char" where
  "hex_digit n = char_of (if n < 10 then 48 + n else 87 + n)"

definition hex_digit_value :: "char \<Rightarrow> nat" where
  "hex_digit_value c = (if code_of c \<le> 57 then code_of c - 48 else code_of c - 87)"

text \<open>\<open>int(text, 16)\<close> on lower-case digits, and \<open>f"{n:0wx}"\<close>.\<close>

definition hex_value :: "string \<Rightarrow> nat" where
  "hex_value t = foldl (\<lambda>n c. 16 * n + hex_digit_value c) 0 t"

fun hex_digits :: "nat \<Rightarrow> string" where
  "hex_digits n = (if n < 16 then [hex_digit n] else hex_digits (n div 16) @ [hex_digit (n mod 16)])"

declare hex_digits.simps [simp del]

definition hex_text :: "nat \<Rightarrow> nat \<Rightarrow> string" where
  "hex_text w n = replicate (w - length (hex_digits n)) (CHR ''0'') @ hex_digits n"

definition TRACE_ID :: "string \<Rightarrow> bool" where
  "TRACE_ID t \<longleftrightarrow> length t = 32 \<and> list_all hex_char t"

definition SPAN_ID :: "string \<Rightarrow> bool" where
  "SPAN_ID t \<longleftrightarrow> length t = 16 \<and> list_all hex_char t"

lemma hex_digit_facts:
  assumes "n < 16"
  shows "hex_char (hex_digit n)" and "hex_digit_value (hex_digit n) = n"
  using assms by (auto simp: hex_char_def hex_digit_def hex_digit_value_def code_of_def Let_def)

lemma hex_digits_chars: "list_all hex_char (hex_digits n)"
proof (induction n rule: hex_digits.induct)
  case (1 n)
  then show ?case by (subst hex_digits.simps) (simp add: hex_digit_facts)
qed

lemma hex_digits_value: "hex_value (hex_digits n) = n"
proof (induction n rule: hex_digits.induct)
  case (1 n)
  then show ?case by (subst hex_digits.simps) (simp add: hex_digit_facts hex_value_def)
qed

lemma hex_digits_length: "0 < w \<Longrightarrow> n < 16 ^ w \<Longrightarrow> length (hex_digits n) \<le> w"
proof (induction n arbitrary: w rule: hex_digits.induct)
  case (1 n)
  show ?case
  proof (cases "n < 16")
    case True
    then show ?thesis using 1(2) by (subst hex_digits.simps) simp
  next
    case False
    then have "w \<noteq> 1" using 1(3) by auto
    then obtain v where v: "w = Suc v" "0 < v" using 1(2) by (cases w) auto
    then have "n div 16 < 16 ^ v" using 1(3) by (simp add: less_mult_imp_div_less mult.commute)
    then show ?thesis using 1(1) [OF False v(2)] False v(1) by (subst hex_digits.simps) simp
  qed
qed

lemma hex_value_zeros: "hex_value (replicate k (CHR ''0'') @ t) = hex_value t"
  by (induction k) (simp_all add: hex_value_def hex_digit_value_def code_of_def)

lemma hex_text_facts:
  assumes "0 < w" and "n < 16 ^ w"
  shows "length (hex_text w n) = w" and "list_all hex_char (hex_text w n)" and "hex_value (hex_text w n) = n"
  using hex_digits_length [OF assms] hex_digits_chars [of n]
  by (auto simp: hex_text_def hex_value_zeros hex_digits_value list_all_iff hex_char_def code_of_def Let_def)

section \<open>Outcomes, sources, contexts\<close>

datatype AuthenticationOutcome =
    AUTHENTICATED | INVALID_CREDENTIALS | MISSING_CREDENTIALS
  | MALFORMED_CREDENTIALS | INVALID_TOKEN | UNAUTHENTICATED

fun outcome_value :: "AuthenticationOutcome \<Rightarrow> string" where
  "outcome_value AUTHENTICATED = ''AUTHENTICATED''"
| "outcome_value INVALID_CREDENTIALS = ''INVALID_CREDENTIALS''"
| "outcome_value MISSING_CREDENTIALS = ''MISSING_CREDENTIALS''"
| "outcome_value MALFORMED_CREDENTIALS = ''MALFORMED_CREDENTIALS''"
| "outcome_value INVALID_TOKEN = ''INVALID_TOKEN''"
| "outcome_value UNAUTHENTICATED = ''UNAUTHENTICATED''"

record AuditSource =
  so_service_name :: string
  so_service_version :: string
  so_environment :: string

definition audit_producers :: "string set" where
  "audit_producers =
     {''movie-reservation-agent'', ''movie-reservation-service'', ''movie-recommendation-service''}"

definition new_source :: "string \<Rightarrow> string \<Rightarrow> string \<Rightarrow> exn + AuditSource" where
  "new_source name version environment =
     (if name \<notin> audit_producers then Inl (ValueError ''Unknown audit event producer'')
      else if list_ex (\<lambda>v. safe_identifier (Some v) = None) [name, version, environment]
      then Inl (ValueError ''Audit source values must be bounded identifiers'')
      else Inr \<lparr> so_service_name = name, so_service_version = version,
                 so_environment = environment \<rparr>)"

record AuditContext =
  ac_request_id :: string
  ac_correlation_id :: string
  ac_route :: string
  ac_auth_boundary :: string
  ac_trace_id :: "string option"
  ac_span_id :: "string option"
  ac_aws_alb_trace_id :: "string option"
  ac_aws_cloudfront_request_id :: "string option"

definition bad_hex_id :: "(string \<Rightarrow> bool) \<Rightarrow> string option \<Rightarrow> bool" where
  "bad_hex_id pattern value =
     (case value of None \<Rightarrow> False | Some t \<Rightarrow> \<not> pattern t \<or> hex_value t = 0)"

definition bad_header :: "string option \<Rightarrow> bool" where
  "bad_header value = (value \<noteq> None \<and> safe_header value = None)"

text \<open>The checks of \<open>AuditContext.__post_init__\<close>, in their order.\<close>

definition check_context :: "AuditContext \<Rightarrow> exn + AuditContext" where
  "check_context ctx =
     (if \<not> startswith (ac_route ctx) ''/'' \<or>
         list_ex (\<lambda>v. safe_identifier (Some v) = None)
           [ac_request_id ctx, ac_correlation_id ctx, ac_route ctx]
      then Inl (ValueError ''Audit context requires safe request, correlation, and route identifiers'')
      else if ac_auth_boundary ctx \<notin> {''demo_login'', ''api_auth'', ''graphql''}
      then Inl (ValueError ''Unknown authentication boundary'')
      else if bad_hex_id TRACE_ID (ac_trace_id ctx) \<or> bad_hex_id SPAN_ID (ac_span_id ctx)
      then Inl (ValueError ''Invalid active trace context'')
      else if (ac_trace_id ctx = None) \<noteq> (ac_span_id ctx = None)
      then Inl (ValueError ''Trace and span IDs must be supplied together'')
      else if bad_header (ac_aws_alb_trace_id ctx) \<or> bad_header (ac_aws_cloudfront_request_id ctx)
      then Inl (ValueError ''Invalid AWS correlation header'')
      else Inr ctx)"

section \<open>Events\<close>

record AuthenticationEvent =
  ev_uid :: string
  ev_time_ms :: int
  ev_source :: AuditSource
  ev_context :: AuditContext
  ev_outcome :: AuthenticationOutcome

text \<open>The pattern of event ids: the text of a version 4 UUID.\<close>

definition EVENT_ID :: "string \<Rightarrow> bool" where
  "EVENT_ID t \<longleftrightarrow> length t = 36 \<and>
     list_all (\<lambda>i. t ! i = CHR ''-'') [8, 13, 18, 23] \<and>
     list_all (\<lambda>i. hex_char (t ! i)) (filter (\<lambda>i. i \<notin> {8, 13, 18, 23}) [0..<36]) \<and>
     t ! 14 = CHR ''4'' \<and> t ! 19 \<in> set ''89ab''"

definition new_event ::
    "string \<Rightarrow> int \<Rightarrow> AuditSource \<Rightarrow> AuditContext \<Rightarrow> AuthenticationOutcome \<Rightarrow> exn + AuthenticationEvent" where
  "new_event uid time_ms source context outcome =
     (if \<not> EVENT_ID uid \<or> time_ms < 0
      then Inl (ValueError ''Audit event requires a safe ID and nonnegative timestamp'')
      else Inr \<lparr> ev_uid = uid, ev_time_ms = time_ms, ev_source = source, ev_context = context,
                 ev_outcome = outcome \<rparr>)"

definition authenticated :: "AuthenticationEvent \<Rightarrow> bool" where
  "authenticated e \<longleftrightarrow> ev_outcome e = AUTHENTICATED"

definition entry_opt :: "string \<Rightarrow> string option \<Rightarrow> pydict" where
  "entry_opt k v = (case v of None \<Rightarrow> [] | Some t \<Rightarrow> [(k, PStr t)])"

definition ocsf_platform :: "AuthenticationEvent \<Rightarrow> pydict" where
  "ocsf_platform e =
     [(''schema_version'', PStr ''1''),
      (''environment'', PStr (so_environment (ev_source e))),
      (''request_id'', PStr (ac_request_id (ev_context e))),
      (''route'', PStr (ac_route (ev_context e))),
      (''auth_boundary'', PStr (ac_auth_boundary (ev_context e)))]
     @ entry_opt ''trace_id'' (ac_trace_id (ev_context e))
     @ entry_opt ''span_id'' (ac_span_id (ev_context e))
     @ entry_opt ''aws_alb_trace_id'' (ac_aws_alb_trace_id (ev_context e))
     @ entry_opt ''aws_cloudfront_request_id'' (ac_aws_cloudfront_request_id (ev_context e))"

definition to_ocsf :: "AuthenticationEvent \<Rightarrow> pydict" where
  "to_ocsf e =
     [(''activity_id'', PInt 99),
      (''activity_name'', PStr ''Credential validation''),
      (''category_uid'', PInt 3),
      (''class_uid'', PInt 3002),
      (''type_uid'', PInt 300299),
      (''severity_id'', PInt (if authenticated e then 1 else 2)),
      (''status_id'', PInt (if authenticated e then 1 else 2)),
      (''status_detail'', PStr (outcome_value (ev_outcome e))),
      (''time'', PInt (ev_time_ms e)),
      (''metadata'', PDict
        [(''version'', PStr ''1.3.0''),
         (''uid'', PStr (ev_uid e)),
         (''correlation_uid'', PStr (ac_correlation_id (ev_context e))),
         (''product'', PDict
           [(''name'', PStr (so_service_name (ev_source e))),
            (''vendor_name'', PStr ''Movie Reservation Platform Lab''),
            (''version'', PStr (so_service_version (ev_source e)))])]),
      (''service'', PDict
        [(''name'', PStr (so_service_name (ev_source e))),
         (''version'', PStr (so_service_version (ev_source e)))]),
      (''user'', PDict
        (if authenticated e then [(''name'', PStr ''demo-user''), (''type_id'', PInt 1)]
         else [(''name'', PStr ''unknown''), (''type_id'', PInt 0)])),
      (''unmapped'', PDict [(''platform'', PDict (ocsf_platform e))])]"

text \<open>\<open>AuditSink\<close>, the protocol of what publishes events.\<close>

record 's AuditSink =
  sink_publish :: "AuthenticationEvent \<Rightarrow> ('s, unit) prog"

text \<open>
  What clients rely on: a publication that returns has recorded the event, one that fails raises
  an OSError and leaves at most an attempt behind.
\<close>

locale audit_sink =
  fixes sink :: "'s AuditSink"
    and recorded :: "'s \<Rightarrow> AuthenticationEvent \<Rightarrow> 's \<Rightarrow> bool"
    and attempted :: "'s \<Rightarrow> AuthenticationEvent \<Rightarrow> 's \<Rightarrow> bool"
  assumes published: "sink_publish sink e s = (Inr u, s') \<Longrightarrow> recorded s e s'"
    and publish_fails: "sink_publish sink e s = (Inl x, s') \<Longrightarrow> (\<exists>m. x = OSError m) \<and> attempted s e s'"
begin

lemma publish_spec:
  "valid (\<lambda>s. s = before) (sink_publish sink e)
     (\<lambda>u s. recorded before e s) (\<lambda>x s. (\<exists>m. x = OSError m) \<and> attempted before e s)"
proof (rule validI)
  fix s
  assume s: "s = before"
  obtain r s' where p: "sink_publish sink e s = (r, s')" by fastforce
  show "case sink_publish sink e s of
      (Inr u, s') \<Rightarrow> recorded before e s'
    | (Inl x, s') \<Rightarrow> (\<exists>m. x = OSError m) \<and> attempted before e s'"
    using published publish_fails p s by (cases r) auto
qed

end

section \<open>The context of a request\<close>

text \<open>The span context of the tracing library, as it is documented.\<close>

record SpanContext =
  sp_trace_id :: nat
  sp_span_id :: nat
  sp_is_valid :: bool

definition span_documented :: "SpanContext \<Rightarrow> bool" where
  "span_documented active \<longleftrightarrow>
     (sp_is_valid active \<longrightarrow> 0 < sp_trace_id active \<and> sp_trace_id active < 2 ^ 128 \<and>
                         0 < sp_span_id active \<and> sp_span_id active < 2 ^ 64)"

definition audit_context_from_headers ::
    "string \<Rightarrow> SpanContext \<Rightarrow> headers \<Rightarrow> string \<Rightarrow> string \<Rightarrow> exn + AuditContext" where
  "audit_context_from_headers new_id active headers route auth_boundary =
     (let request_id = or_else (safe_identifier (map_of headers ''x-request-id'')) new_id;
          correlation_id = or_else (safe_identifier (map_of headers ''x-correlation-id'')) request_id in
      check_context
        \<lparr> ac_request_id = request_id, ac_correlation_id = correlation_id, ac_route = route,
          ac_auth_boundary = auth_boundary,
          ac_trace_id = (if sp_is_valid active then Some (hex_text 32 (sp_trace_id active)) else None),
          ac_span_id = (if sp_is_valid active then Some (hex_text 16 (sp_span_id active)) else None),
          ac_aws_alb_trace_id = safe_header (map_of headers ''x-amzn-trace-id''),
          ac_aws_cloudfront_request_id = safe_header (map_of headers ''x-amz-cf-id'') \<rparr>)"

lemma event_id_safe:
  assumes "EVENT_ID t"
  shows "SAFE_ID t"
proof -
  have "safe_id_char (t ! i)" if "i < length t" for i
  proof (cases "i \<in> {8, 13, 18, 23}")
    case True
    then show ?thesis using assms by (auto simp: EVENT_ID_def safe_id_char_def)
  next
    case False
    then have "hex_char (t ! i)" using assms that by (auto simp: EVENT_ID_def list_all_iff)
    then show ?thesis by (auto simp: hex_char_def safe_id_char_def Let_def)
  qed
  then show ?thesis using assms by (simp add: SAFE_ID_def EVENT_ID_def list_all_length)
qed

lemma or_else_safe:
  assumes "SAFE_ID d"
  shows "safe_identifier (Some (or_else (safe_identifier v) d)) = Some (or_else (safe_identifier v) d)"
proof (cases "safe_identifier v")
  case None
  then show ?thesis using assms by (simp add: safe_identifier_Some)
next
  case (Some t)
  then have "SAFE_ID t" "t \<noteq> []" using safe_identifier_nonempty by (auto simp: safe_identifier_Some)
  then have "or_else (safe_identifier v) d = t" using Some by simp
  then show ?thesis using \<open>SAFE_ID t\<close> by (simp add: safe_identifier_Some)
qed

lemma safe_header_not_bad: "\<not> bad_header (safe_header v)"
  using safe_header_result by (cases "safe_header v") (auto simp: bad_header_def)

lemma hex_id_good:
  assumes "0 < n" and "n < 16 ^ w" and "0 < w" and "\<And>t. length t = w \<Longrightarrow> list_all hex_char t \<Longrightarrow> pattern t"
  shows "\<not> bad_hex_id pattern (Some (hex_text w n))"
  using hex_text_facts [OF assms(3,2)] assms(1,4) by (simp add: bad_hex_id_def)

lemma span_ids_good:
  assumes "span_documented active" and "sp_is_valid active"
  shows "\<not> bad_hex_id TRACE_ID (Some (hex_text 32 (sp_trace_id active)))"
    and "\<not> bad_hex_id SPAN_ID (Some (hex_text 16 (sp_span_id active)))"
proof -
  have pow: "(2::nat) ^ 128 = 16 ^ 32" "(2::nat) ^ 64 = 16 ^ 16" by simp_all
  note d = assms [unfolded span_documented_def pow]
  show "\<not> bad_hex_id TRACE_ID (Some (hex_text 32 (sp_trace_id active)))"
    by (rule hex_id_good) (use d in \<open>simp_all add: TRACE_ID_def\<close>)
  show "\<not> bad_hex_id SPAN_ID (Some (hex_text 16 (sp_span_id active)))"
    by (rule hex_id_good) (use d in \<open>simp_all add: SPAN_ID_def\<close>)
qed

lemma check_context_ok:
  assumes "startswith (ac_route ctx) ''/''"
    and "SAFE_ID (ac_request_id ctx)" "SAFE_ID (ac_correlation_id ctx)" "SAFE_ID (ac_route ctx)"
    and "ac_auth_boundary ctx \<in> {''demo_login'', ''api_auth'', ''graphql''}"
    and "\<not> bad_hex_id TRACE_ID (ac_trace_id ctx)" "\<not> bad_hex_id SPAN_ID (ac_span_id ctx)"
    and "(ac_trace_id ctx = None) = (ac_span_id ctx = None)"
    and "\<not> bad_header (ac_aws_alb_trace_id ctx)" "\<not> bad_header (ac_aws_cloudfront_request_id ctx)"
  shows "check_context ctx = Inr ctx"
proof -
  have "safe_identifier (Some t) \<noteq> None" if "SAFE_ID t" for t
    using that by (simp add: safe_identifier_Some [THEN iffD2])
  then show ?thesis using assms by (simp add: check_context_def)
qed

definition requested_context :: "string \<Rightarrow> SpanContext \<Rightarrow> headers \<Rightarrow> string \<Rightarrow> string \<Rightarrow> AuditContext" where
  "requested_context new_id active headers route auth_boundary =
     (let request_id = or_else (safe_identifier (map_of headers ''x-request-id'')) new_id;
          correlation_id = or_else (safe_identifier (map_of headers ''x-correlation-id'')) request_id in
        \<lparr> ac_request_id = request_id, ac_correlation_id = correlation_id, ac_route = route,
          ac_auth_boundary = auth_boundary,
          ac_trace_id = (if sp_is_valid active then Some (hex_text 32 (sp_trace_id active)) else None),
          ac_span_id = (if sp_is_valid active then Some (hex_text 16 (sp_span_id active)) else None),
          ac_aws_alb_trace_id = safe_header (map_of headers ''x-amzn-trace-id''),
          ac_aws_cloudfront_request_id = safe_header (map_of headers ''x-amz-cf-id'') \<rparr>)"

lemma audit_context_from_headers_checks:
  "audit_context_from_headers new_id active headers route auth_boundary =
     check_context (requested_context new_id active headers route auth_boundary)"
  by (simp add: audit_context_from_headers_def requested_context_def Let_def)

lemma requested_ids:
  assumes "EVENT_ID new_id"
  shows "SAFE_ID (ac_request_id (requested_context new_id active headers route auth_boundary))"
    and "SAFE_ID (ac_correlation_id (requested_context new_id active headers route auth_boundary))"
proof -
  show *: "SAFE_ID (ac_request_id (requested_context new_id active headers route auth_boundary))"
    using or_else_safe [OF event_id_safe [OF assms]] by (simp add: safe_identifier_Some requested_context_def Let_def)
  show "SAFE_ID (ac_correlation_id (requested_context new_id active headers route auth_boundary))"
    using or_else_safe [OF *] by (simp add: safe_identifier_Some requested_context_def Let_def)
qed

lemma audit_context_succeeds:
  assumes "EVENT_ID new_id" and "span_documented active"
    and "SAFE_ID route" and "startswith route ''/''"
    and "auth_boundary \<in> {''demo_login'', ''api_auth'', ''graphql''}"
  shows "audit_context_from_headers new_id active headers route auth_boundary =
      Inr (requested_context new_id active headers route auth_boundary)"
    and "check_context (requested_context new_id active headers route auth_boundary) =
      Inr (requested_context new_id active headers route auth_boundary)"
proof -
  show *: "check_context (requested_context new_id active headers route auth_boundary) =
      Inr (requested_context new_id active headers route auth_boundary)"
    by (rule check_context_ok)
       (use assms requested_ids [OF assms(1)] span_ids_good [OF assms(2)] in
         \<open>simp_all add: requested_context_def Let_def safe_header_not_bad bad_hex_id_def\<close>)
  then show "audit_context_from_headers new_id active headers route auth_boundary =
      Inr (requested_context new_id active headers route auth_boundary)"
    by (simp add: audit_context_from_headers_checks)
qed

section \<open>Properties\<close>

text \<open>
  C23 Whatever headers a caller sends, the audit context of the request is valid, and building it
  does not fail: a bounded identifier in the headers is taken over, anything else is replaced (the
  request id by a fresh one, the correlation id by the request id), the trace and span ids are the
  numbers of the active span, and an unprintable or oversized AWS header is left out.
\<close>

theorem audit_context_is_always_valid:
  assumes "EVENT_ID new_id" and "span_documented active"
    and "SAFE_ID route" and "startswith route ''/''"
    and "auth_boundary \<in> {''demo_login'', ''api_auth'', ''graphql''}"
  shows "\<exists>ctx. audit_context_from_headers new_id active headers route auth_boundary = Inr ctx \<and>
    check_context ctx = Inr ctx \<and>
    SAFE_ID (ac_request_id ctx) \<and> SAFE_ID (ac_correlation_id ctx) \<and>
    ac_request_id ctx =
      (case map_of headers ''x-request-id'' of
         Some t \<Rightarrow> if SAFE_ID t then t else new_id | None \<Rightarrow> new_id) \<and>
    ac_correlation_id ctx =
      (case map_of headers ''x-correlation-id'' of
         Some t \<Rightarrow> if SAFE_ID t then t else ac_request_id ctx | None \<Rightarrow> ac_request_id ctx) \<and>
    map_option hex_value (ac_trace_id ctx) = (if sp_is_valid active then Some (sp_trace_id active) else None) \<and>
    map_option hex_value (ac_span_id ctx) = (if sp_is_valid active then Some (sp_span_id active) else None) \<and>
    ac_aws_alb_trace_id ctx = safe_header (map_of headers ''x-amzn-trace-id'')"
proof -
  define ctx where "ctx = requested_context new_id active headers route auth_boundary"
  have choice: "or_else (safe_identifier v) d = (case v of Some t \<Rightarrow> if SAFE_ID t then t else d | None \<Rightarrow> d)"
    for v d
    by (auto simp: safe_identifier_def or_else_def SAFE_ID_def split: option.split list.split)
  have pow: "(2::nat) ^ 128 = 16 ^ 32" "(2::nat) ^ 64 = 16 ^ 16" by simp_all
  have "sp_is_valid active \<Longrightarrow> hex_value (hex_text 32 (sp_trace_id active)) = sp_trace_id active"
    "sp_is_valid active \<Longrightarrow> hex_value (hex_text 16 (sp_span_id active)) = sp_span_id active"
    using assms(2) unfolding span_documented_def pow by (simp_all add: hex_text_facts(3))
  then have ids: "map_option hex_value (ac_trace_id ctx) = (if sp_is_valid active then Some (sp_trace_id active) else None)"
    "map_option hex_value (ac_span_id ctx) = (if sp_is_valid active then Some (sp_span_id active) else None)"
    by (simp_all add: ctx_def requested_context_def Let_def)
  have fields: "ac_request_id ctx = or_else (safe_identifier (map_of headers ''x-request-id'')) new_id"
    "ac_correlation_id ctx = or_else (safe_identifier (map_of headers ''x-correlation-id'')) (ac_request_id ctx)"
    "ac_aws_alb_trace_id ctx = safe_header (map_of headers ''x-amzn-trace-id'')"
    by (simp_all add: ctx_def requested_context_def Let_def)
  have ok: "audit_context_from_headers new_id active headers route auth_boundary = Inr ctx"
    "check_context ctx = Inr ctx" "SAFE_ID (ac_request_id ctx)" "SAFE_ID (ac_correlation_id ctx)"
    unfolding ctx_def using audit_context_succeeds [OF assms] requested_ids [OF assms(1)] by auto
  show ?thesis
    by (rule exI [of _ ctx], intro conjI ok ids fields(3)) (simp_all only: fields(1,2) choice)
qed

definition example_uuid :: string where
  "example_uuid = ''3f2b8c1e-9d4a-4c6b-8e7f-0a1b2c3d4e5f''"

definition example_span :: SpanContext where
  "example_span = \<lparr> sp_trace_id = 10, sp_span_id = 11, sp_is_valid = True \<rparr>"

lemma example_uuid_ok: "EVENT_ID example_uuid"
  by code_simp

lemma example_span_ok: "span_documented example_span"
  by (simp add: span_documented_def example_span_def)

theorem audit_context_is_always_valid_witness:
  "\<exists>ctx. audit_context_from_headers example_uuid example_span [(''x-request-id'', ''bad value'')]
       ''/demo/auth/login'' ''demo_login'' = Inr ctx \<and> ac_request_id ctx = example_uuid \<and>
     map_option hex_value (ac_trace_id ctx) = Some 10"
proof -
  have "SAFE_ID ''/demo/auth/login''" "\<not> SAFE_ID ''bad value''" by code_simp+
  then show ?thesis
    using audit_context_is_always_valid [OF example_uuid_ok example_span_ok, of "''/demo/auth/login''"
        "''demo_login''" "[(''x-request-id'', ''bad value'')]"]
    by (auto simp: startswith_def example_span_def)
qed

end
