(* ===== verification/StdoutSink.thy ===== *)
theory StdoutSink
  imports AuditTrail
begin

text \<open>
  The sink that writes audit events to standard output (\<open>infrastructure/audit/stdout.py\<close>), with the
  parts of the standard library it uses: \<open>json.dumps\<close> in its compact ASCII form and text streams,
  which may take less than they are given or raise.
\<close>

section \<open>JSON text\<close>

definition json_escape :: "char \<Rightarrow> string" where
  "json_escape c =
     (let n = code_of c in
      if n = 34 then [CHR 0x5C, CHR 0x22]
      else if n = 92 then [CHR 0x5C, CHR 0x5C]
      else if n = 8 then [CHR 0x5C, CHR ''b'']
      else if n = 12 then [CHR 0x5C, CHR ''f'']
      else if n = 10 then [CHR 0x5C, CHR ''n'']
      else if n = 13 then [CHR 0x5C, CHR ''r'']
      else if n = 9 then [CHR 0x5C, CHR ''t'']
      else if n < 32 \<or> 126 < n then [CHR 0x5C, CHR ''u''] @ hex_text 4 n
      else [c])"

definition json_string :: "string \<Rightarrow> string" where
  "json_string t = [CHR 0x22] @ concat (map json_escape t) @ [CHR 0x22]"

fun comma_separated :: "string list \<Rightarrow> string" where
  "comma_separated [] = []"
| "comma_separated [t] = t"
| "comma_separated (t # ts) = t @ '','' @ comma_separated ts"

text \<open>
  \<open>json.dumps(value, separators=(",", ":"), ensure_ascii=True)\<close>; the text of a finite float is an
  argument (an audit event has none). With \<open>allow_nan=False\<close> the special floats raise.
\<close>

fun json_text :: "(rat \<Rightarrow> string) \<Rightarrow> pyval \<Rightarrow> string" where
  "json_text float_repr PNone = ''null''"
| "json_text float_repr (PBool b) = (if b then ''true'' else ''false'')"
| "json_text float_repr (PInt i) = int_text i"
| "json_text float_repr (PFloat f) =
     (case f of Fin q \<Rightarrow> float_repr q | PosInf \<Rightarrow> ''Infinity'' | NegInf \<Rightarrow> ''-Infinity'' | NaN \<Rightarrow> ''NaN'')"
| "json_text float_repr (PStr t) = json_string t"
| "json_text float_repr (PList vs) =
     ''['' @ comma_separated (map (json_text float_repr) vs) @ '']''"
| "json_text float_repr (PDict d) =
     ''{'' @ comma_separated (map (\<lambda>(k, v). json_string k @ '':'' @ json_text float_repr v) d) @ ''}''"

fun all_finite :: "pyval \<Rightarrow> bool" where
  "all_finite (PFloat f) = (case f of Fin q \<Rightarrow> True | _ \<Rightarrow> False)"
| "all_finite (PList vs) = list_all all_finite vs"
| "all_finite (PDict d) = list_all (\<lambda>(k, v). all_finite v) d"
| "all_finite _ = True"

definition json_dumps :: "(rat \<Rightarrow> string) \<Rightarrow> pyval \<Rightarrow> exn + string" where
  "json_dumps float_repr v =
     (if all_finite v then Inr (json_text float_repr v)
      else Inl (ValueError ''Out of range float values are not JSON compliant''))"

section \<open>Text streams\<close>

text \<open>
  What a text stream does with the writes and flushes to come: it takes a number of characters, or
  takes some and raises an OSError or a ValueError (a closed stream, a character it cannot encode);
  once the list is used up, it takes everything.
\<close>

datatype io_error = IoOSError string | IoValueError string

datatype write_fate = Takes nat | WriteRaises nat io_error

record text_stream =
  ts_text :: string
  ts_writes :: "write_fate list"
  ts_flushes :: "io_error option list"

fun io_exn :: "io_error \<Rightarrow> exn" where
  "io_exn (IoOSError m) = OSError m"
| "io_exn (IoValueError m) = ValueError m"

definition stream_write :: "string \<Rightarrow> (text_stream, nat) prog" where
  "stream_write t = (\<lambda>s.
     case ts_writes s of
       [] \<Rightarrow> (Inr (length t), s\<lparr> ts_text := ts_text s @ t \<rparr>)
     | Takes n # fates \<Rightarrow>
         (Inr (min n (length t)), s\<lparr> ts_text := ts_text s @ take n t, ts_writes := fates \<rparr>)
     | WriteRaises n e # fates \<Rightarrow>
         (Inl (io_exn e), s\<lparr> ts_text := ts_text s @ take n t, ts_writes := fates \<rparr>))"

definition stream_flush :: "(text_stream, unit) prog" where
  "stream_flush = (\<lambda>s.
     case ts_flushes s of
       [] \<Rightarrow> (Inr (), s)
     | None # fates \<Rightarrow> (Inr (), s\<lparr> ts_flushes := fates \<rparr>)
     | Some e # fates \<Rightarrow> (Inl (io_exn e), s\<lparr> ts_flushes := fates \<rparr>))"

section \<open>The sink\<close>

definition write_line :: "string \<Rightarrow> (text_stream, unit) prog" where
  "write_line line =
     try_except
       (bindM (stream_write line) (\<lambda>n.
          if n \<noteq> length line then throw (OSError ''Audit stdout write was incomplete'')
          else stream_flush))
       (\<lambda>e. case e of
          OSError m \<Rightarrow> throw (OSError ''Audit stdout emission failed'')
        | ValueError m \<Rightarrow> throw (OSError ''Audit stdout emission failed'')
        | _ \<Rightarrow> throw e)"

definition audit_json :: "AuthenticationEvent \<Rightarrow> pyval" where
  "audit_json e = PDict [(''audit'', PDict (to_ocsf e))]"

definition publish :: "(rat \<Rightarrow> string) \<Rightarrow> AuthenticationEvent \<Rightarrow> (text_stream, unit) prog" where
  "publish float_repr e =
     bindM (liftE (json_dumps float_repr (audit_json e))) (\<lambda>t. write_line (t @ [CHR 0x0A]))"

definition StdoutAuditSink :: "(rat \<Rightarrow> string) \<Rightarrow> text_stream AuditSink" where
  "StdoutAuditSink float_repr = \<lparr> sink_publish = publish float_repr \<rparr>"

section \<open>An event is one printable line\<close>

text \<open>The text of an event does not depend on how floats are printed: it has none.\<close>

fun float_free :: "pyval \<Rightarrow> bool" where
  "float_free (PFloat f) = False"
| "float_free (PList vs) = list_all float_free vs"
| "float_free (PDict d) = list_all (\<lambda>(k, v). float_free v) d"
| "float_free _ = True"

lemma float_free_finite: "float_free v \<Longrightarrow> all_finite v"
  by (induction v) (force simp: list_all_iff)+

lemma event_float_free: "float_free (audit_json e)"
  by (simp add: audit_json_def to_ocsf_def ocsf_platform_def entry_opt_def split: option.split)

definition printable :: "char \<Rightarrow> bool" where
  "printable c \<longleftrightarrow> 32 \<le> code_of c \<and> code_of c \<le> 126"

lemma hex_char_printable: "hex_char c \<Longrightarrow> printable c"
  by (auto simp: hex_char_def printable_def Let_def)

lemma json_escape_printable: "list_all printable (json_escape c)"
proof -
  have "list_all hex_char (hex_text 4 (code_of c))"
    by (rule hex_text_facts) (use code_of_bound [of c] in simp_all)
  then have "list_all printable (hex_text 4 (code_of c))"
    by (auto simp: list_all_iff hex_char_printable)
  then show ?thesis by (auto simp: json_escape_def Let_def printable_def code_of_def)
qed

lemma json_string_printable: "list_all printable (json_string t)"
  using json_escape_printable by (auto simp: json_string_def list_all_iff printable_def code_of_def)

lemma digits_printable: "list_all is_digit t \<Longrightarrow> list_all printable t"
  by (auto simp: list_all_iff is_digit_def printable_def)

lemma int_text_printable: "list_all printable (int_text i)"
  using digits_printable [OF nat_text_digits] by (simp add: int_text_def printable_def code_of_def)

lemma comma_separated_printable:
  "list_all (list_all printable) ts \<Longrightarrow> list_all printable (comma_separated ts)"
  by (induction ts rule: comma_separated.induct) (simp_all add: printable_def code_of_def)

lemma json_marks_printable:
  "printable (CHR ''['')" "printable (CHR '']'')" "printable (CHR ''{'')" "printable (CHR ''}'')"
  "printable (CHR '':'')"
  by code_simp+

lemma json_text_printable: "float_free v \<Longrightarrow> list_all printable (json_text float_repr v)"
proof (induction v)
  case (PList vs)
  then have "list_all printable (comma_separated (map (json_text float_repr) vs))"
    by (intro comma_separated_printable) (simp add: list_all_iff)
  then show ?case by (simp add: json_marks_printable)
next
  case (PDict d)
  have "list_all printable (json_string k @ '':'' @ json_text float_repr v)" if "(k, v) \<in> set d" for k v
  proof -
    have "float_free v" using PDict.prems that by (auto simp: list_all_iff)
    then have "list_all printable (json_text float_repr v)"
      using PDict.IH [OF that] by simp
    then show ?thesis using json_string_printable by (simp add: json_marks_printable)
  qed
  then have "list_all printable
      (comma_separated (map (\<lambda>(k, v). json_string k @ '':'' @ json_text float_repr v) d))"
    by (intro comma_separated_printable) (auto simp: list_all_iff)
  then show ?case by (simp add: json_marks_printable)
qed (auto simp: json_string_printable int_text_printable printable_def code_of_def)

definition audit_line :: "(rat \<Rightarrow> string) \<Rightarrow> AuthenticationEvent \<Rightarrow> string" where
  "audit_line float_repr e = json_text float_repr (audit_json e) @ [CHR 0x0A]"

lemma audit_line_printable:
  "\<exists>t. audit_line float_repr e = t @ [CHR 0x0A] \<and> list_all printable t"
  by (simp add: audit_line_def json_text_printable event_float_free)

section \<open>What publishing does\<close>

lemma publish_is_write_line: "publish float_repr e = write_line (audit_line float_repr e)"
  by (rule ext) (simp add: publish_def json_dumps_def float_free_finite event_float_free audit_line_def
      liftE_def bindM_def)

definition io_failed :: "string \<Rightarrow> string \<Rightarrow> exn \<Rightarrow> text_stream \<Rightarrow> bool" where
  "io_failed before t e s \<longleftrightarrow>
     (\<exists>m. e = OSError m \<or> e = ValueError m) \<and> (\<exists>n. ts_text s = before @ take n t)"

lemma io_exn_either: "\<exists>m. io_exn e = OSError m \<or> io_exn e = ValueError m"
  by (cases e) auto

lemma stream_write_spec:
  "valid (\<lambda>s. ts_text s = before) (stream_write t)
     (\<lambda>n s. n \<le> length t \<and> ts_text s = before @ take n t) (io_failed before t)"
  by (rule validI)
     (auto simp: stream_write_def io_failed_def io_exn_either min_def split: list.split write_fate.split)

lemma stream_flush_spec:
  "valid (\<lambda>s. ts_text s = before @ t) stream_flush (\<lambda>u s. ts_text s = before @ t) (io_failed before t)"
  by (rule validI)
     (auto simp: stream_flush_def io_failed_def io_exn_either intro: exI [of _ "length t"]
        split: list.split option.split)

lemma write_body_spec:
  "valid (\<lambda>s. ts_text s = before)
     (bindM (stream_write t) (\<lambda>n. if n \<noteq> length t then throw (OSError msg) else stream_flush))
     (\<lambda>u s. ts_text s = before @ t) (io_failed before t)"
proof (rule valid_bindM [OF stream_write_spec], rule valid_if)
  fix n
  show "valid (\<lambda>s. n \<le> length t \<and> ts_text s = before @ take n t) (throw (OSError msg))
      (\<lambda>u s. ts_text s = before @ t) (io_failed before t)"
    by (rule valid_throw) (auto simp: io_failed_def)
next
  fix n
  assume "\<not> n \<noteq> length t"
  then show "valid (\<lambda>s. n \<le> length t \<and> ts_text s = before @ take n t) stream_flush
      (\<lambda>u s. ts_text s = before @ t) (io_failed before t)"
    by (intro valid_weaken [OF stream_flush_spec]) auto
qed

lemma write_line_cases:
  "case write_line t s of
     (Inr u, s') \<Rightarrow> ts_text s' = ts_text s @ t
   | (Inl x, s') \<Rightarrow> x = OSError ''Audit stdout emission failed'' \<and>
       (\<exists>n. ts_text s' = ts_text s @ take n t)"
  using validE [OF write_body_spec [of "ts_text s" t "''Audit stdout write was incomplete''"] refl]
  by (auto simp: write_line_def try_except_def throw_def io_failed_def split: prod.splits sum.splits)

definition wrote :: "(rat \<Rightarrow> string) \<Rightarrow> text_stream \<Rightarrow> AuthenticationEvent \<Rightarrow> text_stream \<Rightarrow> bool" where
  "wrote float_repr s e s' \<longleftrightarrow> ts_text s' = ts_text s @ audit_line float_repr e"

definition wrote_part :: "(rat \<Rightarrow> string) \<Rightarrow> text_stream \<Rightarrow> AuthenticationEvent \<Rightarrow> text_stream \<Rightarrow> bool" where
  "wrote_part float_repr s e s' \<longleftrightarrow> (\<exists>n. ts_text s' = ts_text s @ take n (audit_line float_repr e))"

interpretation stdout: audit_sink "StdoutAuditSink float_repr" "wrote float_repr" "wrote_part float_repr"
  for float_repr
proof unfold_locales
  fix e s u s'
  assume "sink_publish (StdoutAuditSink float_repr) e s = (Inr u, s')"
  then show "wrote float_repr s e s'"
    using write_line_cases [where t = "audit_line float_repr e" and s = s]
    by (simp add: StdoutAuditSink_def publish_is_write_line wrote_def)
next
  fix e s x s'
  assume "sink_publish (StdoutAuditSink float_repr) e s = (Inl x, s')"
  then show "(\<exists>m. x = OSError m) \<and> wrote_part float_repr s e s'"
    using write_line_cases [where t = "audit_line float_repr e" and s = s]
    by (simp add: StdoutAuditSink_def publish_is_write_line wrote_part_def)
qed

end
