(* ===== verification/Sha256.thy ===== *)
theory Sha256
  imports Prelude "HOL-Library.Word"
begin

unbundle bit_operations_syntax

text \<open>
  The parts of the standard library that the login check uses: \<open>str.encode()\<close>,
  \<open>hashlib.sha256(data).digest()\<close> as FIPS 180-4 defines it on 32-bit words, and
  \<open>secrets.compare_digest\<close>.
\<close>

type_synonym bytes = "8 word list"

section \<open>Text as bytes\<close>

text \<open>UTF-8 of the characters below 256: one byte for ASCII, two for the others.\<close>

definition encode_char :: "char \<Rightarrow> bytes" where
  "encode_char c =
     (let n = of_char c :: nat in
      if n < 128 then [of_nat n] else [of_nat (192 + n div 64), of_nat (128 + n mod 64)])"

definition encode :: "string \<Rightarrow> bytes" where
  "encode t = concat (map encode_char t)"

section \<open>SHA-256\<close>

text \<open>
  The constants: the first 32 bits of the fractional parts of the cube roots of the first 64 primes
  and of the square roots of the first 8. \<open>int_root k x\<close> is the largest \<open>m < 2 ^ 36\<close> with
  \<open>m ^ k \<le> x\<close>, found bit by bit.
\<close>

definition small_primes :: "nat list" where
  "small_primes = filter (\<lambda>n. list_all (\<lambda>d. n mod d \<noteq> 0) [2..<n]) [2..<312]"

definition int_root :: "nat \<Rightarrow> int \<Rightarrow> int" where
  "int_root k x = foldl (\<lambda>m b. if (m + 2 ^ b) ^ k \<le> x then m + 2 ^ b else m) 0 (rev [0..<36])"

definition sha_k :: "32 word list" where
  "sha_k = map (\<lambda>p. of_int (int_root 3 (int p * 2 ^ 96))) small_primes"

definition sha_h0 :: "32 word list" where
  "sha_h0 = map (\<lambda>p. of_int (int_root 2 (int p * 2 ^ 64))) (take 8 small_primes)"

definition big_sigma0 :: "32 word \<Rightarrow> 32 word" where
  "big_sigma0 x = word_rotr 2 x XOR word_rotr 13 x XOR word_rotr 22 x"

definition big_sigma1 :: "32 word \<Rightarrow> 32 word" where
  "big_sigma1 x = word_rotr 6 x XOR word_rotr 11 x XOR word_rotr 25 x"

definition small_sigma0 :: "32 word \<Rightarrow> 32 word" where
  "small_sigma0 x = word_rotr 7 x XOR word_rotr 18 x XOR drop_bit 3 x"

definition small_sigma1 :: "32 word \<Rightarrow> 32 word" where
  "small_sigma1 x = word_rotr 17 x XOR word_rotr 19 x XOR drop_bit 10 x"

definition sha_ch :: "32 word \<Rightarrow> 32 word \<Rightarrow> 32 word \<Rightarrow> 32 word" where
  "sha_ch x y z = (x AND y) XOR (NOT x AND z)"

definition sha_maj :: "32 word \<Rightarrow> 32 word \<Rightarrow> 32 word \<Rightarrow> 32 word" where
  "sha_maj x y z = (x AND y) XOR (x AND z) XOR (y AND z)"

text \<open>The message schedule, extended word by word to 64 words.\<close>

fun schedule :: "nat \<Rightarrow> 32 word list \<Rightarrow> 32 word list" where
  "schedule 0 ws = ws"
| "schedule (Suc n) ws =
     (let t = length ws in
      schedule n (ws @ [small_sigma1 (ws ! (t - 2)) + ws ! (t - 7)
                        + small_sigma0 (ws ! (t - 15)) + ws ! (t - 16)]))"

definition sha_round :: "32 word list \<Rightarrow> 32 word \<times> 32 word \<Rightarrow> 32 word list" where
  "sha_round st kw =
     (case st of
        [a, b, c, d, e, f, g, h] \<Rightarrow>
          let t1 = h + big_sigma1 e + sha_ch e f g + fst kw + snd kw;
              t2 = big_sigma0 a + sha_maj a b c in
          [t1 + t2, a, b, c, d + t1, e, f, g]
      | _ \<Rightarrow> st)"

definition sha_block :: "32 word list \<Rightarrow> 32 word list \<Rightarrow> 32 word list" where
  "sha_block st block =
     map2 (+) st (foldl sha_round st (zip sha_k (schedule 48 block)))"

fun word_of_bytes :: "bytes \<Rightarrow> 32 word" where
  "word_of_bytes bs = foldl (\<lambda>acc b. push_bit 8 acc OR ucast b) 0 bs"

definition bytes_of_word :: "32 word \<Rightarrow> bytes" where
  "bytes_of_word w = [ucast (drop_bit 24 w), ucast (drop_bit 16 w), ucast (drop_bit 8 w), ucast w]"

fun chunks_of :: "nat \<Rightarrow> 'a list \<Rightarrow> 'a list list" where
  "chunks_of 0 xs = []"
| "chunks_of (Suc n) [] = []"
| "chunks_of (Suc n) (x # xs) = (x # take n xs) # chunks_of (Suc n) (drop n xs)"

text \<open>The message, a one bit, zeros up to the length field, and the length in bits as 64 bits.\<close>

definition sha_padded :: "bytes \<Rightarrow> bytes" where
  "sha_padded m =
     (let bits = (of_nat (8 * length m) :: 64 word) in
      m @ [0x80] @ replicate ((119 - length m mod 64) mod 64) 0
      @ map (\<lambda>i. ucast (drop_bit (8 * i) bits)) [7, 6, 5, 4, 3, 2, 1, 0])"

definition sha256 :: "bytes \<Rightarrow> bytes" where
  "sha256 m =
     concat (map bytes_of_word
       (foldl sha_block sha_h0 (map (map word_of_bytes \<circ> chunks_of 4) (chunks_of 64 (sha_padded m)))))"

text \<open>\<open>secrets.compare_digest\<close>: equality, in time that does not depend on the arguments.\<close>

definition compare_digest :: "bytes \<Rightarrow> bytes \<Rightarrow> bool" where
  "compare_digest a b \<longleftrightarrow> a = b"

section \<open>Different text has different bytes\<close>

lemma byte_inj: "n < 256 \<Longrightarrow> m < 256 \<Longrightarrow> (of_nat n :: 8 word) = of_nat m \<longleftrightarrow> n = m"
  by (simp add: word_of_nat_eq_iff take_bit_nat_eq_self)

lemma encode_char_prefix:
  assumes "encode_char c @ xs = encode_char d @ ys"
  shows "c = d \<and> xs = ys"
proof -
  define n m where "n = (of_char c :: nat)" and "m = (of_char d :: nat)"
  have bounds: "n < 256" "m < 256" by (simp_all add: n_def m_def)
  have enc: "encode_char c = (if n < 128 then [of_nat n] else [of_nat (192 + n div 64), of_nat (128 + n mod 64)])"
    "encode_char d = (if m < 128 then [of_nat m] else [of_nat (192 + m div 64), of_nat (128 + m mod 64)])"
    by (simp_all only: encode_char_def n_def m_def Let_def)
  have mods: "128 + n mod 64 < 256" "128 + m mod 64 < 256" "192 + n div 64 < 256" "192 + m div 64 < 256"
    using bounds by auto
  have "n = m \<and> xs = ys"
  proof (cases "n < 128"; cases "m < 128")
    assume "\<not> n < 128" "\<not> m < 128"
    then have "192 + n div 64 = 192 + m div 64" "128 + n mod 64 = 128 + m mod 64" "xs = ys"
      using assms unfolding enc by (simp_all only: if_False append_Cons append_Nil list.inject byte_inj mods)
    then show ?thesis by (metis add_left_cancel div_mult_mod_eq)
  next
    assume a: "n < 128" "\<not> m < 128"
    then have "n = 192 + m div 64"
      using assms mods bounds unfolding enc by (simp only: if_False if_True append_Cons append_Nil list.inject byte_inj)
    then show ?thesis using a by simp
  next
    assume a: "\<not> n < 128" "m < 128"
    then have "192 + n div 64 = m"
      using assms mods bounds unfolding enc by (simp only: if_False if_True append_Cons append_Nil list.inject byte_inj)
    then show ?thesis using a by simp
  qed (use assms bounds in \<open>simp_all add: enc byte_inj\<close>)
  then show ?thesis by (simp add: n_def m_def)
qed

lemma encode_char_nonempty: "encode_char c \<noteq> []"
  by (simp add: encode_char_def Let_def)

lemma encode_inj: "encode t = encode u \<Longrightarrow> t = u"
proof (induction t arbitrary: u)
  case Nil
  then show ?case using encode_char_nonempty by (cases u) (auto simp: encode_def)
next
  case (Cons c t)
  then obtain d u' where u: "u = d # u'"
    using encode_char_nonempty by (cases u) (auto simp: encode_def)
  then have "encode_char c @ encode t = encode_char d @ encode u'"
    using Cons.prems by (simp add: encode_def)
  then have "c = d" "encode t = encode u'" by (auto dest: encode_char_prefix)
  then show ?case using Cons.IH u by simp
qed

text \<open>A collision of the hash function: different messages with one digest.\<close>

definition sha256_collision :: "bytes \<Rightarrow> bytes \<Rightarrow> bool" where
  "sha256_collision a b \<longleftrightarrow> a \<noteq> b \<and> sha256 a = sha256 b"

lemma same_digest:
  "compare_digest (sha256 (encode t)) (sha256 (encode u)) \<Longrightarrow> t = u \<or> sha256_collision (encode t) (encode u)"
  using encode_inj by (auto simp: compare_digest_def sha256_collision_def)

end
