(* ===== verification/DemoLogin.thy ===== *)
theory DemoLogin
  imports StdoutSink Sha256
begin

text \<open>
  The demonstration login: its settings (\<open>demo/auth_config.py\<close>), the check of credentials
  (\<open>services/demo/authentication.py\<close>), the endpoint (\<open>api/http/v1/routes/demo_auth.py\<close>) with its
  transfer objects, and the part of \<open>demo_app.py\<close> that puts them together.
\<close>

section \<open>The service\<close>

record 's DemoAuthenticationService =
  au_username_hash :: bytes
  au_password_hash :: bytes
  au_source :: AuditSource
  au_sink :: "'s AuditSink"

definition new_authentication_service ::
    "string \<Rightarrow> string \<Rightarrow> AuditSource \<Rightarrow> 's AuditSink \<Rightarrow> 's DemoAuthenticationService" where
  "new_authentication_service username password source sink =
     \<lparr> au_username_hash = sha256 (encode username), au_password_hash = sha256 (encode password),
       au_source = source, au_sink = sink \<rparr>"

text \<open>\<open>not v\<close> for an optional string.\<close>

definition falsy :: "string option \<Rightarrow> bool" where
  "falsy v \<longleftrightarrow> v = None \<or> v = Some []"

definition check_outcome ::
    "'s DemoAuthenticationService \<Rightarrow> string option \<Rightarrow> string option \<Rightarrow> AuthenticationOutcome" where
  "check_outcome service username password =
     (let username_matches = compare_digest (au_username_hash service) (sha256 (encode (or_else username [])));
          password_matches = compare_digest (au_password_hash service) (sha256 (encode (or_else password []))) in
      if falsy username \<or> falsy password then MISSING_CREDENTIALS
      else if username_matches \<and> password_matches then AUTHENTICATED
      else INVALID_CREDENTIALS)"

text \<open>The fresh event id and the clock in nanoseconds are arguments.\<close>

definition audit_record ::
    "'s DemoAuthenticationService \<Rightarrow> string \<Rightarrow> int \<Rightarrow> AuthenticationOutcome \<Rightarrow> AuditContext \<Rightarrow>
     ('s, AuthenticationEvent) prog" where
  "audit_record service uid now_ns outcome ctx =
     bindM (liftE (new_event uid (now_ns div 1000000) (au_source service) ctx outcome)) (\<lambda>event.
     bindM (sink_publish (au_sink service) event) (\<lambda>_. ret event))"

definition check_credentials ::
    "'s DemoAuthenticationService \<Rightarrow> string \<Rightarrow> int \<Rightarrow> string option \<Rightarrow> string option \<Rightarrow> AuditContext \<Rightarrow>
     ('s, AuthenticationEvent) prog" where
  "check_credentials service uid now_ns username password ctx =
     audit_record service uid now_ns (check_outcome service username password) ctx"

section \<open>Settings\<close>

record DemoAuthSettings =
  da_enabled :: bool
  da_username :: "string option"
  da_password :: "string option"

definition default_auth_settings :: DemoAuthSettings where
  "default_auth_settings = \<lparr> da_enabled = False, da_username = None, da_password = None \<rparr>"

definition explicit_secret :: "string option \<Rightarrow> nat \<Rightarrow> bool" where
  "explicit_secret secret limit =
     (case secret of None \<Rightarrow> False | Some t \<Rightarrow> strip t \<noteq> [] \<and> length t \<le> limit)"

definition require_explicit_credentials :: "DemoAuthSettings \<Rightarrow> exn + DemoAuthSettings" where
  "require_explicit_credentials st =
     (if da_enabled st \<and> \<not> (explicit_secret (da_username st) 256 \<and> explicit_secret (da_password st) 1024)
      then Inl (ValueError ''Enabled demo authentication requires nonblank, bounded username and password'')
      else Inr st)"

text \<open>
  What the application makes of the settings: no service, and no route, unless they are enabled.
  The two environment variables are arguments, \<open>None\<close> when unset.
\<close>

definition demo_authentication_service ::
    "DemoAuthSettings \<Rightarrow> string option \<Rightarrow> string option \<Rightarrow> 's AuditSink \<Rightarrow>
     exn + 's DemoAuthenticationService option" where
  "demo_authentication_service st version environment sink =
     (if \<not> da_enabled st then Inr None
      else case (da_username st, da_password st) of
        (Some username, Some password) \<Rightarrow>
          map_sum id (\<lambda>source. Some (new_authentication_service username password source sink))
            (new_source ''movie-reservation-agent''
               (case version of None \<Rightarrow> ''unknown'' | Some v \<Rightarrow> v)
               (case environment of None \<Rightarrow> ''local'' | Some v \<Rightarrow> v))
      | _ \<Rightarrow> Inl (AttributeError
          ([CHR 0x27] @ ''NoneType'' @ [CHR 0x27] @ '' object has no attribute ''
           @ [CHR 0x27] @ ''get_secret_value'' @ [CHR 0x27])))"

section \<open>Transfer objects\<close>

record DemoLoginRequestDto =
  dl_username :: "string option"
  dl_password :: "string option"

text \<open>
  One optional text field of bounded length, strictly typed: the outer \<open>None\<close> is a ValidationError.
  Fields that the model does not name are refused.
\<close>

definition text_field :: "nat \<Rightarrow> pyval option \<Rightarrow> string option option" where
  "text_field max_length v =
     (case v of
        None \<Rightarrow> Some None
      | Some PNone \<Rightarrow> Some None
      | Some (PStr t) \<Rightarrow> if length t \<le> max_length then Some (Some t) else None
      | Some _ \<Rightarrow> None)"

definition validate_login :: "pyval \<Rightarrow> DemoLoginRequestDto option" where
  "validate_login v =
     (case v of
        PDict d \<Rightarrow>
          if \<not> set (dict_keys d) \<subseteq> {''username'', ''password''} then None
          else (case (text_field 256 (map_of d ''username''), text_field 1024 (map_of d ''password'')) of
                  (Some u, Some p) \<Rightarrow> Some \<lparr> dl_username = u, dl_password = p \<rparr>
                | _ \<Rightarrow> None)
      | _ \<Rightarrow> None)"

text \<open>\<open>DemoLoginRequestDto.model_validate_json(body)\<close>; the JSON parser of the library is an argument.\<close>

definition model_validate_json :: "(string \<Rightarrow> pyval option) \<Rightarrow> string \<Rightarrow> DemoLoginRequestDto option" where
  "model_validate_json parse body = Option.bind (parse body) validate_login"

record DemoLoginResponseDto =
  dn_authenticated :: bool
  dn_message :: string
  dn_request_id :: string
  dn_audit_event_id :: string
  dn_trace_id :: "string option"

definition dump_exclude_none :: "DemoLoginResponseDto \<Rightarrow> pydict" where
  "dump_exclude_none dto =
     [(''authenticated'', PBool (dn_authenticated dto)),
      (''message'', PStr (dn_message dto)),
      (''request_id'', PStr (dn_request_id dto)),
      (''audit_event_id'', PStr (dn_audit_event_id dto))]
     @ entry_opt ''trace_id'' (dn_trace_id dto)"

section \<open>The endpoint\<close>

definition MAX_LOGIN_BODY_BYTES :: nat where
  "MAX_LOGIN_BODY_BYTES = 16384"

text \<open>Reading the body chunk by chunk; \<open>None\<close> once it would be too long.\<close>

fun read_body :: "string \<Rightarrow> string list \<Rightarrow> string option" where
  "read_body body [] = Some body"
| "read_body body (chunk # chunks) =
     (if length body + length chunk > MAX_LOGIN_BODY_BYTES then None
      else read_body (body @ chunk) chunks)"

record http_answer =
  ht_status :: int
  ht_content :: pydict
  ht_headers :: "(string, string) dict"

datatype log_line = LogInfo string pydict | LogError string pydict

text \<open>What the caller, the log and the current span get to see of a login.\<close>

record login_answer =
  la_response :: http_answer
  la_log :: "log_line list"
  la_attributes :: pydict

text \<open>What the handler reads from its surroundings: two fresh ids, the clock, the current span.\<close>

record login_env =
  le_request_id :: string
  le_event_id :: string
  le_now_ns :: int
  le_span :: SpanContext
  le_recording :: bool

text \<open>\<open>set_span_attributes\<close>: a span that records takes the attributes with a scalar value.\<close>

fun scalar :: "pyval \<Rightarrow> bool" where
  "scalar (PStr t) = True"
| "scalar (PBool b) = True"
| "scalar (PInt i) = True"
| "scalar (PFloat f) = True"
| "scalar _ = False"

definition set_span_attributes :: "bool \<Rightarrow> pydict \<Rightarrow> pydict" where
  "set_span_attributes recording attributes =
     (if \<not> recording then [] else filter (\<lambda>(name, value). scalar value) attributes)"

definition audit_unavailable :: "AuditContext \<Rightarrow> login_answer" where
  "audit_unavailable ctx =
     \<lparr> la_response = \<lparr> ht_status = 503, ht_content = [(''detail'', PStr ''Audit emission unavailable'')],
                       ht_headers = [] \<rparr>,
       la_log = [LogError ''audit.stdout.failed''
                   [(''request_id'', PStr (ac_request_id ctx)), (''trace_id'', of_opt_str (ac_trace_id ctx))]],
       la_attributes = [] \<rparr>"

definition login_response :: "AuditContext \<Rightarrow> AuthenticationEvent \<Rightarrow> DemoLoginResponseDto" where
  "login_response ctx event =
     \<lparr> dn_authenticated = authenticated event,
       dn_message = (if authenticated event then ''Demo credentials accepted'' else ''Invalid credentials''),
       dn_request_id = ac_request_id ctx,
       dn_audit_event_id = ev_uid event,
       dn_trace_id = ac_trace_id ctx \<rparr>"

definition login_checked :: "bool \<Rightarrow> bool \<Rightarrow> AuditContext \<Rightarrow> AuthenticationEvent \<Rightarrow> login_answer" where
  "login_checked recording payload_missing ctx event =
     (let status_code = (if payload_missing then 400 else if authenticated event then 200 else 401) in
      \<lparr> la_response =
          \<lparr> ht_status = status_code,
            ht_content = dump_exclude_none (login_response ctx event),
            ht_headers =
              [(''X-Request-Id'', ac_request_id ctx), (''X-Correlation-Id'', ac_correlation_id ctx),
               (''Cache-Control'', ''no-store'')] \<rparr>,
        la_log =
          [LogInfo ''demo.auth.checked''
             [(''authenticated'', PBool (authenticated event)),
              (''audit_event_id'', PStr (ev_uid event)),
              (''request_id'', PStr (ac_request_id ctx)),
              (''correlation_id'', PStr (ac_correlation_id ctx)),
              (''trace_id'', of_opt_str (ac_trace_id ctx)),
              (''span_id'', of_opt_str (ac_span_id ctx)),
              (''aws_alb_trace_id'', of_opt_str (ac_aws_alb_trace_id ctx)),
              (''service_name'', PStr (so_service_name (ev_source event))),
              (''service_version'', PStr (so_service_version (ev_source event))),
              (''environment'', PStr (so_environment (ev_source event))),
              (''status_code'', PInt status_code)]],
        la_attributes =
          set_span_attributes recording
            [(''audit.event_id'', PStr (ev_uid event)),
             (''audit.outcome'', PStr (outcome_value (ev_outcome event))),
             (''app.request_id'', PStr (ac_request_id ctx)),
             (''app.correlation_id'', PStr (ac_correlation_id ctx)),
             (''aws.alb.trace_id'', of_opt_str (ac_aws_alb_trace_id ctx))] \<rparr>)"

definition demo_login ::
    "'s DemoAuthenticationService \<Rightarrow> (string \<Rightarrow> pyval option) \<Rightarrow> login_env \<Rightarrow> headers \<Rightarrow> string list \<Rightarrow>
     ('s, login_answer) prog" where
  "demo_login service parse env headers chunks =
     bindM (liftE (audit_context_from_headers (le_request_id env) (le_span env) headers
                     ''/demo/auth/login'' ''demo_login'')) (\<lambda>ctx.
     let payload = Option.bind (read_body [] chunks) (model_validate_json parse);
         attempt =
           (case payload of
              None \<Rightarrow> audit_record service (le_event_id env) (le_now_ns env) MALFORMED_CREDENTIALS ctx
            | Some dto \<Rightarrow> check_credentials service (le_event_id env) (le_now_ns env)
                           (dl_username dto) (dl_password dto) ctx) in
     bindM (try_except (bindM attempt (\<lambda>event. ret (Some event)))
              (\<lambda>e. case e of OSError m \<Rightarrow> ret None | _ \<Rightarrow> throw e)) (\<lambda>checked.
     ret (case checked of
            None \<Rightarrow> audit_unavailable ctx
          | Some event \<Rightarrow> login_checked (le_recording env) (payload = None) ctx event)))"

section \<open>The login over any sink\<close>

definition login_payload :: "(string \<Rightarrow> pyval option) \<Rightarrow> string list \<Rightarrow> DemoLoginRequestDto option" where
  "login_payload parse chunks = Option.bind (read_body [] chunks) (model_validate_json parse)"

definition login_outcome ::
    "'s DemoAuthenticationService \<Rightarrow> DemoLoginRequestDto option \<Rightarrow> AuthenticationOutcome" where
  "login_outcome service payload =
     (case payload of
        None \<Rightarrow> MALFORMED_CREDENTIALS
      | Some dto \<Rightarrow> check_outcome service (dl_username dto) (dl_password dto))"

definition env_documented :: "login_env \<Rightarrow> bool" where
  "env_documented env \<longleftrightarrow>
     EVENT_ID (le_request_id env) \<and> EVENT_ID (le_event_id env) \<and> 0 \<le> le_now_ns env \<and>
     span_documented (le_span env)"

definition login_event ::
    "'s DemoAuthenticationService \<Rightarrow> login_env \<Rightarrow> AuditContext \<Rightarrow> AuthenticationOutcome \<Rightarrow> AuthenticationEvent" where
  "login_event service env ctx outcome =
     \<lparr> ev_uid = le_event_id env, ev_time_ms = le_now_ns env div 1000000, ev_source = au_source service,
       ev_context = ctx, ev_outcome = outcome \<rparr>"

definition login_context :: "login_env \<Rightarrow> headers \<Rightarrow> exn + AuditContext" where
  "login_context env headers =
     audit_context_from_headers (le_request_id env) (le_span env) headers ''/demo/auth/login'' ''demo_login''"

text \<open>The endpoint as one publication of one event, whose outcome is the verdict on the body.\<close>

lemma demo_login_publishes:
  "demo_login service parse env headers chunks =
     bindM (liftE (login_context env headers)) (\<lambda>ctx.
     let payload = login_payload parse chunks in
     bindM (try_except
              (bindM (audit_record service (le_event_id env) (le_now_ns env) (login_outcome service payload) ctx)
                 (\<lambda>event. ret (Some event)))
              (\<lambda>e. case e of OSError m \<Rightarrow> ret None | _ \<Rightarrow> throw e)) (\<lambda>checked.
     ret (case checked of
            None \<Rightarrow> audit_unavailable ctx
          | Some event \<Rightarrow> login_checked (le_recording env) (payload = None) ctx event)))"
  by (auto simp: demo_login_def login_context_def login_payload_def login_outcome_def check_credentials_def
      Let_def split: option.split intro!: arg_cong2 [where f = bindM] ext)

lemma login_route_safe: "SAFE_ID ''/demo/auth/login''" "startswith ''/demo/auth/login'' ''/''"
  by code_simp+

lemma audit_record_is_publish:
  assumes "env_documented env"
  shows "audit_record service (le_event_id env) (le_now_ns env) outcome ctx =
    bindM (sink_publish (au_sink service) (login_event service env ctx outcome))
      (\<lambda>_. ret (login_event service env ctx outcome))"
  using assms
  by (simp add: audit_record_def new_event_def env_documented_def login_event_def liftE_def bindM_def
      pos_imp_zdiv_neg_iff)

context audit_sink
begin

lemma login_spec:
  assumes "env_documented env" and "au_sink service = sink" and "login_context env headers = Inr ctx"
    and payload_def: "payload = login_payload parse chunks"
    and event_def: "event = login_event service env ctx (login_outcome service payload)"
  shows "valid (\<lambda>s. s = before) (demo_login service parse env headers chunks)
    (\<lambda>a s. a = audit_unavailable ctx \<and> attempted before event s \<or>
           a = login_checked (le_recording env) (payload = None) ctx event \<and> recorded before event s)
    (\<lambda>e s. False)"
proof -
  let ?publish = "audit_record service (le_event_id env) (le_now_ns env) (login_outcome service payload) ctx"
  let ?attempt = "try_except (bindM ?publish (\<lambda>event. ret (Some event)))
                    (\<lambda>e. case e of OSError m \<Rightarrow> ret None | _ \<Rightarrow> throw e)"
  have rec: "?publish = bindM (sink_publish sink event) (\<lambda>_. ret event)"
    unfolding event_def audit_record_is_publish [OF assms(1)] assms(2) ..
  have "valid (\<lambda>s. s = before) ?attempt
      (\<lambda>r s. r = None \<and> attempted before event s \<or> r = Some event \<and> recorded before event s) (\<lambda>e s. False)"
  proof (rule validI)
    fix s
    assume s: "s = before"
    obtain r s' where p: "sink_publish sink event s = (r, s')" by fastforce
    show "case ?attempt s of
        (Inr r, s') \<Rightarrow> r = None \<and> attempted before event s' \<or> r = Some event \<and> recorded before event s'
      | (Inl e, s') \<Rightarrow> False"
    proof (cases r)
      case (Inl x)
      then have fails: "(\<exists>m. x = OSError m) \<and> attempted before event s'" using publish_fails p s by simp
      then obtain m where "x = OSError m" by blast
      then show ?thesis using p Inl fails by (simp add: rec try_except_def bindM_def ret_def)
    next
      case (Inr u)
      then show ?thesis using p s published [of event before u s']
        by (simp add: rec try_except_def bindM_def ret_def)
    qed
  qed
  then show ?thesis
    unfolding demo_login_publishes assms(3) payload_def [symmetric] Let_def
    by (auto simp: valid_def bindM_def liftE_def ret_def split: prod.splits sum.splits option.splits)
qed

end

section \<open>Verdicts\<close>

lemma check_outcome_cases: "check_outcome service u p \<in> {MISSING_CREDENTIALS, AUTHENTICATED, INVALID_CREDENTIALS}"
  by (simp add: check_outcome_def Let_def)

lemma malformed_iff: "login_outcome service payload = MALFORMED_CREDENTIALS \<longleftrightarrow> payload = None"
proof (cases payload)
  case (Some dto)
  then show ?thesis using check_outcome_cases [of service "dl_username dto" "dl_password dto"]
    by (auto simp: login_outcome_def)
qed (simp add: login_outcome_def)

definition outcome_status :: "AuthenticationOutcome \<Rightarrow> int" where
  "outcome_status outcome =
     (if outcome = MALFORMED_CREDENTIALS then 400 else if outcome = AUTHENTICATED then 200 else 401)"

lemma login_checked_status:
  "ht_status (la_response (login_checked recording (payload = None) ctx
      (login_event service env ctx (login_outcome service payload)))) =
     outcome_status (login_outcome service payload)"
  using malformed_iff [of service payload]
  by (simp add: login_checked_def Let_def outcome_status_def authenticated_def login_event_def)

lemma login_context_succeeds:
  "env_documented env \<Longrightarrow> \<exists>ctx. login_context env headers = Inr ctx"
  using audit_context_succeeds(1) [OF _ _ login_route_safe, of "le_request_id env" "le_span env" "''demo_login''" headers]
  by (simp add: login_context_def env_documented_def)

text \<open>Who is authenticated by a service built for some credentials.\<close>

lemma authenticated_credentials:
  assumes "check_outcome (new_authentication_service username password source sink) u p = AUTHENTICATED"
  obtains u' p' where "u = Some u'" "p = Some p'"
    and "username = u' \<or> sha256_collision (encode username) (encode u')"
    and "password = p' \<or> sha256_collision (encode password) (encode p')"
proof -
  from assms obtain u' p' where "u = Some u'" "p = Some p'" "u' \<noteq> []" "p' \<noteq> []"
      "compare_digest (sha256 (encode username)) (sha256 (encode u'))"
      "compare_digest (sha256 (encode password)) (sha256 (encode p'))"
    by (cases u; cases p)
       (auto simp: check_outcome_def new_authentication_service_def falsy_def Let_def split: if_splits)
  then show thesis using that same_digest by blast
qed

lemma own_credentials_authenticate:
  assumes "username \<noteq> []" and "password \<noteq> []"
  shows "check_outcome (new_authentication_service username password source sink)
    (Some username) (Some password) = AUTHENTICATED"
  using assms
  by (simp add: check_outcome_def new_authentication_service_def falsy_def compare_digest_def Let_def)

lemma no_faults_published:
  "ts_writes s = [] \<Longrightarrow> ts_flushes s = [] \<Longrightarrow>
     sink_publish (StdoutAuditSink float_repr) e s =
       (Inr (), s\<lparr> ts_text := ts_text s @ audit_line float_repr e \<rparr>)"
  by (simp add: StdoutAuditSink_def publish_is_write_line write_line_def stream_write_def stream_flush_def
      try_except_def bindM_def)

lemma login_without_faults:
  assumes "env_documented env" and "au_sink service = StdoutAuditSink float_repr"
    and "login_context env headers = Inr ctx" and "ts_writes s = []" and "ts_flushes s = []"
  shows "fst (demo_login service parse env headers chunks s) =
    Inr (login_checked (le_recording env) (login_payload parse chunks = None) ctx
           (login_event service env ctx (login_outcome service (login_payload parse chunks))))"
  unfolding demo_login_publishes audit_record_is_publish [OF assms(1)] assms(2,3)
  by (simp add: bindM_def liftE_def try_except_def ret_def no_faults_published assms(4,5) Let_def)

text \<open>The two ways a login over standard output can end.\<close>

lemma login_ends:
  assumes "env_documented env" and "au_sink service = StdoutAuditSink float_repr"
    and "login_context env headers = Inr ctx" and "payload = login_payload parse chunks"
    and "event = login_event service env ctx (login_outcome service payload)"
  obtains s' where "demo_login service parse env headers chunks s = (Inr (audit_unavailable ctx), s')"
      and "wrote_part float_repr s event s'" and "\<not> (ts_writes s = [] \<and> ts_flushes s = [])"
    | s' where "demo_login service parse env headers chunks s =
        (Inr (login_checked (le_recording env) (payload = None) ctx event), s')"
      and "wrote float_repr s event s'"
proof -
  obtain r s' where run: "demo_login service parse env headers chunks s = (r, s')" by fastforce
  note spec = validE [OF stdout.login_spec [OF assms(1-3) assms(4,5), where before = s] refl, unfolded run]
  then obtain a where r: "r = Inr a" by (cases r) auto
  have "ht_status (la_response (audit_unavailable ctx)) = 503" by (simp add: audit_unavailable_def)
  moreover have "ht_status (la_response (login_checked (le_recording env) (payload = None) ctx event)) \<noteq> 503"
    unfolding assms(5) login_checked_status by (simp add: outcome_status_def)
  ultimately have unequal: "audit_unavailable ctx \<noteq> login_checked (le_recording env) (payload = None) ctx event"
    by metis
  have "ts_writes s = [] \<and> ts_flushes s = [] \<Longrightarrow>
      a = login_checked (le_recording env) (payload = None) ctx event"
    using login_without_faults [OF assms(1-3), of s parse chunks] run r assms(4,5) by simp
  then show thesis using that run r spec unequal by auto
qed

section \<open>A concrete login\<close>

definition example_login_env :: login_env where
  "example_login_env =
     \<lparr> le_request_id = example_uuid, le_event_id = example_uuid, le_now_ns = 1700000000000000000,
       le_span = example_span, le_recording = True \<rparr>"

definition example_source :: AuditSource where
  "example_source = \<lparr> so_service_name = ''movie-reservation-agent'', so_service_version = ''unknown'',
                      so_environment = ''local'' \<rparr>"

definition no_float_repr :: "rat \<Rightarrow> string" where
  "no_float_repr q = []"

definition example_service :: "string \<Rightarrow> string \<Rightarrow> text_stream DemoAuthenticationService" where
  "example_service username password =
     new_authentication_service username password example_source (StdoutAuditSink no_float_repr)"

definition working_stream :: text_stream where
  "working_stream = \<lparr> ts_text = [], ts_writes = [], ts_flushes = [] \<rparr>"

text \<open>A parser that reads one fixed body.\<close>

definition parses_to :: "pydict \<Rightarrow> string \<Rightarrow> pyval option" where
  "parses_to d body = (if body = ''body'' then Some (PDict d) else None)"

definition credentials_body :: "string \<Rightarrow> string \<Rightarrow> pydict" where
  "credentials_body username password = [(''username'', PStr username), (''password'', PStr password)]"

lemma example_login_env_ok: "env_documented example_login_env"
  by (simp add: env_documented_def example_login_env_def example_uuid_ok example_span_ok)

lemma example_payload_of:
  "length username \<le> 256 \<Longrightarrow> length password \<le> 1024 \<Longrightarrow>
     login_payload (parses_to (credentials_body username password)) [''bo'', ''dy''] =
       Some \<lparr> dl_username = Some username, dl_password = Some password \<rparr>"
  by (simp add: login_payload_def model_validate_json_def parses_to_def credentials_body_def
      validate_login_def text_field_def MAX_LOGIN_BODY_BYTES_def)


section \<open>Properties\<close>



text \<open>
  C22 The caller's credentials and the configured ones leave no trace: neither the answer, nor the
  log, nor the span, nor what is published depends on them beyond the verdict. Two requests with
  the same verdict, against services that differ only in their secrets, are indistinguishable.
\<close>

theorem login_reveals_only_the_verdict:
  assumes "au_source service1 = au_source service2" and "au_sink service1 = au_sink service2"
    and "login_outcome service1 (login_payload parse1 chunks1) =
         login_outcome service2 (login_payload parse2 chunks2)"
  shows "demo_login service1 parse1 env headers chunks1 = demo_login service2 parse2 env headers chunks2"
proof -
  have eq: "(login_payload parse1 chunks1 = None) = (login_payload parse2 chunks2 = None)"
    using assms(3) malformed_iff by metis
  show ?thesis
    unfolding demo_login_publishes audit_record_def Let_def assms eq ..
qed

theorem login_reveals_only_the_verdict_witness:
  "demo_login (example_service ''alice'' ''secret'') (parses_to (credentials_body ''alice'' ''secret''))
     example_login_env [] [''bo'', ''dy''] working_stream =
   demo_login (example_service ''bob'' ''hidden'') (parses_to (credentials_body ''bob'' ''hidden''))
     example_login_env [] [''bo'', ''dy''] working_stream"
proof -
  have same: "au_source (example_service ''alice'' ''secret'') = au_source (example_service ''bob'' ''hidden'')"
    "au_sink (example_service ''alice'' ''secret'') = au_sink (example_service ''bob'' ''hidden'')"
    by (simp_all add: example_service_def new_authentication_service_def)
  have "login_outcome (example_service ''alice'' ''secret'')
        (login_payload (parses_to (credentials_body ''alice'' ''secret'')) [''bo'', ''dy'']) =
      login_outcome (example_service ''bob'' ''hidden'')
        (login_payload (parses_to (credentials_body ''bob'' ''hidden'')) [''bo'', ''dy''])"
    by (simp add: example_payload_of login_outcome_def example_service_def own_credentials_authenticate)
  from login_reveals_only_the_verdict [OF same this] show ?thesis by (rule fun_cong)
qed

text \<open>The status of a login that returned is the one of its verdict, or 503.\<close>

lemma login_status:
  assumes "env_documented env" and "au_sink service = StdoutAuditSink float_repr"
    and "demo_login service parse env headers chunks s = (Inr a, s')"
  shows "ht_status (la_response a) \<in> {503, outcome_status (login_outcome service (login_payload parse chunks))}"
proof -
  obtain ctx where ctx: "login_context env headers = Inr ctx" using login_context_succeeds [OF assms(1)] by blast
  have "a = audit_unavailable ctx \<or> a = login_checked (le_recording env) (login_payload parse chunks = None) ctx
           (login_event service env ctx (login_outcome service (login_payload parse chunks)))"
    by (rule login_ends [OF assms(1,2) ctx refl refl, where s = s and parse = parse and chunks = chunks])
       (use assms(3) in simp_all)
  then show ?thesis
    using login_checked_status [of "le_recording env" "login_payload parse chunks" ctx service env]
    by (auto simp: audit_unavailable_def)
qed

lemma authenticated_verdict:
  assumes "outcome_status (login_outcome (new_authentication_service username password source sink) payload) = 200"
  shows "\<exists>dto u p. payload = Some dto \<and> dl_username dto = Some u \<and> dl_password dto = Some p \<and>
          (username = u \<or> sha256_collision (encode username) (encode u)) \<and>
          (password = p \<or> sha256_collision (encode password) (encode p))"
proof -
  have "login_outcome (new_authentication_service username password source sink) payload = AUTHENTICATED"
    using assms by (auto simp: outcome_status_def split: if_splits)
  then obtain dto where "payload = Some dto"
      "check_outcome (new_authentication_service username password source sink) (dl_username dto) (dl_password dto) = AUTHENTICATED"
    by (auto simp: login_outcome_def split: option.splits)
  then show ?thesis by (auto elim: authenticated_credentials)
qed

lemma own_verdict:
  assumes "read_body [] chunks = Some body"
    and "parse body = Some (PDict [(''username'', PStr username), (''password'', PStr password)])"
    and "username \<noteq> []" "password \<noteq> []" "length username \<le> 256" "length password \<le> 1024"
  shows "outcome_status (login_outcome (new_authentication_service username password source sink)
           (login_payload parse chunks)) = 200"
proof -
  have "login_payload parse chunks = Some \<lparr> dl_username = Some username, dl_password = Some password \<rparr>"
    using assms by (simp add: login_payload_def model_validate_json_def validate_login_def text_field_def)
  then show ?thesis
    using own_credentials_authenticate [OF assms(3,4)] by (simp add: login_outcome_def outcome_status_def)
qed

text \<open>
  C20 Only the configured credentials log in, and they do: with a service made from accepted
  settings, status 200 means that the submitted user name and password are the configured ones (or
  collide with them under SHA-256), and a body with exactly the configured ones is within the
  limits of the request and gets 200, or 503 when the event cannot be written.
\<close>

theorem login_accepts_the_configured_credentials:
  assumes "env_documented env" and "require_explicit_credentials st = Inr st"
    and "demo_authentication_service st version environment (StdoutAuditSink float_repr) = Inr (Some service)"
    and "demo_login service parse env headers chunks s = (Inr a, s')"
  shows "\<exists>username password. da_username st = Some username \<and> da_password st = Some password \<and>
    (ht_status (la_response a) = 200 \<longrightarrow>
       (\<exists>dto u p. login_payload parse chunks = Some dto \<and> dl_username dto = Some u \<and> dl_password dto = Some p \<and>
          (username = u \<or> sha256_collision (encode username) (encode u)) \<and>
          (password = p \<or> sha256_collision (encode password) (encode p)))) \<and>
    (\<forall>body. read_body [] chunks = Some body \<and>
        parse body = Some (PDict [(''username'', PStr username), (''password'', PStr password)]) \<longrightarrow>
       ht_status (la_response a) \<in> {200, 503})"
proof -
  from assms(3) have enabled: "da_enabled st"
    by (simp add: demo_authentication_service_def split: if_splits)
  with assms(2) have ok: "explicit_secret (da_username st) 256" "explicit_secret (da_password st) 1024"
    by (simp_all add: require_explicit_credentials_def split: if_splits)
  then obtain username password where secrets: "da_username st = Some username" "da_password st = Some password"
      "length username \<le> 256" "length password \<le> 1024" "strip username \<noteq> []" "strip password \<noteq> []"
    by (auto simp: explicit_secret_def split: option.splits)
  then have nonempty: "username \<noteq> []" "password \<noteq> []" by (auto simp: strip_def)
  obtain source where service: "service = new_authentication_service username password source (StdoutAuditSink float_repr)"
    using assms(3) enabled secrets(1,2)
    by (auto simp: demo_authentication_service_def map_sum_def split: sum.splits)
  have status: "ht_status (la_response a) \<in> {503, outcome_status (login_outcome service (login_payload parse chunks))}"
    by (rule login_status [OF assms(1) _ assms(4)]) (simp add: service new_authentication_service_def)
  show ?thesis
    using secrets nonempty status authenticated_verdict own_verdict unfolding service by fastforce
qed

definition example_auth_settings :: DemoAuthSettings where
  "example_auth_settings =
     \<lparr> da_enabled = True, da_username = Some ''alice'', da_password = Some ''secret'' \<rparr>"

theorem login_accepts_the_configured_credentials_witness:
  "\<exists>a. fst (demo_login (example_service ''alice'' ''secret'')
             (parses_to (credentials_body ''alice'' ''secret'')) example_login_env [] [''bo'', ''dy'']
             working_stream) = Inr a \<and>
       ht_status (la_response a) \<in> {200, 503}"
proof -
  have ok: "require_explicit_credentials example_auth_settings = Inr example_auth_settings"
    by code_simp
  have "new_source ''movie-reservation-agent'' ''unknown'' ''local'' = Inr example_source"
    by code_simp
  then have service: "demo_authentication_service example_auth_settings None None (StdoutAuditSink no_float_repr) =
      Inr (Some (example_service ''alice'' ''secret''))"
    by (simp add: demo_authentication_service_def example_auth_settings_def example_service_def)
  have sink: "au_sink (example_service ''alice'' ''secret'') = StdoutAuditSink no_float_repr"
    by (simp add: example_service_def new_authentication_service_def)
  obtain ctx where ctx: "login_context example_login_env [] = Inr ctx"
    using login_context_succeeds [OF example_login_env_ok] by blast
  obtain a s' where run: "demo_login (example_service ''alice'' ''secret'')
      (parses_to (credentials_body ''alice'' ''secret'')) example_login_env [] [''bo'', ''dy''] working_stream = (Inr a, s')"
    using login_without_faults [OF example_login_env_ok sink ctx, of working_stream
        "parses_to (credentials_body ''alice'' ''secret'')" "[''bo'', ''dy'']"]
    by (auto simp: working_stream_def prod_eq_iff)
  have "read_body [] [''bo'', ''dy''] = Some ''body''" by (simp add: MAX_LOGIN_BODY_BYTES_def)
  then have "ht_status (la_response a) \<in> {200, 503}"
    using login_accepts_the_configured_credentials [OF example_login_env_ok ok service run]
    by (simp add: example_auth_settings_def parses_to_def credentials_body_def)
  then show ?thesis using run by simp
qed

end
