(* ===== verification/ApiDocs.thy ===== *)
theory ApiDocs
  imports AgentApi ThrottleApi DemoApi DemoLogin
begin

text \<open>
  What the decorators of the endpoints promise the readers of the generated documentation
  (\<open>responses=\<close>, \<open>response_model=\<close> and the examples in \<open>api/http/v1/routes\<close>), and whether the endpoints
  keep it. The framework itself adds the status 200, and 422 for requests it cannot parse.
\<close>

section \<open>Documented operations\<close>

record documented_response =
  do_status :: int
  do_description :: "string option"
  do_examples :: "pyval list"

record operation_docs =
  op_summary :: string
  op_description :: "string option"
  op_response_model :: string
  op_responses :: "documented_response list"

definition documented_statuses :: "operation_docs \<Rightarrow> int set" where
  "documented_statuses docs = insert 200 (set (map do_status (op_responses docs)))"

definition examples_of :: "operation_docs \<Rightarrow> int \<Rightarrow> pyval list" where
  "examples_of docs code = concat (map do_examples (filter (\<lambda>r. do_status r = code) (op_responses docs)))"

definition line_break :: string where
  "line_break = [CHR 0x0A]"

definition paragraph_break :: string where
  "paragraph_break = line_break @ line_break"

definition documented_run_id :: uuid where
  "documented_run_id = ''123e4567-e89b-12d3-a456-426614174000''"

definition not_found_example :: pyval where
  "not_found_example = PDict [(''detail'', PStr (''Run '' @ documented_run_id @ '' not found''))]"

definition create_agent_run_docs :: operation_docs where
  "create_agent_run_docs =
     \<lparr> op_summary = ''Create an agent run'',
       op_description = Some ''Creates a new agent run to execute the provided prompt.'',
       op_response_model = ''CreatedRunDto'', op_responses = [] \<rparr>"

definition get_agent_run_docs :: operation_docs where
  "get_agent_run_docs =
     \<lparr> op_summary = ''Get run state'',
       op_description = Some
         (''Retrieves the complete state of an agent run'' @
          ''Possible status values: CREATED, ENQUEUED, RUNNING, SUCCEEDED, FAILED, CANCELLED, TIMED_OUT, RETRYING. '' @
          ''Returns 404 if the run is not found.''),
       op_response_model = ''RunDto'',
       op_responses =
         [\<lparr> do_status = 200, do_description = Some ''Run state retrieved successfully'',
            do_examples =
              [PDict [(''id'', PStr documented_run_id), (''status'', PStr ''RUNNING''), (''result'', PNone),
                      (''error'', PNone), (''cancel_requested'', PBool False)]] \<rparr>,
          \<lparr> do_status = 404, do_description = Some ''Run not found'', do_examples = [not_found_example] \<rparr>] \<rparr>"

text \<open>The statuses that the description of the operation names.\<close>

definition documented_run_statuses :: "string list" where
  "documented_run_statuses =
     [''CREATED'', ''ENQUEUED'', ''RUNNING'', ''SUCCEEDED'', ''FAILED'', ''CANCELLED'', ''TIMED_OUT'', ''RETRYING'']"

definition cancel_agent_run_docs :: operation_docs where
  "cancel_agent_run_docs =
     \<lparr> op_summary = ''Request run cancellation'',
       op_description = Some
         (''Requests cancellation of a run. This sets the cancellation intent flag. '' @
          ''If a worker is executing the run, it will discover the cancellation at the next '' @
          ''checkpoint and exit cooperatively.'' @ paragraph_break @
          ''Important: Termination is not immediate. There are two sources of delay:'' @ line_break @
          ''1. Detection delay: Up to the heartbeat interval (default: 5 seconds) before '' @
          ''the worker detects the cancellation signal'' @ line_break @
          ''2. Checkpoint delay: The worker will complete the current step/operation '' @
          ''before stopping execution'' @ paragraph_break @
          ''This checkpoint-based approach ensures operations complete atomically and '' @
          ''prevents partial state or data corruption. Execution stops gracefully after '' @
          ''finishing the next checkpoint, not in the middle of an operation.''),
       op_response_model = ''CancelRunResponseDto'',
       op_responses =
         [\<lparr> do_status = 200, do_description = Some ''Cancellation requested or run already terminal'',
            do_examples =
              [PDict [(''run_id'', PStr documented_run_id), (''status'', PStr ''cancel_requested''),
                      (''message'', PStr ''Run cancellation requested'')],
               PDict [(''run_id'', PStr documented_run_id), (''status'', PStr ''already_terminal''),
                      (''message'', PStr ''Run already in terminal state'')]] \<rparr>,
          \<lparr> do_status = 404, do_description = Some ''Run not found'', do_examples = [] \<rparr>] \<rparr>"

definition get_agent_run_events_docs :: operation_docs where
  "get_agent_run_events_docs =
     \<lparr> op_summary = ''List run events'',
       op_description = Some
         (''Retrieves the event logs for a run, optionally filtered by sequence number. '' @
          ''Events are returned in chronological order (by sequence number). '' @
          ''Use the '' @ [CHR 0x27] @ ''after'' @ [CHR 0x27] @ '' query parameter to paginate through events.'' @
          paragraph_break @
          ''Returns 404 if the run is not found. Returns 400 if event log is not available.''),
       op_response_model = ''list[RunEventDto]'',
       op_responses =
         [\<lparr> do_status = 200, do_description = Some ''Run events retrieved successfully'',
            do_examples =
              [PList
                 [PDict [(''sequence_nr'', PInt 1), (''event_type'', PStr ''created''),
                         (''payload'', PDict [(''user_id'', PStr ''user123'')]),
                         (''timestamp_utc'', PStr ''2026-01-09T12:34:56Z'')],
                  PDict [(''sequence_nr'', PInt 2), (''event_type'', PStr ''enqueued''),
                         (''payload'', PDict []), (''timestamp_utc'', PStr ''2026-01-09T12:34:57Z'')]]] \<rparr>,
          \<lparr> do_status = 400, do_description = Some ''Event log not available'',
            do_examples = [PDict [(''detail'', PStr ''Event log is not available'')]] \<rparr>,
          \<lparr> do_status = 404, do_description = Some ''Run not found'', do_examples = [not_found_example] \<rparr>] \<rparr>"

definition throttle_steps_docs :: operation_docs where
  "throttle_steps_docs =
     \<lparr> op_summary = ''Compute throttle steps for first player/enemy unit'',
       op_description = None,
       op_response_model = ''list[UnitGoalDto]'', op_responses = [] \<rparr>"

definition reserve_recommended_seat_docs :: operation_docs where
  "reserve_recommended_seat_docs =
     \<lparr> op_summary = ''Reserve a seat for a recommended movie'',
       op_description = None,
       op_response_model = ''DemoReservationResponseDto'',
       op_responses =
         [\<lparr> do_status = 502, do_description = None, do_examples = [] \<rparr>,
          \<lparr> do_status = 504, do_description = None, do_examples = [] \<rparr>] \<rparr>"

definition demo_login_docs :: operation_docs where
  "demo_login_docs =
     \<lparr> op_summary = ''Check demonstration credentials; does not create a session'',
       op_description = None,
       op_response_model = ''DemoLoginResponseDto'',
       op_responses =
         [\<lparr> do_status = 400, do_description = Some ''Malformed or oversized credentials'', do_examples = [] \<rparr>,
          \<lparr> do_status = 401, do_description = Some ''Missing or incorrect credentials'', do_examples = [] \<rparr>,
          \<lparr> do_status = 503, do_description = Some ''Audit stdout emission failed'', do_examples = [] \<rparr>] \<rparr>"

section \<open>What the endpoints answer\<close>

text \<open>The JSON bodies of the transfer objects; \<open>iso_text\<close> is the text of a time.\<close>

definition dump_run :: "RunDto \<Rightarrow> pyval" where
  "dump_run dto =
     PDict [(''id'', PStr (rd_id dto)), (''status'', PStr (rd_status dto)),
            (''result'', case rd_result dto of None \<Rightarrow> PNone | Some d \<Rightarrow> PDict d),
            (''error'', case rd_error dto of None \<Rightarrow> PNone | Some e \<Rightarrow> PStr e),
            (''cancel_requested'', PBool (rd_cancel_requested dto))]"

definition dump_cancel :: "CancelRunResponseDto \<Rightarrow> pyval" where
  "dump_cancel dto =
     PDict [(''run_id'', PStr (cc_run_id dto)), (''status'', PStr (cc_status dto)), (''message'', PStr (cc_message dto))]"

definition dump_event :: "(unix_ts \<Rightarrow> string) \<Rightarrow> RunEventDto \<Rightarrow> pyval" where
  "dump_event iso_text dto =
     PDict [(''sequence_nr'', PInt (ed_sequence_nr dto)), (''event_type'', PStr (ed_event_type dto)),
            (''payload'', PDict (ed_payload dto)), (''timestamp_utc'', PStr (iso_text (ed_timestamp_utc dto)))]"

text \<open>Status and body of a response; an exception that a route lets through is answered with 500.\<close>

definition status_of :: "exn + 'a response \<Rightarrow> int" where
  "status_of answer =
     (case answer of Inl e \<Rightarrow> 500 | Inr (Ok200 dto) \<Rightarrow> 200 | Inr (response.HTTPException code detail) \<Rightarrow> code)"

definition body_of :: "('a \<Rightarrow> pyval) \<Rightarrow> exn + 'a response \<Rightarrow> pyval option" where
  "body_of dump answer =
     (case answer of Inl e \<Rightarrow> None | Inr (Ok200 dto) \<Rightarrow> Some (dump dto)
      | Inr (response.HTTPException code detail) \<Rightarrow> Some (PDict [(''detail'', PStr detail)]))"

fun demo_status :: "demo_response \<Rightarrow> int" where
  "demo_status (DemoOk dto) = 200"
| "demo_status (JSONResponse code dto) = code"

fun throttle_status :: "throttle_response \<Rightarrow> int" where
  "throttle_status (ThrottleSteps goals) = 200"
| "throttle_status (throttle_response.HTTPException code detail) = code"

section \<open>Properties\<close>

lemmas docs_defs = documented_statuses_def create_agent_run_docs_def get_agent_run_docs_def
  cancel_agent_run_docs_def get_agent_run_events_docs_def throttle_steps_docs_def
  reserve_recommended_seat_docs_def demo_login_docs_def

lemma run_status_documented:
  assumes "reachable s" and "run_of s k = Some rs"
  shows "code_name (rs_status rs) \<in> set documented_run_statuses - {''TIMED_OUT'', ''RETRYING''}"
proof -
  have "rs_status rs \<notin> {TIMED_OUT, RETRYING}"
    using reachable_settled [OF assms(1)] assms(2) by (simp add: settled_def)
  then show ?thesis by (cases "rs_status rs") (auto simp: documented_run_statuses_def)
qed

text \<open>
  C40 The run endpoints answer as documented: over the in-memory runtime, in every state that store
  calls lead to, each of the four answers one of the statuses that its decorator documents and none
  lets an exception through; the status of a run is one that the description names, and never the
  documented TIMED_OUT or RETRYING, which exist only inside a lease recovery.
\<close>

theorem run_endpoints_answer_as_documented:
  assumes "reachable s" and "run_of s new_id = None"
  shows "status_of (fst (create_agent_run in_memory_service t1 t2 new_id prompt s))
           \<in> documented_statuses create_agent_run_docs \<and>
         status_of (fst (get_agent_run in_memory_service k s)) \<in> documented_statuses get_agent_run_docs \<and>
         status_of (fst (cancel_agent_run in_memory_service now k s)) \<in> documented_statuses cancel_agent_run_docs \<and>
         status_of (fst (get_agent_run_events in_memory_service k after s))
           \<in> documented_statuses get_agent_run_events_docs \<and>
         (\<forall>dto. fst (get_agent_run in_memory_service k s) = Inr (Ok200 dto) \<longrightarrow>
            rd_status dto \<in> set documented_run_statuses - {''TIMED_OUT'', ''RETRYING''})"
proof -
  note ok = reachable_ok [OF assms(1)]
  have "status_of (fst (create_agent_run in_memory_service t1 t2 new_id prompt s))
      \<in> documented_statuses create_agent_run_docs"
    using intake.create_route [OF ok assms(2), of t1 t2 prompt] by (auto simp: status_of_def documented_statuses_def)
  moreover have "status_of (fst (get_agent_run in_memory_service k s)) \<in> documented_statuses get_agent_run_docs"
    using intake.get_route [OF ok, of k] by (simp add: status_of_def docs_defs split: option.splits)
  moreover have "status_of (fst (cancel_agent_run in_memory_service now k s)) \<in> documented_statuses cancel_agent_run_docs"
    using intake.cancel_route [OF ok, of now k] by (simp add: status_of_def docs_defs split: option.splits if_splits)
  moreover have "status_of (fst (get_agent_run_events in_memory_service k after s))
      \<in> documented_statuses get_agent_run_events_docs"
    using intake.events_route [OF ok, of k after] by (simp add: status_of_def docs_defs split: option.splits)
  moreover have "rd_status dto \<in> set documented_run_statuses - {''TIMED_OUT'', ''RETRYING''}"
    if "fst (get_agent_run in_memory_service k s) = Inr (Ok200 dto)" for dto
    using that intake.get_route [OF ok, of k] run_status_documented [OF assms(1), of k]
    by (auto simp: RunV1Mapper_to_dto_def split: option.splits)
  ultimately show ?thesis by blast
qed

theorem run_endpoints_answer_as_documented_witness:
  "status_of (fst (get_agent_run in_memory_service ''r9'' example_runtime)) = 404 \<and>
   404 \<in> documented_statuses get_agent_run_docs \<and>
   status_of (fst (get_agent_run in_memory_service ''r1'' example_runtime)) \<in> documented_statuses get_agent_run_docs"
proof -
  have "run_of example_runtime ''r3'' = None" by (simp add: example_runs)
  note docs = run_endpoints_answer_as_documented [OF example_reachable this]
  have "status_of (fst (get_agent_run in_memory_service ''r9'' example_runtime)) = 404" by code_simp
  then show ?thesis using docs [where k = "''r9''"] docs [where k = "''r1''"] by auto
qed

text \<open>Reservations and logins that are answered have a documented status.\<close>

lemma demo_answers_as_documented:
  assumes "fst (reserve_recommended_seat settings (FastMcpDemoToolClient settings lib) rid wid headers tp tid payload m) =
             Inr answer"
  shows "demo_status answer \<in> documented_statuses reserve_recommended_seat_docs"
  using assms
  by (auto simp: reserve_recommended_seat_def answer_reservation_def error_response_def Let_def docs_defs
      split: prod.splits sum.splits demo_error.splits)

lemma login_answers_as_documented:
  assumes "env_documented env" and "au_sink service = StdoutAuditSink float_repr"
    and "demo_login service parse env headers chunks u = (Inr a, u')"
  shows "ht_status (la_response a) \<in> documented_statuses demo_login_docs"
  using login_status [OF assms] by (auto simp: outcome_status_def docs_defs split: if_splits)

text \<open>
  The throttle endpoint is the exception: it answers 400 for a game without player units, which its
  decorator does not document.
\<close>

theorem throttle_refusals_are_undocumented:
  "throttle_status (fst (throttle_steps (LLMPathFinderStrategy) \<lparr> gd_player_units = [], gd_enemy_units = [] \<rparr> r)) = 400 \<and>
   400 \<notin> documented_statuses throttle_steps_docs"
  by (simp add: throttle_steps_def calculate_throttle_steps_def game_state_from_dto_def first_unit_def
      liftE_def bindM_def docs_defs)

section \<open>The documented examples\<close>

text \<open>A run with the documented id, taken in and then claimed.\<close>

definition documented_calls :: "store_call list" where
  "documented_calls =
     [CallCreateRun 0 documented_run_id (service_request ''hello''), CallMarkEnqueued 1 documented_run_id]"

definition documented_runtime :: "store_call list \<Rightarrow> runtime" where
  "documented_runtime cs =
     (case run_calls (documented_calls @ cs) create_default_in_memory_runtime of
        Some s \<Rightarrow> s | None \<Rightarrow> create_default_in_memory_runtime)"

abbreviation run_body :: "runtime \<Rightarrow> uuid \<Rightarrow> pyval option" where
  "run_body s k \<equiv> body_of dump_run (fst (get_agent_run in_memory_service k s))"

abbreviation cancel_body :: "unix_ts \<Rightarrow> runtime \<Rightarrow> uuid \<Rightarrow> pyval option" where
  "cancel_body now s k \<equiv> body_of dump_cancel (fst (cancel_agent_run in_memory_service now k s))"

text \<open>
  The documented examples are real answers: an unknown id gets the documented 404 body, a run that is
  taken in and claimed the documented state, a live run the documented confirmation of its
  cancellation. The documented answer for a terminal run is not the one it gets: its message differs.
\<close>

theorem documented_examples_are_answers:
  "run_body create_default_in_memory_runtime documented_run_id \<in> Some ` set (examples_of get_agent_run_docs 404) \<and>
   run_body (documented_runtime [CallClaimRun 2 ''wA'']) documented_run_id \<in> Some ` set (examples_of get_agent_run_docs 200) \<and>
   cancel_body 3 (documented_runtime []) documented_run_id \<in> Some ` set (examples_of cancel_agent_run_docs 200) \<and>
   cancel_body 3 (documented_runtime [CallMarkCancelled 2 documented_run_id]) documented_run_id
     \<notin> Some ` set (examples_of cancel_agent_run_docs 200)"
  by code_simp

text \<open>
  The documented stream of events is the one of a run that was just taken in, up to the user's id
  (which the service does not take from the request) and the times.
\<close>

fun event_outline :: "pyval \<Rightarrow> (pyval \<times> pyval \<times> string list) option" where
  "event_outline (PDict d) =
     (case pget d ''payload'' of
        PDict p \<Rightarrow> Some (pget d ''sequence_nr'', pget d ''event_type'', dict_keys p) | _ \<Rightarrow> None)"
| "event_outline _ = None"

theorem documented_events_are_answers:
  "\<exists>events. fst (get_agent_run_events in_memory_service documented_run_id None (documented_runtime [])) = Inr (Ok200 events) \<and>
     [PList (map (dump_event iso_text) events)] \<noteq> examples_of get_agent_run_events_docs 200 \<and>
     map (\<lambda>e. event_outline (dump_event iso_text e)) events =
       (case examples_of get_agent_run_events_docs 200 of [PList es] \<Rightarrow> map event_outline es | _ \<Rightarrow> [])"
proof -
  have "fst (get_agent_run_events in_memory_service documented_run_id None (documented_runtime [])) =
      Inr (Ok200
        [\<lparr> ed_sequence_nr = 1, ed_event_type = ''created'',
           ed_payload = [(''user_id'', PStr ''hardcoded_user_later_take_it_from_context'')], ed_timestamp_utc = 0 \<rparr>,
         \<lparr> ed_sequence_nr = 2, ed_event_type = ''enqueued'', ed_payload = [], ed_timestamp_utc = 1 \<rparr>])"
    by code_simp
  then show ?thesis by (simp add: examples_of_def get_agent_run_events_docs_def dump_event_def pget_def)
qed

end
