(* ===== verification/Tokens.thy ===== *)
theory Tokens
  imports Values
begin

text \<open>
  Access tokens on their way in (\<open>infrastructure/execution_context/token_extractors.py\<close>): the token of
  an HTTP request and the token of a WebSocket message, with the exceptions of the authentication
  code and the operations on JSON values that it uses.
\<close>

section \<open>Exceptions\<close>

text \<open>
  The errors of the token library by class: none of them is a subclass of another one. \<open>Raised\<close> is
  an exception of Python itself.
\<close>

datatype jose_error =
    DecodeError | InvalidClaimError | ExpiredTokenError | InvalidTokenError
  | BadSignatureError | MissingClaimError | OtherJoseError

datatype auth_exn =
    AuthenticationError string
  | PermissionError string
  | InvalidHeaderError string
  | InvalidWebsocketAuthException string
  | JoseError jose_error
  | HttpError string
  | Raised exn

text \<open>Going on with a result, unless it is an exception.\<close>

definition bind_sum :: "'e + 'a \<Rightarrow> ('a \<Rightarrow> 'e + 'b) \<Rightarrow> 'e + 'b" where
  "bind_sum r f = (case r of Inl e \<Rightarrow> Inl e | Inr x \<Rightarrow> f x)"

lemma bind_sum_simps [simp]: "bind_sum (Inl e) f = Inl e" "bind_sum (Inr x) f = f x"
  by (simp_all add: bind_sum_def)

lemma bind_sum_Inr: "bind_sum r f = Inr y \<longleftrightarrow> (\<exists>x. r = Inr x \<and> f x = Inr y)"
  by (cases r) auto

lemma or_else_Some_Nil [simp]: "or_else (Some t) [] = t"
  by (auto simp: or_else_def split: list.split)

section \<open>Operations on values\<close>

text \<open>\<open>v.get(k, default)\<close>, \<open>v[k]\<close>, \<open>v.values()\<close> and iteration for a value of any type.\<close>

fun attr_get :: "pyval \<Rightarrow> string \<Rightarrow> pyval \<Rightarrow> auth_exn + pyval" where
  "attr_get (PDict d) k dflt = Inr (pget_default d k dflt)"
| "attr_get _ k dflt = Inl (Raised (AttributeError ''get''))"

fun subscript :: "pyval \<Rightarrow> string \<Rightarrow> auth_exn + pyval" where
  "subscript (PDict d) k =
     (case map_of d k of None \<Rightarrow> Inl (Raised (KeyError k)) | Some v \<Rightarrow> Inr v)"
| "subscript _ k = Inl (Raised (TypeError k))"

fun attr_values :: "pyval \<Rightarrow> auth_exn + pyval list" where
  "attr_values (PDict d) = Inr (map snd d)"
| "attr_values _ = Inl (Raised (AttributeError ''values''))"

fun iterated :: "pyval \<Rightarrow> auth_exn + pyval list" where
  "iterated (PList vs) = Inr vs"
| "iterated (PStr t) = Inr (map (\<lambda>c. PStr [c]) t)"
| "iterated (PDict d) = Inr (map (PStr \<circ> fst) d)"
| "iterated _ = Inl (Raised (TypeError ''object is not iterable''))"

text \<open>Only immutable values can be keys of a dictionary.\<close>

fun hashable :: "pyval \<Rightarrow> bool" where
  "hashable (PList vs) = False"
| "hashable (PDict d) = False"
| "hashable _ = True"

text \<open>Keys that Python takes for equal: \<open>True\<close>, \<open>1\<close> and \<open>1.0\<close>. A NaN equals no other value.\<close>

fun key_form :: "pyval \<Rightarrow> pyval" where
  "key_form (PBool b) = PInt (if b then 1 else 0)"
| "key_form (PFloat (Fin q)) = (if of_int \<lfloor>q\<rfloor> = q then PInt \<lfloor>q\<rfloor> else PFloat (Fin q))"
| "key_form v = v"

definition same_key :: "pyval \<Rightarrow> pyval \<Rightarrow> bool" where
  "same_key v w \<longleftrightarrow> key_form v = key_form w \<and> v \<noteq> PFloat NaN"

text \<open>The last entry of a list of pairs under a key, as in a dictionary built from them.\<close>

definition last_value :: "(pyval \<times> 'a) list \<Rightarrow> pyval \<Rightarrow> 'a option" where
  "last_value entries k = map_option snd (List.find (\<lambda>(k', v). same_key k' k) (rev entries))"

text \<open>\<open>text.split()\<close>: the words between runs of whitespace.\<close>

fun words_from :: "string \<Rightarrow> string \<Rightarrow> string list" where
  "words_from word [] = (if word = [] then [] else [word])"
| "words_from word (c # cs) =
     (if is_space c then (if word = [] then words_from [] cs else word # words_from [] cs)
      else words_from (word @ [c]) cs)"

definition split_words :: "string \<Rightarrow> string list" where
  "split_words t = words_from [] t"

section \<open>HTTP requests\<close>

text \<open>
  The scope of a connection; only an HTTP request has a method. The header names of a scope are lower-case; a lookup folds the name it
  is given.
\<close>

record asgi_scope =
  sc_type :: string
  sc_method :: "string option"
  sc_path :: "string option"
  sc_headers :: "(string, string) dict"

definition header_get :: "asgi_scope \<Rightarrow> string \<Rightarrow> string option" where
  "header_get scope name = map_of (sc_headers scope) (casefold name)"

text \<open>
  \<open>get_authorization_scheme_param\<close> of the web framework is the argument \<open>scheme_param\<close>: it is
  documented to split at the first blank, and to give empty parts for a missing value.
\<close>

type_synonym scheme_parser = "pyval \<Rightarrow> auth_exn + string \<times> string"

definition scheme_param_documented :: "scheme_parser \<Rightarrow> bool" where
  "scheme_param_documented scheme_param \<longleftrightarrow>
     scheme_param PNone = Inr ([], []) \<and>
     (\<forall>text. \<exists>parts. scheme_param (PStr text) = Inr parts) \<and>
     (\<forall>scheme token. CHR '' '' \<notin> set scheme \<longrightarrow> strip token = token \<longrightarrow>
        scheme_param (PStr (scheme @ '' '' @ token)) = Inr (scheme, token))"

definition http_extract :: "scheme_parser \<Rightarrow> asgi_scope \<Rightarrow> auth_exn + string" where
  "http_extract scheme_param scope =
     (let auth_header = or_else (header_get scope ''Authorization'') [] in
      if auth_header = [] then Inl (InvalidHeaderError ''Authorization header not found'')
      else
        bind_sum (scheme_param (PStr auth_header)) (\<lambda>(scheme, token).
          if scheme = [] then Inl (InvalidHeaderError ''Malformed Authorization header'')
          else if casefold scheme \<noteq> ''bearer''
          then Inl (InvalidHeaderError (''Unsupported scheme: '' @ scheme))
          else Inr token))"

definition http_extract_safe :: "scheme_parser \<Rightarrow> asgi_scope \<Rightarrow> auth_exn + string option" where
  "http_extract_safe scheme_param scope =
     (case http_extract scheme_param scope of
        Inl (InvalidHeaderError m) \<Rightarrow> Inr None
      | Inl e \<Rightarrow> Inl e
      | Inr token \<Rightarrow> Inr (Some token))"

section \<open>WebSocket messages\<close>

record asgi_message =
  ms_type :: string
  ms_text :: "string option"

definition extract_from_message ::
    "(string \<Rightarrow> json_outcome) \<Rightarrow> scheme_parser \<Rightarrow> asgi_message \<Rightarrow> auth_exn + string option" where
  "extract_from_message json_loads scheme_param message =
     (if ms_type message \<noteq> ''websocket.receive'' \<or> or_else (ms_text message) [] = [] then Inr None
      else case json_loads (or_else (ms_text message) []) of
        NotJson \<Rightarrow> Inr None
      | JsonRaises e \<Rightarrow> Inl (Raised e)
      | Decoded parsed_data \<Rightarrow>
          bind_sum (attr_get parsed_data ''type'' PNone) (\<lambda>message_type.
          if message_type \<noteq> PStr ''connection_init'' then Inr None
          else
            bind_sum (attr_get parsed_data ''payload'' (PDict [])) (\<lambda>payload.
            bind_sum (attr_get payload ''authorization'' PNone) (\<lambda>authorization_data.
            bind_sum (scheme_param authorization_data) (\<lambda>(scheme, token).
              if casefold scheme \<noteq> ''bearer''
              then Inl (InvalidWebsocketAuthException (''Unsupported scheme: '' @ scheme))
              else Inr (Some token))))))"

definition websocket_extract_safe ::
    "(string \<Rightarrow> json_outcome) \<Rightarrow> scheme_parser \<Rightarrow> asgi_message \<Rightarrow> auth_exn + string option" where
  "websocket_extract_safe json_loads scheme_param message =
     (case extract_from_message json_loads scheme_param message of
        Inl (InvalidWebsocketAuthException m) \<Rightarrow> Inr None
      | r \<Rightarrow> r)"

lemma http_extract_bearer:
  "http_extract scheme_param scope = Inr token \<Longrightarrow>
     \<exists>header scheme. header_get scope ''Authorization'' = Some header \<and>
       scheme_param (PStr header) = Inr (scheme, token) \<and> casefold scheme = ''bearer''"
  by (cases "header_get scope ''Authorization''")
     (auto simp: http_extract_def or_else_def bind_sum_Inr split: prod.splits if_splits list.splits)

lemma http_extract_safe_Some:
  "http_extract_safe scheme_param scope = Inr (Some token) \<longleftrightarrow> http_extract scheme_param scope = Inr token"
  by (auto simp: http_extract_safe_def split: sum.splits auth_exn.splits)

lemma http_extract_safe_total:
  assumes "scheme_param_documented scheme_param"
  shows "\<exists>token. http_extract_safe scheme_param scope = Inr token"
proof -
  obtain scheme token where "scheme_param (PStr (or_else (header_get scope ''Authorization'') [])) = Inr (scheme, token)"
    using assms unfolding scheme_param_documented_def by (metis prod.exhaust)
  then show ?thesis by (auto simp: http_extract_safe_def http_extract_def Let_def)
qed

end
