(* ===== verification/JwtValidation.thy ===== *)
theory JwtValidation
  imports Tokens
begin

text \<open>
  Validation of access tokens: the client that keeps the provider's metadata and keys
  (\<open>infrastructure/authentication/jwt_validator.py\<close>), the claims of Keycloak
  (\<open>keycloak_claims_parser.py\<close>) and the manager over both (\<open>jwt_manager.py\<close>).
\<close>

section \<open>The protocol of a manager\<close>

record AuthenticatedUser =
  us_user_id :: pyval
  us_username :: pyval
  us_email :: pyval
  us_roles :: "pyval list"
  us_scopes :: "string list"

definition has_role :: "AuthenticatedUser \<Rightarrow> pyval \<Rightarrow> bool" where
  "has_role user role \<longleftrightarrow> role \<in> set (us_roles user)"

definition has_scope :: "AuthenticatedUser \<Rightarrow> string \<Rightarrow> bool" where
  "has_scope user scope \<longleftrightarrow> scope \<in> set (us_scopes user)"

record 'm AsyncAuthenticationManager =
  am_authenticate_jwt_token :: "string option \<Rightarrow> (auth_exn, 'm, AuthenticatedUser) eprog"

text \<open>
  What the middleware relies on: a user is only returned for a token that is there, and is vouched
  for by the manager.
\<close>

locale authentication_manager =
  fixes manager :: "'m AsyncAuthenticationManager"
    and vouched :: "'m \<Rightarrow> string \<Rightarrow> AuthenticatedUser \<Rightarrow> bool"
  assumes users_are_vouched:
      "am_authenticate_jwt_token manager token m = (Inr user, m') \<Longrightarrow>
         \<exists>t. token = Some t \<and> t \<noteq> [] \<and> vouched m' t user"
    and missing_token:
      "or_else token [] = [] \<Longrightarrow>
         am_authenticate_jwt_token manager token m = (Inl (PermissionError ''Missing token''), m)"

section \<open>Claims\<close>

text \<open>\<open>roles.extend(v)\<close> for a truthy \<open>v\<close>.\<close>

definition extended :: "pyval \<Rightarrow> auth_exn + pyval list" where
  "extended v = (if truthy v then iterated v else Inr [])"

fun client_roles :: "pyval list \<Rightarrow> auth_exn + pyval list" where
  "client_roles [] = Inr []"
| "client_roles (client # clients) =
     bind_sum (attr_get client ''roles'' PNone) (\<lambda>client_role_list.
     bind_sum (extended client_role_list) (\<lambda>roles.
     bind_sum (client_roles clients) (\<lambda>rest. Inr (roles @ rest))))"

definition scopes_of :: "pyval \<Rightarrow> auth_exn + string list" where
  "scopes_of scope_str =
     (if \<not> truthy scope_str then Inr []
      else case scope_str of PStr t \<Rightarrow> Inr (split_words t) | _ \<Rightarrow> Inl (Raised (AttributeError ''split'')))"

definition first_truthy :: "pyval \<Rightarrow> pyval \<Rightarrow> pyval" where
  "first_truthy v w = (if truthy v then v else w)"

definition parse_keycloak_claims :: "pydict \<Rightarrow> auth_exn + AuthenticatedUser" where
  "parse_keycloak_claims claims =
     bind_sum (subscript (PDict claims) ''sub'') (\<lambda>user_id.
     let username = first_truthy (first_truthy (pget claims ''preferred_username'') (pget claims ''name'')) user_id;
         email = pget claims ''email'';
         resource_access = pget claims ''resource_access'' in
     bind_sum (attr_get (pget_default claims ''realm_access'' (PDict [])) ''roles'' PNone) (\<lambda>realm_roles.
     bind_sum (extended realm_roles) (\<lambda>roles.
     bind_sum (if truthy resource_access then bind_sum (attr_values resource_access) client_roles else Inr [])
       (\<lambda>more_roles.
     bind_sum (scopes_of (pget_default claims ''scope'' (PStr []))) (\<lambda>scopes.
       Inr \<lparr> us_user_id = user_id, us_username = username, us_email = email,
             us_roles = roles @ more_roles, us_scopes = scopes \<rparr>)))))"

section \<open>The validation client\<close>

text \<open>
  The libraries that the client is given: the URL of the discovery document, a GET that checks the
  status and decodes the body, decoding of a token with a function that finds the key for its
  header, validation of the claims (which reads the clock, so it sees the world), and \<open>str\<close>.
\<close>

record 'w jwt_library =
  jl_well_known_url :: "string \<Rightarrow> string"
  jl_get_json :: "pyval \<Rightarrow> (auth_exn, 'w, pyval) eprog"
  jl_decode :: "string \<Rightarrow> (pydict \<Rightarrow> auth_exn + pyval) \<Rightarrow> auth_exn + pydict"
  jl_validate :: "pyval \<Rightarrow> pydict \<Rightarrow> 'w \<Rightarrow> auth_exn + unit"
  jl_str :: "pyval \<Rightarrow> string"

record 'w JWTValidationClient =
  jc_metadata_cache :: "(string, pyval) dict"
  jc_jwks_cache :: "(pyval, pyval) dict"
  jc_world :: 'w

definition new_validation_client :: "'w \<Rightarrow> 'w JWTValidationClient" where
  "new_validation_client w = \<lparr> jc_metadata_cache = [], jc_jwks_cache = [], jc_world = w \<rparr>"

definition fetch :: "'w jwt_library \<Rightarrow> pyval \<Rightarrow> (auth_exn, 'w JWTValidationClient, pyval) eprog" where
  "fetch lib url = (\<lambda>c.
     case jl_get_json lib url (jc_world c) of (r, w) \<Rightarrow> (r, c\<lparr> jc_world := w \<rparr>))"

definition get_oidc_metadata ::
    "'w jwt_library \<Rightarrow> string \<Rightarrow> (auth_exn, 'w JWTValidationClient, pyval) eprog" where
  "get_oidc_metadata lib issuer =
     bindM (gets (\<lambda>c. map_of (jc_metadata_cache c) issuer)) (\<lambda>cached.
     case cached of
       Some metadata \<Rightarrow> ret metadata
     | None \<Rightarrow>
         bindM (fetch lib (PStr (jl_well_known_url lib issuer))) (\<lambda>metadata.
         bindM (modify (\<lambda>c. c\<lparr> jc_metadata_cache := dict_set issuer metadata (jc_metadata_cache c) \<rparr>)) (\<lambda>_.
         ret metadata)))"

definition cached_jwks :: "pyval \<Rightarrow> 'w JWTValidationClient \<Rightarrow> pyval option" where
  "cached_jwks jwks_uri c =
     map_option snd (List.find (\<lambda>(k, v). key_form k = key_form jwks_uri) (jc_jwks_cache c))"

definition get_jwks :: "'w jwt_library \<Rightarrow> pyval \<Rightarrow> (auth_exn, 'w JWTValidationClient, pyval) eprog" where
  "get_jwks lib jwks_uri =
     (if \<not> hashable jwks_uri then throw (Raised (TypeError ''unhashable type''))
      else
        bindM (gets (cached_jwks jwks_uri)) (\<lambda>cached.
        case cached of
          Some jwks \<Rightarrow> ret jwks
        | None \<Rightarrow>
            bindM (fetch lib jwks_uri) (\<lambda>jwks.
            bindM (modify (\<lambda>c. c\<lparr> jc_jwks_cache := jc_jwks_cache c @ [(jwks_uri, jwks)] \<rparr>)) (\<lambda>_.
            ret jwks))))"

text \<open>\<open>"kid" in key\<close>.\<close>

fun contains :: "pyval \<Rightarrow> string \<Rightarrow> auth_exn + bool" where
  "contains (PDict d) k = Inr (k \<in> set (dict_keys d))"
| "contains (PStr t) k = Inr (substring_of k t)"
| "contains (PList vs) k = Inr (PStr k \<in> set vs)"
| "contains _ k = Inl (Raised (TypeError ''argument is not iterable''))"

fun key_entries :: "pyval list \<Rightarrow> auth_exn + (pyval \<times> pyval) list" where
  "key_entries [] = Inr []"
| "key_entries (key # keys) =
     bind_sum (contains key ''kid'') (\<lambda>has_kid.
     if \<not> has_kid then key_entries keys
     else
       bind_sum (subscript key ''kid'') (\<lambda>kid.
       if \<not> hashable kid then Inl (Raised (TypeError ''unhashable type''))
       else bind_sum (key_entries keys) (\<lambda>entries. Inr ((kid, key) # entries))))"

definition keys_by_kid :: "pyval \<Rightarrow> auth_exn + (pyval \<times> pyval) list" where
  "keys_by_kid jwks =
     bind_sum (attr_get jwks ''keys'' (PList [])) (\<lambda>keys. bind_sum (iterated keys) key_entries)"

definition load_key :: "(pyval \<Rightarrow> string) \<Rightarrow> (pyval \<times> pyval) list \<Rightarrow> pydict \<Rightarrow> auth_exn + pyval" where
  "load_key str entries header =
     (let kid = pget header ''kid'';
          unknown = AuthenticationError (''Unknown key id: '' @ str kid) in
      if \<not> truthy kid then Inl unknown
      else if \<not> hashable kid then Inl (Raised (TypeError ''unhashable type''))
      else case last_value entries kid of None \<Rightarrow> Inl unknown | Some key \<Rightarrow> Inr key)"

text \<open>The body of the try block, and what its except clause makes of an exception.\<close>

definition checked_claims :: "'w jwt_library \<Rightarrow> string \<Rightarrow> pyval \<Rightarrow> pyval \<Rightarrow> 'w \<Rightarrow> auth_exn + pydict" where
  "checked_claims lib token metadata jwks w =
     bind_sum (keys_by_kid jwks) (\<lambda>entries.
     bind_sum (subscript metadata ''issuer'') (\<lambda>issuer.
     bind_sum (jl_decode lib token (load_key (jl_str lib) entries)) (\<lambda>claims.
     bind_sum (jl_validate lib issuer claims w) (\<lambda>_. Inr claims))))"

definition refused :: "auth_exn \<Rightarrow> auth_exn" where
  "refused e =
     (if e \<in> JoseError ` {DecodeError, InvalidClaimError, ExpiredTokenError, InvalidTokenError}
      then AuthenticationError ''Token validation failed'' else e)"

text \<open>The expected audience is not used.\<close>

definition authenticate ::
    "'w jwt_library \<Rightarrow> string \<Rightarrow> string list \<Rightarrow> string \<Rightarrow> (auth_exn, 'w JWTValidationClient, pydict) eprog" where
  "authenticate lib token audience oidc_discovery_url =
     bindM (get_oidc_metadata lib oidc_discovery_url) (\<lambda>metadata.
     bindM (liftE (subscript metadata ''jwks_uri'')) (\<lambda>jwks_uri.
     bindM (get_jwks lib jwks_uri) (\<lambda>jwks.
     try_except
       (bindM (gets jc_world) (\<lambda>w. liftE (checked_claims lib token metadata jwks w)))
       (\<lambda>e. throw (refused e)))))"

section \<open>The manager\<close>

record OpenIdConfiguration =
  oc_realm_name :: string
  oc_openid_discovery_url :: string

definition authenticate_jwt_token ::
    "'w jwt_library \<Rightarrow> OpenIdConfiguration \<Rightarrow> string option \<Rightarrow>
     (auth_exn, 'w JWTValidationClient, AuthenticatedUser) eprog" where
  "authenticate_jwt_token lib config token =
     (if or_else token [] = [] then throw (PermissionError ''Missing token'')
      else
        bindM (authenticate lib (or_else token []) [''fill-in''] (oc_openid_discovery_url config)) (\<lambda>claims.
        liftE (parse_keycloak_claims claims)))"

definition JwtAuthenticationManager ::
    "'w jwt_library \<Rightarrow> OpenIdConfiguration \<Rightarrow> 'w JWTValidationClient AsyncAuthenticationManager" where
  "JwtAuthenticationManager lib config = \<lparr> am_authenticate_jwt_token = authenticate_jwt_token lib config \<rparr>"

definition production_oidc_configuration :: OpenIdConfiguration where
  "production_oidc_configuration =
     \<lparr> oc_realm_name = ''throttling_test'',
       oc_openid_discovery_url = ''http://localhost:8082/realms/throttling-test'' \<rparr>"

section \<open>What the caches hold\<close>

text \<open>The client knows the provider at a discovery URL: its metadata and its keys are cached.\<close>

definition knows ::
    "'w JWTValidationClient \<Rightarrow> string \<Rightarrow> pyval \<Rightarrow> pyval \<Rightarrow> bool" where
  "knows c url metadata jwks \<longleftrightarrow>
     map_of (jc_metadata_cache c) url = Some metadata \<and>
     (\<exists>jwks_uri. subscript metadata ''jwks_uri'' = Inr jwks_uri \<and> hashable jwks_uri \<and>
                 cached_jwks jwks_uri c = Some jwks)"

text \<open>Caches only grow, and what is cached stays.\<close>

definition caches_grow :: "'w JWTValidationClient \<Rightarrow> 'w JWTValidationClient \<Rightarrow> bool" where
  "caches_grow c c' \<longleftrightarrow>
     (\<forall>url metadata. map_of (jc_metadata_cache c) url = Some metadata \<longrightarrow>
        map_of (jc_metadata_cache c') url = Some metadata) \<and>
     (\<forall>jwks_uri jwks. cached_jwks jwks_uri c = Some jwks \<longrightarrow> cached_jwks jwks_uri c' = Some jwks)"

interpretation caches: effect_preorder caches_grow
  by unfold_locales (auto simp: caches_grow_def)

lemma knows_grow: "caches_grow c c' \<Longrightarrow> knows c url metadata jwks \<Longrightarrow> knows c' url metadata jwks"
  by (auto simp: caches_grow_def knows_def)

lemma find_append: "List.find P (xs @ ys) = (case List.find P xs of None \<Rightarrow> List.find P ys | Some x \<Rightarrow> Some x)"
  by (induction xs) auto

lemma fetch_caches [simp]:
  "fetch lib url c = (r, c') \<Longrightarrow> jc_metadata_cache c' = jc_metadata_cache c \<and> jc_jwks_cache c' = jc_jwks_cache c"
  by (auto simp: fetch_def split: prod.splits)

lemma get_oidc_metadata_result:
  assumes "get_oidc_metadata lib url c = (r, c')"
  shows "caches_grow c c' \<and> (\<forall>metadata. r = Inr metadata \<longrightarrow> map_of (jc_metadata_cache c') url = Some metadata)"
proof (cases "map_of (jc_metadata_cache c) url")
  case (Some metadata)
  then show ?thesis using assms
    by (auto simp: get_oidc_metadata_def bindM_def gets_def ret_def caches_grow_def)
next
  case None
  obtain q d where f: "fetch lib (PStr (jl_well_known_url lib url)) c = (q, d)" by fastforce
  then have d: "jc_metadata_cache d = jc_metadata_cache c" "jc_jwks_cache d = jc_jwks_cache c"
    using fetch_caches by blast+
  show ?thesis
  proof (cases q)
    case (Inl e)
    then show ?thesis using assms None f d
      by (auto simp: get_oidc_metadata_def bindM_def gets_def caches_grow_def cached_jwks_def)
  next
    case (Inr metadata)
    then have "r = Inr metadata" "c' = d\<lparr> jc_metadata_cache := dict_set url metadata (jc_metadata_cache d) \<rparr>"
      using assms None f by (auto simp: get_oidc_metadata_def bindM_def gets_def modify_def ret_def)
    then show ?thesis using None d by (auto simp: caches_grow_def cached_jwks_def dict_simps)
  qed
qed

lemma get_jwks_result:
  assumes "get_jwks lib jwks_uri c = (r, c')"
  shows "caches_grow c c' \<and> (\<forall>jwks. r = Inr jwks \<longrightarrow> hashable jwks_uri \<and> cached_jwks jwks_uri c' = Some jwks)"
proof (cases "hashable jwks_uri")
  case False
  then show ?thesis using assms by (auto simp: get_jwks_def throw_def caches_grow_def)
next
  case hash: True
  show ?thesis
  proof (cases "cached_jwks jwks_uri c")
    case (Some jwks)
    then show ?thesis using assms hash
      by (auto simp: get_jwks_def bindM_def gets_def ret_def caches_grow_def)
  next
    case None
    obtain q d where f: "fetch lib jwks_uri c = (q, d)" by fastforce
    then have d: "jc_metadata_cache d = jc_metadata_cache c" "jc_jwks_cache d = jc_jwks_cache c"
      using fetch_caches by blast+
    show ?thesis
    proof (cases q)
      case (Inl e)
      then show ?thesis using assms None f d hash
        by (auto simp: get_jwks_def bindM_def gets_def caches_grow_def cached_jwks_def)
    next
      case (Inr jwks)
      then have "r = Inr jwks" "c' = d\<lparr> jc_jwks_cache := jc_jwks_cache d @ [(jwks_uri, jwks)] \<rparr>"
        using assms None f hash by (auto simp: get_jwks_def bindM_def gets_def modify_def ret_def)
      then show ?thesis using None d hash
        by (auto simp: caches_grow_def cached_jwks_def find_append split: option.splits)
    qed
  qed
qed

lemma effect_get_oidc_metadata: "effect_in caches_grow (get_oidc_metadata lib url)"
  by (rule effect_inI) (metis get_oidc_metadata_result prod.collapse)

lemma effect_get_jwks: "effect_in caches_grow (get_jwks lib jwks_uri)"
  by (rule effect_inI) (metis get_jwks_result prod.collapse)

lemma effect_authenticate: "effect_in caches_grow (authenticate lib token audience url)"
  unfolding authenticate_def
  by (intro caches.effect_intros effect_get_oidc_metadata effect_get_jwks)

lemma effect_authenticate_jwt_token: "effect_in caches_grow (authenticate_jwt_token lib config token)"
  unfolding authenticate_jwt_token_def by (intro caches.effect_intros effect_authenticate)

text \<open>With a known provider, an authentication makes no request and changes nothing.\<close>

lemma authenticate_known:
  assumes "knows c url metadata jwks"
  shows "authenticate lib token audience url c =
    (case checked_claims lib token metadata jwks (jc_world c) of
       Inl e \<Rightarrow> Inl (refused e) | Inr claims \<Rightarrow> Inr claims, c)"
proof -
  obtain jwks_uri where u: "map_of (jc_metadata_cache c) url = Some metadata"
      "subscript metadata ''jwks_uri'' = Inr jwks_uri" "hashable jwks_uri" "cached_jwks jwks_uri c = Some jwks"
    using assms by (auto simp: knows_def)
  then have "get_oidc_metadata lib url c = (Inr metadata, c)" "get_jwks lib jwks_uri c = (Inr jwks, c)"
    by (simp_all add: get_oidc_metadata_def get_jwks_def bindM_def gets_def ret_def)
  then show ?thesis using u(2)
    by (simp add: authenticate_def bindM_def liftE_def try_except_def gets_def throw_def split: sum.split)
qed

text \<open>An authentication that succeeds leaves the provider known.\<close>

lemma authenticate_succeeds:
  assumes "authenticate lib token audience url c = (Inr claims, c')"
  shows "\<exists>metadata jwks. knows c' url metadata jwks \<and>
     checked_claims lib token metadata jwks (jc_world c') = Inr claims"
proof -
  obtain metadata c1 where m: "get_oidc_metadata lib url c = (Inr metadata, c1)"
    using assms by (auto simp: authenticate_def bindM_def split: prod.splits sum.splits)
  obtain jwks_uri jwks where j: "subscript metadata ''jwks_uri'' = Inr jwks_uri"
      "get_jwks lib jwks_uri c1 = (Inr jwks, c')"
      "checked_claims lib token metadata jwks (jc_world c') = Inr claims"
    using assms m
    by (auto simp: authenticate_def bindM_def liftE_def try_except_def gets_def throw_def
        split: prod.splits sum.splits)
  have "map_of (jc_metadata_cache c') url = Some metadata"
    using get_oidc_metadata_result [OF m] get_jwks_result [OF j(2)] by (auto simp: caches_grow_def)
  then show ?thesis using get_jwks_result [OF j(2)] j by (auto simp: knows_def)
qed

section \<open>The manager keeps the contract\<close>

definition vouched_by ::
    "'w jwt_library \<Rightarrow> OpenIdConfiguration \<Rightarrow> 'w JWTValidationClient \<Rightarrow> string \<Rightarrow> AuthenticatedUser \<Rightarrow> bool" where
  "vouched_by lib config c token user \<longleftrightarrow>
     (\<exists>metadata jwks claims.
        knows c (oc_openid_discovery_url config) metadata jwks \<and>
        checked_claims lib token metadata jwks (jc_world c) = Inr claims \<and>
        parse_keycloak_claims claims = Inr user)"

lemma authenticate_jwt_token_user:
  assumes "authenticate_jwt_token lib config token c = (Inr user, c')"
  shows "\<exists>t. token = Some t \<and> t \<noteq> [] \<and> vouched_by lib config c' t user"
proof -
  obtain t where t: "token = Some t" "t \<noteq> []"
    using assms by (cases token; cases "token = Some []") (auto simp: authenticate_jwt_token_def throw_def)
  obtain claims where "authenticate lib t [''fill-in''] (oc_openid_discovery_url config) c = (Inr claims, c')"
      "parse_keycloak_claims claims = Inr user"
    using assms t by (auto simp: authenticate_jwt_token_def bindM_def liftE_def split: prod.splits sum.splits)
  then show ?thesis using t authenticate_succeeds by (fastforce simp: vouched_by_def)
qed

interpretation jwt_manager: authentication_manager "JwtAuthenticationManager lib config" "vouched_by lib config"
  for lib config
  by unfold_locales
     (auto simp: JwtAuthenticationManager_def authenticate_jwt_token_user authenticate_jwt_token_def throw_def)

text \<open>
  What the token library is documented to do: a decoded token is signed under a key that the key
  function gave for its header, and errors are its own or those of that function.
\<close>

definition jwt_documented :: "'w jwt_library \<Rightarrow> (string \<Rightarrow> pyval \<Rightarrow> pydict \<Rightarrow> bool) \<Rightarrow> bool" where
  "jwt_documented lib signed \<longleftrightarrow>
     (\<forall>token key_of claims. jl_decode lib token key_of = Inr claims \<longrightarrow>
        (\<exists>header key. key_of header = Inr key \<and> signed token key claims)) \<and>
     (\<forall>token key_of e. jl_decode lib token key_of = Inl e \<longrightarrow>
        (\<exists>j. e = JoseError j) \<or> (\<exists>header. key_of header = Inl e)) \<and>
     (\<forall>issuer claims w e. jl_validate lib issuer claims w = Inl e \<longrightarrow> (\<exists>j. e = JoseError j))"

lemma find_in: "List.find P xs = Some x \<Longrightarrow> x \<in> set xs \<and> P x"
  by (rule find_Some_in)

lemma load_key_entry: "load_key str entries header = Inr key \<Longrightarrow> \<exists>kid. (kid, key) \<in> set entries"
  by (auto simp: load_key_def last_value_def Let_def split: if_splits option.splits dest!: find_in)

lemma checked_claims_signed:
  assumes "jwt_documented lib signed" and "checked_claims lib token metadata jwks w = Inr claims"
  shows "\<exists>entries issuer kid key. keys_by_kid jwks = Inr entries \<and> (kid, key) \<in> set entries \<and>
    signed token key claims \<and> subscript metadata ''issuer'' = Inr issuer \<and>
    jl_validate lib issuer claims w = Inr ()"
proof -
  obtain entries issuer where e: "keys_by_kid jwks = Inr entries" "subscript metadata ''issuer'' = Inr issuer"
      "jl_decode lib token (load_key (jl_str lib) entries) = Inr claims" "jl_validate lib issuer claims w = Inr ()"
    using assms(2) by (auto simp: checked_claims_def bind_sum_Inr)
  then obtain header key where "load_key (jl_str lib) entries header = Inr key" "signed token key claims"
    using assms(1) unfolding jwt_documented_def by blast
  then show ?thesis using e load_key_entry by blast
qed

section \<open>A concrete provider\<close>

text \<open>
  A provider with one key, whose requests are counted, and a token library in which a token is the
  id of the key that signs it.
\<close>

definition example_key :: "string \<Rightarrow> pyval" where
  "example_key kid = PDict [(''kid'', PStr kid)]"

definition example_claims :: pydict where
  "example_claims =
     [(''sub'', PStr ''u-1''), (''name'', PStr ''Ada''),
      (''realm_access'', PDict [(''roles'', PList [PStr ''user''])]), (''scope'', PStr ''openid email'')]"

definition example_jwt_library :: "nat jwt_library" where
  "example_jwt_library =
     \<lparr> jl_well_known_url = (\<lambda>issuer. issuer @ ''/.well-known/openid-configuration''),
       jl_get_json = (\<lambda>url n.
         (Inr (if url = PStr ''certs'' then PDict [(''keys'', PList [example_key ''k1''])]
               else PDict [(''issuer'', PStr ''iss''), (''jwks_uri'', PStr ''certs'')]), Suc n)),
       jl_decode = (\<lambda>token key_of.
         bind_sum (key_of [(''kid'', PStr token)]) (\<lambda>key.
         if key = example_key token then Inr example_claims else Inl (JoseError BadSignatureError))),
       jl_validate = (\<lambda>issuer claims n. Inr ()),
       jl_str = (\<lambda>v. []) \<rparr>"

definition example_signed :: "string \<Rightarrow> pyval \<Rightarrow> pydict \<Rightarrow> bool" where
  "example_signed token key claims \<longleftrightarrow> key = example_key token"

lemma example_jwt_documented: "jwt_documented example_jwt_library example_signed"
proof -
  have "\<exists>header key. key_of header = Inr key \<and> example_signed token key claims"
    if "jl_decode example_jwt_library token key_of = Inr claims" for token key_of claims
    using that by (auto simp: example_jwt_library_def bind_sum_Inr example_signed_def split: if_splits)
  moreover have "(\<exists>j. e = JoseError j) \<or> (\<exists>header. key_of header = Inl e)"
    if "jl_decode example_jwt_library token key_of = Inl e" for token key_of e
    using that by (auto simp: example_jwt_library_def bind_sum_def split: if_splits sum.splits)
  ultimately show ?thesis by (simp add: jwt_documented_def) (simp add: example_jwt_library_def)
qed

section \<open>Properties\<close>

fun run_authentications ::
    "'w jwt_library \<Rightarrow> (string \<times> string list \<times> string) list \<Rightarrow> 'w JWTValidationClient \<Rightarrow> 'w JWTValidationClient" where
  "run_authentications lib [] c = c"
| "run_authentications lib ((token, audience, url) # calls) c =
     run_authentications lib calls (snd (authenticate lib token audience url c))"

lemma run_authentications_grow: "caches_grow c (run_authentications lib calls c)"
proof (induction lib calls c rule: run_authentications.induct)
  case (2 lib token audience url calls c)
  have "caches_grow c (snd (authenticate lib token audience url c))"
    using effect_authenticate [of lib token audience url] by (simp add: effect_in_def)
  then show ?case using 2 caches.R_trans by auto
qed (simp add: caches.R_refl)

text \<open>
  C26 The provider's keys are fetched once: after an authentication that succeeded, however many
  others follow, no further authentication against that provider makes a request or changes the
  caches, and a token is only accepted under the keys of the first answer. A key that the provider
  adds later is not found, and one that it withdraws stays valid, until the process restarts.
\<close>

theorem signing_keys_are_fetched_once:
  assumes "authenticate lib token audience url c = (Inr claims, c')"
    and "later = run_authentications lib calls c'"
  shows "\<exists>metadata jwks entries. knows c' url metadata jwks \<and> keys_by_kid jwks = Inr entries \<and>
    (\<forall>token' audience'.
       snd (authenticate lib token' audience' url later) = later \<and>
       (\<forall>claims'. fst (authenticate lib token' audience' url later) = Inr claims' \<longrightarrow>
          jl_decode lib token' (load_key (jl_str lib) entries) = Inr claims'))"
proof -
  obtain metadata jwks where k: "knows c' url metadata jwks"
      "checked_claims lib token metadata jwks (jc_world c') = Inr claims"
    using authenticate_succeeds [OF assms(1)] by blast
  then obtain entries where e: "keys_by_kid jwks = Inr entries" by (auto simp: checked_claims_def bind_sum_Inr)
  have "knows later url metadata jwks"
    unfolding assms(2) by (rule knows_grow [OF run_authentications_grow k(1)])
  note now = authenticate_known [OF this]
  have "jl_decode lib token' (load_key (jl_str lib) entries) = Inr claims'"
    if "fst (authenticate lib token' audience' url later) = Inr claims'" for token' audience' claims'
    using that e unfolding now by (auto simp: checked_claims_def bind_sum_Inr split: sum.splits)
  then show ?thesis using k(1) e now by auto
qed

theorem signing_keys_are_fetched_once_witness:
  "\<exists>c'. authenticate example_jwt_library ''k1'' [] ''iss'' (new_validation_client 0) = (Inr example_claims, c') \<and>
     jc_world c' = 2 \<and> snd (authenticate example_jwt_library ''k2'' [] ''iss'' c') = c'"
proof -
  obtain r c' where run: "authenticate example_jwt_library ''k1'' [] ''iss'' (new_validation_client 0) = (r, c')"
    by fastforce
  have "fst (authenticate example_jwt_library ''k1'' [] ''iss'' (new_validation_client 0)) = Inr example_claims"
    "jc_world (snd (authenticate example_jwt_library ''k1'' [] ''iss'' (new_validation_client 0))) = 2"
    by code_simp+
  then have now: "authenticate example_jwt_library ''k1'' [] ''iss'' (new_validation_client 0) = (Inr example_claims, c')"
    "jc_world c' = 2"
    using run by auto
  have "c' = run_authentications example_jwt_library [] c'" by simp
  from signing_keys_are_fetched_once [OF now(1) this] now show ?thesis by blast
qed

end
