(* ===== verification/Middlewares.thy ===== *)
theory Middlewares
  imports JwtValidation
begin

text \<open>
  The middlewares of the API (\<open>api/http/middlewares/execution.py\<close>, \<open>authentication.py\<close>) and the
  enricher of the production set-up (\<open>infrastructure/execution_context/production.py\<close>). Execution is
  registered last and so runs outermost (\<open>register_middlewares\<close> of \<open>app.py\<close>). The application inside
  is an argument: a program over the state of the request that may receive messages.
\<close>

section \<open>The state of a request\<close>

text \<open>
  The state dictionary of a scope, by the keys the code uses; the context variable with the token;
  the logging context; what has been sent; the state of the authentication manager; and the rest of
  the world, which is the application's.
\<close>

record scope_state =
  ss_request_id :: "string option"
  ss_jwt_token :: "string option"
  ss_user_id :: "pyval option"

datatype sent_answer = Answer int string

record ('m, 'w) request_state =
  rq_scope_state :: "scope_state option"
  rq_jwt_var :: "string option"
  rq_log_context :: pydict
  rq_sent :: "sent_answer list"
  rq_manager :: 'm
  rq_world :: 'w

type_synonym ('m, 'w) receive_fun = "(auth_exn, ('m, 'w) request_state, asgi_message) eprog"
type_synonym ('m, 'w) asgi_app =
  "asgi_scope \<Rightarrow> ('m, 'w) receive_fun \<Rightarrow> (auth_exn, ('m, 'w) request_state, unit) eprog"

definition empty_scope_state :: scope_state where
  "empty_scope_state = \<lparr> ss_request_id = None, ss_jwt_token = None, ss_user_id = None \<rparr>"

text \<open>\<open>try: ... finally: ...\<close> with a cleanup that does not raise.\<close>

definition try_finally :: "('e, 's, 'a) eprog \<Rightarrow> ('s \<Rightarrow> 's) \<Rightarrow> ('e, 's, 'a) eprog" where
  "try_finally m cleanup = (\<lambda>s. case m s of (r, s') \<Rightarrow> (r, cleanup s'))"

definition on_manager :: "(auth_exn, 'm, 'a) eprog \<Rightarrow> (auth_exn, ('m, 'w) request_state, 'a) eprog" where
  "on_manager p = (\<lambda>s. case p (rq_manager s) of (r, m) \<Rightarrow> (r, s\<lparr> rq_manager := m \<rparr>))"

section \<open>The execution context\<close>

text \<open>The parts of other libraries that token extraction uses.\<close>

record extractor_library =
  xl_json_loads :: "string \<Rightarrow> json_outcome"
  xl_scheme_param :: scheme_parser

definition generate_request_id :: "string \<Rightarrow> string" where
  "generate_request_id new_uuid = drop (length new_uuid - 6) new_uuid"

definition enter_context :: "string \<Rightarrow> string \<Rightarrow> string option \<Rightarrow> ('m, 'w) request_state \<Rightarrow> ('m, 'w) request_state" where
  "enter_context request_id scope_type jwt_token s =
     s\<lparr> rq_log_context :=
          dict_set ''scope_type'' (PStr scope_type) (dict_set ''request_id'' (PStr request_id) (rq_log_context s)),
        rq_jwt_var := jwt_token,
        rq_scope_state :=
          map_option (\<lambda>st. st\<lparr> ss_request_id := Some request_id, ss_jwt_token := jwt_token \<rparr>) (rq_scope_state s) \<rparr>"

definition leave_context :: "('m, 'w) request_state \<Rightarrow> ('m, 'w) request_state" where
  "leave_context s = s\<lparr> rq_log_context := [], rq_jwt_var := None \<rparr>"

definition set_default_state :: "('m, 'w) request_state \<Rightarrow> ('m, 'w) request_state" where
  "set_default_state s =
     (case rq_scope_state s of None \<Rightarrow> s\<lparr> rq_scope_state := Some empty_scope_state \<rparr> | Some st \<Rightarrow> s)"

text \<open>The context manager around a body; the fresh UUID is an argument.\<close>

definition enrich_from_scope ::
    "extractor_library \<Rightarrow> string \<Rightarrow> asgi_scope \<Rightarrow> (auth_exn, ('m, 'w) request_state, unit) eprog \<Rightarrow>
     (auth_exn, ('m, 'w) request_state, unit) eprog" where
  "enrich_from_scope lib new_uuid scope body =
     bindM (modify set_default_state) (\<lambda>_.
     let request_id = generate_request_id new_uuid; scope_type = sc_type scope in
     bindM (if scope_type = ''http'' then liftE (http_extract_safe (xl_scheme_param lib) scope) else ret None) (\<lambda>jwt_token.
     try_finally
       (bindM (modify (enter_context request_id scope_type jwt_token)) (\<lambda>_. body))
       leave_context))"

definition set_state_token :: "string \<Rightarrow> (auth_exn, ('m, 'w) request_state, unit) eprog" where
  "set_state_token jwt_token =
     bindM (modify (\<lambda>s. s\<lparr> rq_jwt_var := Some jwt_token \<rparr>)) (\<lambda>_.
     bindM (gets rq_scope_state) (\<lambda>st.
     case st of
       None \<Rightarrow> throw (Raised (KeyError ''state''))
     | Some st \<Rightarrow> modify (\<lambda>s. s\<lparr> rq_scope_state := Some (st\<lparr> ss_jwt_token := Some jwt_token \<rparr>) \<rparr>)))"

definition instrumented_receive ::
    "extractor_library \<Rightarrow> ('m, 'w) receive_fun \<Rightarrow> ('m, 'w) receive_fun" where
  "instrumented_receive lib receive =
     bindM receive (\<lambda>message.
     bindM (liftE (websocket_extract_safe (xl_json_loads lib) (xl_scheme_param lib) message)) (\<lambda>jwt_token.
     if or_else jwt_token [] = [] then ret message
     else bindM (set_state_token (or_else jwt_token [])) (\<lambda>_. ret message)))"

definition served_type :: "asgi_scope \<Rightarrow> bool" where
  "served_type scope \<longleftrightarrow> sc_type scope \<in> {''http'', ''websocket''}"

definition execution_middleware ::
    "extractor_library \<Rightarrow> string \<Rightarrow> ('m, 'w) asgi_app \<Rightarrow> ('m, 'w) asgi_app" where
  "execution_middleware lib new_uuid app scope receive =
     (if \<not> served_type scope then app scope receive
      else enrich_from_scope lib new_uuid scope (app scope (instrumented_receive lib receive)))"

section \<open>Authentication\<close>

definition excluded_paths :: "string list" where
  "excluded_paths = [''/health'']"

definition excluded_path :: "asgi_scope \<Rightarrow> bool" where
  "excluded_path scope \<longleftrightarrow>
     list_ex (startswith (case sc_path scope of None \<Rightarrow> ''None'' | Some path \<Rightarrow> path)) excluded_paths"

definition bind_user :: "AuthenticatedUser \<Rightarrow> scope_state \<Rightarrow> ('m, 'w) request_state \<Rightarrow> ('m, 'w) request_state" where
  "bind_user user st s =
     s\<lparr> rq_log_context := dict_set ''user_id'' (us_user_id user) (rq_log_context s),
        rq_scope_state := Some (st\<lparr> ss_user_id := Some (us_user_id user) \<rparr>) \<rparr>"

definition identify_user ::
    "'m AsyncAuthenticationManager \<Rightarrow> (auth_exn, ('m, 'w) request_state, unit) eprog" where
  "identify_user manager =
     bindM (gets rq_scope_state) (\<lambda>st.
     case st of
       None \<Rightarrow> throw (Raised (KeyError ''state''))
     | Some st \<Rightarrow>
         bindM (on_manager (am_authenticate_jwt_token manager (ss_jwt_token st))) (\<lambda>user_identity.
         modify (bind_user user_identity st)))"

definition failure_answer :: "auth_exn \<Rightarrow> sent_answer" where
  "failure_answer e =
     (case e of
        AuthenticationError m \<Rightarrow> Answer 401 ''Authentication failed''
      | _ \<Rightarrow> Answer 500 ''Unexpected error during authentication'')"

definition send_answer :: "sent_answer \<Rightarrow> (auth_exn, ('m, 'w) request_state, unit) eprog" where
  "send_answer a = modify (\<lambda>s. s\<lparr> rq_sent := rq_sent s @ [a] \<rparr>)"

definition authentication_middleware ::
    "'m AsyncAuthenticationManager \<Rightarrow> ('m, 'w) asgi_app \<Rightarrow> ('m, 'w) asgi_app" where
  "authentication_middleware manager app scope receive =
     (if \<not> served_type scope \<or> excluded_path scope then app scope receive
      else
        bindM (try_except (bindM (identify_user manager) (\<lambda>_. ret None)) (\<lambda>e. ret (Some e))) (\<lambda>failure.
        case failure of
          Some e \<Rightarrow> send_answer (failure_answer e)
        | None \<Rightarrow> app scope receive))"

definition with_middlewares ::
    "extractor_library \<Rightarrow> string \<Rightarrow> 'm AsyncAuthenticationManager \<Rightarrow> ('m, 'w) asgi_app \<Rightarrow> ('m, 'w) asgi_app" where
  "with_middlewares lib new_uuid manager app =
     execution_middleware lib new_uuid (authentication_middleware manager app)"

section \<open>What the authentication middleware does\<close>

context authentication_manager
begin

lemma identified_user:
  assumes "identify_user manager s = (Inr u, s')"
  shows "\<exists>st t user. rq_scope_state s = Some st \<and> ss_jwt_token st = Some t \<and> t \<noteq> [] \<and>
    vouched (rq_manager s') t user \<and> s' = bind_user user st (s\<lparr> rq_manager := rq_manager s' \<rparr>)"
proof -
  obtain st where st: "rq_scope_state s = Some st"
    using assms by (cases "rq_scope_state s") (auto simp: identify_user_def bindM_def gets_def throw_def)
  obtain r m where a: "am_authenticate_jwt_token manager (ss_jwt_token st) (rq_manager s) = (r, m)" by fastforce
  then obtain user where user: "r = Inr user" "s' = bind_user user st (s\<lparr> rq_manager := m \<rparr>)"
    using assms st
    by (cases r) (auto simp: identify_user_def bindM_def gets_def on_manager_def modify_def)
  then have "rq_manager s' = m" by (simp add: bind_user_def)
  then show ?thesis using users_are_vouched [OF a [unfolded user(1)]] st user(2) by auto
qed

lemma unidentified_user:
  assumes "identify_user manager s = (Inl e, s')"
  shows "s' = s\<lparr> rq_manager := rq_manager s' \<rparr>"
  using assms
  by (auto simp: identify_user_def bindM_def gets_def on_manager_def modify_def throw_def
      split: option.splits prod.splits sum.splits)

lemma no_token_no_user:
  assumes "rq_scope_state s = Some st" and "or_else (ss_jwt_token st) [] = []"
  shows "identify_user manager s = (Inl (PermissionError ''Missing token''), s)"
  using missing_token [OF assms(2), of "rq_manager s"] assms(1)
  by (simp add: identify_user_def bindM_def gets_def on_manager_def)

lemma middleware_cases:
  assumes "served_type scope" and "\<not> excluded_path scope"
    and "authentication_middleware manager app scope receive s = (r, s')"
  obtains e m where "r = Inr ()" "s' = s\<lparr> rq_sent := rq_sent s @ [failure_answer e], rq_manager := m \<rparr>"
    | st t user m where "rq_scope_state s = Some st" "ss_jwt_token st = Some t" "t \<noteq> []" "vouched m t user"
        "app scope receive (bind_user user st (s\<lparr> rq_manager := m \<rparr>)) = (r, s')"
proof -
  obtain q s1 where i: "identify_user manager s = (q, s1)" by fastforce
  show thesis
  proof (cases q)
    case (Inl e)
    then have "r = Inr ()" "s' = s1\<lparr> rq_sent := rq_sent s1 @ [failure_answer e] \<rparr>"
      using assms i
      by (auto simp: authentication_middleware_def bindM_def try_except_def ret_def send_answer_def modify_def)
    moreover have "s1 = s\<lparr> rq_manager := rq_manager s1 \<rparr>" using unidentified_user i Inl by blast
    ultimately show thesis using that(1) by (metis request_state.ext_inject request_state.surjective
        request_state.update_convs(4) request_state.update_convs(5))
  next
    case (Inr u)
    then have "app scope receive s1 = (r, s')"
      using assms i by (auto simp: authentication_middleware_def bindM_def try_except_def ret_def)
    then show thesis using identified_user i Inr that(2) by metis
  qed
qed

end

section \<open>The two middlewares together\<close>

text \<open>The token that an opening scope carries, and the state in which authentication starts.\<close>

definition opening_token :: "extractor_library \<Rightarrow> asgi_scope \<Rightarrow> auth_exn + string option" where
  "opening_token lib scope =
     (if sc_type scope = ''http'' then http_extract_safe (xl_scheme_param lib) scope else Inr None)"

definition entered :: "string \<Rightarrow> asgi_scope \<Rightarrow> string option \<Rightarrow> ('m, 'w) request_state \<Rightarrow> ('m, 'w) request_state" where
  "entered new_uuid scope jwt_token s =
     enter_context (generate_request_id new_uuid) (sc_type scope) jwt_token (set_default_state s)"

lemma entered_state:
  "\<exists>st. rq_scope_state (entered new_uuid scope jwt_token s) = Some st \<and> ss_jwt_token st = jwt_token"
  by (auto simp: entered_def enter_context_def set_default_state_def split: option.split)

lemma entered_sel [simp]:
  "rq_sent (entered new_uuid scope jwt_token s) = rq_sent s"
  "rq_manager (entered new_uuid scope jwt_token s) = rq_manager s"
  "rq_world (entered new_uuid scope jwt_token s) = rq_world s"
  by (auto simp: entered_def enter_context_def set_default_state_def split: option.split)

lemma with_middlewares_enters:
  assumes "served_type scope" and "opening_token lib scope = Inr jwt_token"
  shows "with_middlewares lib new_uuid manager app scope receive s =
    (case authentication_middleware manager app scope (instrumented_receive lib receive)
            (entered new_uuid scope jwt_token s) of (r, s') \<Rightarrow> (r, leave_context s'))"
proof -
  have "(if sc_type scope = ''http'' then liftE (http_extract_safe (xl_scheme_param lib) scope) else ret None) =
      (ret jwt_token :: (auth_exn, ('a, 'b) request_state, string option) eprog)"
    using assms(2) by (auto simp: opening_token_def liftE_def ret_def)
  then show ?thesis
    using assms(1)
    by (simp add: with_middlewares_def execution_middleware_def enrich_from_scope_def Let_def try_finally_def
        entered_def bindM_def modify_def ret_def)
qed

lemma opening_token_total:
  "scheme_param_documented (xl_scheme_param lib) \<Longrightarrow> \<exists>jwt_token. opening_token lib scope = Inr jwt_token"
  using http_extract_safe_total by (auto simp: opening_token_def)

text \<open>
  A request that carries a bearer token, and a token that is verified for a user: signed under a key
  that the provider of the configuration lists, with claims that are valid for the provider's issuer
  and name the user.
\<close>

definition carries_bearer :: "extractor_library \<Rightarrow> asgi_scope \<Rightarrow> string \<Rightarrow> bool" where
  "carries_bearer lib scope token \<longleftrightarrow>
     (\<exists>header scheme. sc_type scope = ''http'' \<and> header_get scope ''Authorization'' = Some header \<and>
        xl_scheme_param lib (PStr header) = Inr (scheme, token) \<and> casefold scheme = ''bearer'')"

definition verified_for ::
    "'w jwt_library \<Rightarrow> (string \<Rightarrow> pyval \<Rightarrow> pydict \<Rightarrow> bool) \<Rightarrow> OpenIdConfiguration \<Rightarrow>
     'w JWTValidationClient \<Rightarrow> string \<Rightarrow> AuthenticatedUser \<Rightarrow> bool" where
  "verified_for jwt signed config c token user \<longleftrightarrow>
     (\<exists>metadata jwks entries kid key issuer claims.
        knows c (oc_openid_discovery_url config) metadata jwks \<and>
        keys_by_kid jwks = Inr entries \<and> (kid, key) \<in> set entries \<and> signed token key claims \<and>
        subscript metadata ''issuer'' = Inr issuer \<and>
        jl_validate jwt issuer claims (jc_world c) = Inr () \<and>
        parse_keycloak_claims claims = Inr user)"

lemma vouched_verified:
  assumes "jwt_documented jwt signed" and "vouched_by jwt config c token user"
  shows "verified_for jwt signed config c token user"
  using assms(2) checked_claims_signed [OF assms(1)] unfolding vouched_by_def verified_for_def by metis

lemma opening_token_bearer:
  "opening_token lib scope = Inr (Some token) \<Longrightarrow> carries_bearer lib scope token"
  using http_extract_bearer
  by (auto simp: opening_token_def http_extract_safe_Some carries_bearer_def split: if_splits)

section \<open>Verified or refused\<close>

lemma verified_or_refused:
  assumes "jwt_documented jwt signed" and "scheme_param_documented (xl_scheme_param lib)"
    and "served_type scope" and "\<not> excluded_path scope"
    and "with_middlewares lib new_uuid (JwtAuthenticationManager jwt config) app scope receive s = (r, s')"
  shows "(r = Inr () \<and> rq_world s' = rq_world s \<and>
      (\<exists>a \<in> {Answer 401 ''Authentication failed'', Answer 500 ''Unexpected error during authentication''}.
         rq_sent s' = rq_sent s @ [a])) \<or>
    (\<exists>token user start st s1.
       carries_bearer lib scope token \<and> verified_for jwt signed config (rq_manager start) token user \<and>
       rq_scope_state start = Some st \<and> ss_user_id st = Some (us_user_id user) \<and>
       ss_jwt_token st = Some token \<and> rq_sent start = rq_sent s \<and> rq_world start = rq_world s \<and>
       app scope (instrumented_receive lib receive) start = (r, s1) \<and> s' = leave_context s1)"
proof -
  obtain jwt_token where o: "opening_token lib scope = Inr jwt_token"
    using opening_token_total [OF assms(2)] by blast
  let ?e = "entered new_uuid scope jwt_token s"
  obtain s1 where run: "authentication_middleware (JwtAuthenticationManager jwt config) app scope
      (instrumented_receive lib receive) ?e = (r, s1)" and left: "s' = leave_context s1"
    using assms(5) unfolding with_middlewares_enters [OF assms(3) o] by (auto split: prod.splits)
  show ?thesis
  proof (rule jwt_manager.middleware_cases [OF assms(3,4) run])
    fix e m
    assume "r = Inr ()" and "s1 = ?e\<lparr> rq_sent := rq_sent ?e @ [failure_answer e], rq_manager := m \<rparr>"
    then show ?thesis using left by (auto simp: leave_context_def failure_answer_def split: auth_exn.split)
  next
    fix st t user m
    assume u: "rq_scope_state ?e = Some st" "ss_jwt_token st = Some t" "vouched_by jwt config m t user"
        "app scope (instrumented_receive lib receive) (bind_user user st (?e\<lparr> rq_manager := m \<rparr>)) = (r, s1)"
    then have "jwt_token = Some t" using entered_state [of new_uuid scope jwt_token s] by auto
    then have "carries_bearer lib scope t" using o opening_token_bearer by simp
    moreover have "verified_for jwt signed config m t user" using vouched_verified assms(1) u(3) by blast
    ultimately show ?thesis using u(2,4) left
      by (intro disjI2 exI [of _ t] exI [of _ user] exI [of _ "bind_user user st (?e\<lparr> rq_manager := m \<rparr>)"]
            exI [of _ "st\<lparr> ss_user_id := Some (us_user_id user) \<rparr>"] exI [of _ s1])
         (simp add: bind_user_def)
  qed
qed

section \<open>A concrete request\<close>

text \<open>Splitting at the first blank.\<close>

definition example_scheme_param :: scheme_parser where
  "example_scheme_param v =
     (case v of
        PNone \<Rightarrow> Inr ([], [])
      | PStr t \<Rightarrow> Inr (takeWhile (\<lambda>c. c \<noteq> CHR '' '') t, drop 1 (dropWhile (\<lambda>c. c \<noteq> CHR '' '') t))
      | _ \<Rightarrow> Inl (Raised (AttributeError ''partition'')))"

lemma example_scheme_param_documented: "scheme_param_documented example_scheme_param"
proof -
  have "takeWhile (\<lambda>c. c \<noteq> CHR '' '') (scheme @ CHR '' '' # token) = scheme"
    "dropWhile (\<lambda>c. c \<noteq> CHR '' '') (scheme @ CHR '' '' # token) = CHR '' '' # token"
    if "CHR '' '' \<notin> set scheme" for scheme token
    using that by (induction scheme) auto
  then show ?thesis by (simp add: scheme_param_documented_def example_scheme_param_def)
qed

definition connection_init :: "string \<Rightarrow> string \<Rightarrow> pyval" where
  "connection_init name value =
     PDict [(''type'', PStr ''connection_init''), (''payload'', PDict [(name, PStr value)])]"

definition example_extractors :: extractor_library where
  "example_extractors =
     \<lparr> xl_json_loads = (\<lambda>text. Decoded (connection_init text ''Bearer k1'')),
       xl_scheme_param = example_scheme_param \<rparr>"

definition example_scope :: "string \<Rightarrow> (string, string) dict \<Rightarrow> asgi_scope" where
  "example_scope type headers = \<lparr> sc_type = type, sc_method = Some ''GET'', sc_path = Some ''/api/v1/agent'', sc_headers = headers \<rparr>"

definition example_request_state :: "(nat JWTValidationClient, nat) request_state" where
  "example_request_state =
     \<lparr> rq_scope_state = None, rq_jwt_var = None, rq_log_context = [], rq_sent = [],
       rq_manager = new_validation_client 0, rq_world = 0 \<rparr>"

text \<open>An application that receives one message and leaves a mark.\<close>

definition example_app :: "(nat JWTValidationClient, nat) asgi_app" where
  "example_app scope receive = bindM receive (\<lambda>message. modify (\<lambda>s. s\<lparr> rq_world := 7 \<rparr>))"

definition example_receive :: "(nat JWTValidationClient, nat) receive_fun" where
  "example_receive = ret \<lparr> ms_type = ''websocket.receive'', ms_text = Some ''authorization'' \<rparr>"

abbreviation example_run ::
    "asgi_scope \<Rightarrow> (auth_exn + unit) \<times> (nat JWTValidationClient, nat) request_state" where
  "example_run scope \<equiv>
     with_middlewares example_extractors ''3f2b8c1e-9d4a-4c6b-8e7f-0a1b2c3d4e5f''
       (JwtAuthenticationManager example_jwt_library \<lparr> oc_realm_name = [], oc_openid_discovery_url = ''iss'' \<rparr>)
       example_app scope example_receive example_request_state"

section \<open>Properties\<close>

text \<open>A path that is excluded from authentication: the application runs at once, with the provider not asked.\<close>

lemma excluded_requests_pass:
  assumes "served_type scope" and "excluded_path scope" and "opening_token lib scope = Inr jwt_token"
  shows "with_middlewares lib new_uuid manager app scope receive s =
    (case app scope (instrumented_receive lib receive) (entered new_uuid scope jwt_token s) of
       (r, s') \<Rightarrow> (r, leave_context s'))"
  using assms by (simp add: with_middlewares_enters authentication_middleware_def)

text \<open>
  C24 What the middlewares make of a request, for every path. A path that starts with /health is
  passed on without any check: the application runs at once, and neither is anything sent nor is the
  provider asked before it. On any other path the application only runs for a verified user: the
  request is either answered with 401 or 500, with the application untouched, or it carried a bearer
  token that is verified for a user: signed under a key that the provider lists, with claims that
  are valid for its issuer. Then the application runs with that user and that token in its scope.
  In every case in which it runs, its result is the result and the context of the request is left.
\<close>

theorem requests_are_verified_unless_excluded:
  assumes "jwt_documented jwt signed" and "scheme_param_documented (xl_scheme_param lib)"
    and "served_type scope"
    and "with_middlewares lib new_uuid (JwtAuthenticationManager jwt config) app scope receive s = (r, s')"
  shows "if excluded_path scope then
      (\<exists>start s1. rq_manager start = rq_manager s \<and> rq_sent start = rq_sent s \<and> rq_world start = rq_world s \<and>
         app scope (instrumented_receive lib receive) start = (r, s1) \<and> s' = leave_context s1)
    else
      (r = Inr () \<and> rq_world s' = rq_world s \<and>
        (\<exists>a \<in> {Answer 401 ''Authentication failed'', Answer 500 ''Unexpected error during authentication''}.
           rq_sent s' = rq_sent s @ [a])) \<or>
      (\<exists>token user start st s1.
         carries_bearer lib scope token \<and> verified_for jwt signed config (rq_manager start) token user \<and>
         rq_scope_state start = Some st \<and> ss_user_id st = Some (us_user_id user) \<and>
         ss_jwt_token st = Some token \<and> rq_sent start = rq_sent s \<and> rq_world start = rq_world s \<and>
         app scope (instrumented_receive lib receive) start = (r, s1) \<and> s' = leave_context s1)"
proof (cases "excluded_path scope")
  case True
  obtain jwt_token where o: "opening_token lib scope = Inr jwt_token"
    using opening_token_total [OF assms(2)] by blast
  obtain s1 where "app scope (instrumented_receive lib receive) (entered new_uuid scope jwt_token s) = (r, s1)"
      "s' = leave_context s1"
    using assms(4) unfolding excluded_requests_pass [OF assms(3) True o] by (auto split: prod.splits)
  then show ?thesis
    using True by (intro if_P [THEN iffD2, OF True] exI [of _ "entered new_uuid scope jwt_token s"] exI [of _ s1]) simp
next
  case False
  then show ?thesis using verified_or_refused [OF assms(1-3) False assms(4)] by simp
qed

theorem requests_are_verified_unless_excluded_witness:
  "\<exists>start s1 token user.
     verified_for example_jwt_library example_signed \<lparr> oc_realm_name = [], oc_openid_discovery_url = ''iss'' \<rparr>
       (rq_manager start) token user \<and>
     example_app (example_scope ''http'' [(''authorization'', ''Bearer k1'')])
       (instrumented_receive example_extractors example_receive) start = (Inr (), s1) \<and>
     rq_world (snd (example_run (example_scope ''http'' [(''authorization'', ''Bearer k1'')]))) = 7"
proof -
  let ?scope = "example_scope ''http'' [(''authorization'', ''Bearer k1'')]"
  have "fst (example_run ?scope) = Inr ()" and world: "rq_world (snd (example_run ?scope)) = 7"
    by code_simp+
  then obtain s' where run: "example_run ?scope = (Inr (), s')" "rq_world s' = 7" by (metis prod.collapse)
  have scope: "served_type ?scope" "\<not> excluded_path ?scope" by code_simp+
  have sp: "scheme_param_documented (xl_scheme_param example_extractors)"
    by (simp add: example_extractors_def example_scheme_param_documented)
  have "rq_world example_request_state = 0" by (simp add: example_request_state_def)
  with requests_are_verified_unless_excluded [OF example_jwt_documented sp scope(1) run(1)] scope(2) run(2) world
  show ?thesis by fastforce
qed

text \<open>
  C25 Without a token the answer is 500, not 401, and a WebSocket never has one in time: the token of
  a WebSocket comes with its first message, but authentication runs before any message is received.
  So every WebSocket, and every HTTP request without a usable bearer header, gets 500, with neither
  the provider nor the application hearing of it - unless its path starts with /health: then the
  application runs, with no token in its scope, and the provider is not asked.
\<close>

theorem requests_without_token_get_500_unless_excluded:
  assumes "served_type scope"
    and "sc_type scope = ''websocket'' \<or> (\<exists>token. http_extract_safe (xl_scheme_param lib) scope = Inr token \<and>
           or_else token [] = [])"
  shows "\<exists>st. or_else (ss_jwt_token st) [] = [] \<and>
    (if excluded_path scope then
       (\<exists>start. rq_scope_state start = Some st \<and> rq_manager start = rq_manager s \<and> rq_sent start = rq_sent s \<and>
          rq_world start = rq_world s \<and>
          with_middlewares lib new_uuid (JwtAuthenticationManager jwt config) app scope receive s =
            (case app scope (instrumented_receive lib receive) start of (r, s') \<Rightarrow> (r, leave_context s')))
     else
       with_middlewares lib new_uuid (JwtAuthenticationManager jwt config) app scope receive s =
         (Inr (), s\<lparr> rq_scope_state := Some st,
                     rq_sent := rq_sent s @ [Answer 500 ''Unexpected error during authentication''],
                     rq_log_context := [], rq_jwt_var := None \<rparr>))"
proof -
  obtain jwt_token where o: "opening_token lib scope = Inr jwt_token" "or_else jwt_token [] = []"
    using assms(2) by (cases "sc_type scope = ''http''") (auto simp: opening_token_def)
  let ?e = "entered new_uuid scope jwt_token s"
  obtain st where st: "rq_scope_state ?e = Some st" "ss_jwt_token st = jwt_token" using entered_state by blast
  show ?thesis
  proof (cases "excluded_path scope")
    case True
    have "with_middlewares lib new_uuid (JwtAuthenticationManager jwt config) app scope receive s =
        (case app scope (instrumented_receive lib receive) ?e of (r, s') \<Rightarrow> (r, leave_context s'))"
      by (rule excluded_requests_pass [OF assms(1) True o(1)])
    then show ?thesis
      using st o(2) True by (intro exI [of _ st]) (simp, intro exI [of _ ?e], simp)
  next
    case False
    have "identify_user (JwtAuthenticationManager jwt config) ?e = (Inl (PermissionError ''Missing token''), ?e)"
      by (rule jwt_manager.no_token_no_user [OF st(1)]) (simp add: st(2) o(2))
    then have "authentication_middleware (JwtAuthenticationManager jwt config) app scope
        (instrumented_receive lib receive) ?e =
        (Inr (), ?e\<lparr> rq_sent := rq_sent ?e @ [Answer 500 ''Unexpected error during authentication''] \<rparr>)"
      using False
      by (simp add: authentication_middleware_def assms(1) bindM_def try_except_def ret_def failure_answer_def
          send_answer_def modify_def)
    then show ?thesis
      using False st o(2) unfolding with_middlewares_enters [OF assms(1) o(1)]
      by (intro exI [of _ st])
         (auto simp: leave_context_def entered_def enter_context_def set_default_state_def split: option.splits)
  qed
qed

theorem requests_without_token_get_500_unless_excluded_witness:
  "rq_sent (snd (example_run (example_scope ''websocket'' []))) =
     [Answer 500 ''Unexpected error during authentication''] \<and>
   rq_world (snd (example_run (example_scope ''websocket'' []))) = 0"
proof -
  have "served_type (example_scope ''websocket'' [])" "\<not> excluded_path (example_scope ''websocket'' [])"
    "sc_type (example_scope ''websocket'' []) = ''websocket''"
    by code_simp+
  from requests_without_token_get_500_unless_excluded [OF this(1), where lib = example_extractors
      and new_uuid = "''3f2b8c1e-9d4a-4c6b-8e7f-0a1b2c3d4e5f''" and jwt = example_jwt_library
      and config = "\<lparr> oc_realm_name = [], oc_openid_discovery_url = ''iss'' \<rparr>" and app = example_app
      and receive = example_receive and s = example_request_state]
    this(2,3)
  show ?thesis by (auto simp: example_request_state_def)
qed

text \<open>
  Nothing of a request stays behind: whatever the manager, the application and its messages do,
  and whether or not an exception comes out, the context variable with the token and the logging
  context are empty afterwards.
\<close>

theorem request_context_is_cleared:
  assumes "scheme_param_documented (xl_scheme_param lib)" and "served_type scope"
  shows "rq_jwt_var (snd (with_middlewares lib new_uuid manager app scope receive s)) = None \<and>
         rq_log_context (snd (with_middlewares lib new_uuid manager app scope receive s)) = []"
proof -
  obtain jwt_token where o: "opening_token lib scope = Inr jwt_token" using opening_token_total [OF assms(1)] by blast
  show ?thesis
    unfolding with_middlewares_enters [OF assms(2) o] by (simp add: leave_context_def split: prod.split)
qed

text \<open>
  The token of a \<open>connection_init\<close> message reaches the scope and the context variable when the
  payload names it \<open>authorization\<close>; under any other name, also the \<open>Authorization\<close> of the
  documentation, it is dropped without an error.
\<close>

theorem connection_init_token_needs_lower_case:
  assumes "scheme_param_documented (xl_scheme_param lib)"
    and "CHR '' '' \<notin> set scheme" and "casefold scheme = ''bearer''" and "token \<noteq> []" and "strip token = token"
    and "xl_json_loads lib text = Decoded (connection_init name (scheme @ '' '' @ token))" and "text \<noteq> []"
    and "receive s = (Inr \<lparr> ms_type = ''websocket.receive'', ms_text = Some text \<rparr>, s1)"
    and "rq_scope_state s1 = Some st"
  shows "instrumented_receive lib receive s =
    (Inr \<lparr> ms_type = ''websocket.receive'', ms_text = Some text \<rparr>,
     if name = ''authorization''
     then s1\<lparr> rq_jwt_var := Some token, rq_scope_state := Some (st\<lparr> ss_jwt_token := Some token \<rparr>) \<rparr>
     else s1)"
proof -
  have parts: "xl_scheme_param lib (PStr (scheme @ '' '' @ token)) = Inr (scheme, token)"
    "xl_scheme_param lib PNone = Inr ([], [])"
    using assms(1,2,5) by (simp_all add: scheme_param_documented_def)
  have "websocket_extract_safe (xl_json_loads lib) (xl_scheme_param lib)
      \<lparr> ms_type = ''websocket.receive'', ms_text = Some text \<rparr> =
      Inr (if name = ''authorization'' then Some token else None)"
    using assms(3,6,7) parts
    by (simp add: websocket_extract_safe_def extract_from_message_def connection_init_def casefold_def)
  then show ?thesis
    using assms(4,8,9)
    by (simp add: instrumented_receive_def bindM_def liftE_def ret_def set_state_token_def gets_def modify_def)
qed

end
