(* ===== verification/HealthRoutes.thy ===== *)
theory HealthRoutes
  imports DemoModels
begin

text \<open>
  Which routes count as health routes (\<open>core/telemetry.py\<close>): the filter on route templates, the
  pattern on URLs, and the searching for a pattern that \<open>re.search\<close> does.
\<close>

section \<open>The two filters\<close>

definition is_health_route :: "string \<Rightarrow> bool" where
  "is_health_route path =
     list_ex (\<lambda>segment. substring_of ''health'' segment \<or> substring_of ''ready'' segment)
       (split_on (CHR ''/'') (casefold path))"

text \<open>
  Patterns as the code writes them: a given text, one character of a class, any number of them,
  one pattern after another, one of two patterns, and the end of the text (which Python's \<open>$\<close> also
  sees before a final line break). \<open>rests r t\<close> lists what can be left of \<open>t\<close> after a match at its
  start; searching tries every position.
\<close>

datatype pattern =
    Literal string
  | One "char \<Rightarrow> bool"
  | Many "char \<Rightarrow> bool"
  | Then pattern pattern
  | Either pattern pattern
  | AtEnd

fun skips :: "(char \<Rightarrow> bool) \<Rightarrow> string \<Rightarrow> string list" where
  "skips P [] = [[]]"
| "skips P (c # cs) = (c # cs) # (if P c then skips P cs else [])"

fun rests :: "pattern \<Rightarrow> string \<Rightarrow> string list" where
  "rests (Literal w) t = (if prefix w t then [drop (length w) t] else [])"
| "rests (One P) t = (case t of [] \<Rightarrow> [] | c # cs \<Rightarrow> if P c then [cs] else [])"
| "rests (Many P) t = skips P t"
| "rests (Then r q) t = concat (map (rests q) (rests r t))"
| "rests (Either r q) t = rests r t @ rests q t"
| "rests AtEnd t = (if t = [] \<or> t = [CHR 0x0A] then [t] else [])"

definition pattern_search :: "pattern \<Rightarrow> string \<Rightarrow> bool" where
  "pattern_search r t = list_ex (\<lambda>s. rests r s \<noteq> []) (suffixes t)"

definition segment_char :: "char \<Rightarrow> bool" where
  "segment_char c \<longleftrightarrow> c \<notin> {CHR ''/'', CHR ''?'', CHR ''#''}"

definition segment_with :: "string \<Rightarrow> pattern" where
  "segment_with word = Then (Many segment_char) (Then (Literal word) (Many segment_char))"

definition health_route_pattern :: pattern where
  "health_route_pattern =
     Then (Literal ''/'')
       (Then (Either (segment_with ''health'') (segment_with ''ready''))
             (Either (One (\<lambda>c. \<not> segment_char c)) AtEnd))"

section \<open>What a match is\<close>

lemma set_skips: "set (skips P t) = {r. \<exists>p. t = p @ r \<and> list_all P p}"
proof (induction t)
  case (Cons c cs)
  have "(\<exists>p. c # cs = p @ r \<and> list_all P p) \<longleftrightarrow>
      r = c # cs \<or> P c \<and> (\<exists>p. cs = p @ r \<and> list_all P p)" for r
    by (auto simp: Cons_eq_append_conv)
  then show ?case using Cons by auto
qed simp

lemma rests_Literal: "set (rests (Literal w) t) = {r. t = w @ r}"
  by (auto simp: prefix_def)

lemma rests_segment_with:
  "set (rests (segment_with w) t) =
     {r. \<exists>p q. t = p @ w @ q @ r \<and> list_all segment_char p \<and> list_all segment_char q}"
  by (auto simp: segment_with_def set_skips rests_Literal simp del: rests.simps(1))

lemma search_iff: "pattern_search r t \<longleftrightarrow> (\<exists>a s x. t = a @ s \<and> x \<in> set (rests r s))"
proof -
  have "pattern_search r t \<longleftrightarrow> (\<exists>s. suffix s t \<and> set (rests r s) \<noteq> {})"
    by (simp add: pattern_search_def list_ex_iff Bex_def)
  then show ?thesis unfolding suffix_def ex_in_conv [symmetric] by blast
qed

lemma rests_health_pattern:
  "x \<in> set (rests health_route_pattern s) \<longleftrightarrow>
     (\<exists>w r s'. s = CHR ''/'' # s' \<and> w \<in> {''health'', ''ready''} \<and> r \<in> set (rests (segment_with w) s') \<and>
        x \<in> set (rests (Either (One (\<lambda>c. \<not> segment_char c)) AtEnd) r))"
proof -
  have seq: "set (rests (Then r q) t) = (\<Union>s \<in> set (rests r t). set (rests q s))"
    and alt: "set (rests (Either r q) t) = set (rests r t) \<union> set (rests q t)" for r q t
    by simp_all
  show ?thesis
    unfolding health_route_pattern_def seq [of "Literal ''/''"] rests_Literal seq [of "Either (segment_with w) u" for w u]
      alt [of "segment_with w" for w] append_Cons append_Nil
    by blast
qed

lemma ends_iff:
  "(\<exists>x. x \<in> set (rests (Either (One (\<lambda>c. \<not> segment_char c)) AtEnd) r)) \<longleftrightarrow>
     r = [] \<or> r = [CHR 0x0A] \<or> \<not> segment_char (hd r)"
  by (cases r) auto

lemma health_pattern_iff:
  "pattern_search health_route_pattern t \<longleftrightarrow>
     (\<exists>a p w q r. t = a @ CHR ''/'' # p @ w @ q @ r \<and> w \<in> {''health'', ''ready''} \<and>
        list_all segment_char p \<and> list_all segment_char q \<and>
        (r = [] \<or> r = [CHR 0x0A] \<or> \<not> segment_char (hd r)))"
proof -
  have "pattern_search health_route_pattern t \<longleftrightarrow>
      (\<exists>a s' w r. t = a @ CHR ''/'' # s' \<and> w \<in> {''health'', ''ready''} \<and> r \<in> set (rests (segment_with w) s') \<and>
         (\<exists>x. x \<in> set (rests (Either (One (\<lambda>c. \<not> segment_char c)) AtEnd) r)))"
    unfolding search_iff rests_health_pattern by blast
  then show ?thesis unfolding ends_iff rests_segment_with by blast
qed

section \<open>Segments of a path\<close>

lemma split_on_append: "split_on c (a @ c # s) = split_on c a @ split_on c s"
proof (induction a)
  case (Cons x a)
  have "split_on c a \<noteq> []" by (cases a) (auto split: list.split)
  then obtain u us where "split_on c a = u # us" by (cases "split_on c a") auto
  then show ?case using Cons by simp
qed simp

lemma split_on_none: "c \<notin> set s \<Longrightarrow> split_on c s = [s]"
  by (induction s) auto

lemma split_on_member:
  "seg \<in> set (split_on c t) \<Longrightarrow>
     c \<notin> set seg \<and> (\<exists>b. (b = [] \<or> hd b = c) \<and> (t = seg @ b \<or> (\<exists>a. t = a @ c # seg @ b)))"
proof (induction "length t" arbitrary: t rule: less_induct)
  case less
  show ?case
  proof (cases "c \<in> set t")
    case False
    then show ?thesis using less.prems by (simp add: split_on_none)
  next
    case True
    then obtain u v where t: "t = u @ c # v" and u: "c \<notin> set u" by (meson split_list_first)
    then have "seg = u \<or> seg \<in> set (split_on c v)"
      using less.prems by (auto simp: split_on_append split_on_none)
    then show ?thesis
    proof
      assume "seg = u"
      then show ?thesis using t u by (intro conjI exI [of _ "c # v"]) auto
    next
      assume "seg \<in> set (split_on c v)"
      then obtain b where "c \<notin> set seg" "b = [] \<or> hd b = c" "v = seg @ b \<or> (\<exists>a. v = a @ c # seg @ b)"
        using less.hyps [of v] t by auto
      then show ?thesis using t by (intro conjI exI [of _ b]) auto
    qed
  qed
qed

lemma segment_between:
  assumes "c \<notin> set u" and "b = [] \<or> hd b = c"
  shows "u \<in> set (split_on c (a @ c # u @ b))"
proof (cases b)
  case Nil
  then show ?thesis using assms(1) by (simp add: split_on_append split_on_none)
next
  case (Cons x b')
  then have "split_on c (u @ b) = u # split_on c b'"
    using assms split_on_append [of c u b'] by (simp add: split_on_none)
  then show ?thesis by (simp add: split_on_append)
qed

lemma ascii_lower_slash:
  "ascii_lower c = CHR ''/'' \<longleftrightarrow> c = CHR ''/''" "ascii_lower c = CHR ''?'' \<longleftrightarrow> c = CHR ''?''"
  "ascii_lower c = CHR ''#'' \<longleftrightarrow> c = CHR ''#''"
proof -
  have "ascii_lower c = d \<longleftrightarrow> c = d" if "code_of d < 65" for d
  proof (cases "65 \<le> code_of c \<and> code_of c \<le> 90")
    case True
    then have "code_of (ascii_lower c) \<noteq> code_of d" "code_of c \<noteq> code_of d"
      using that by (simp_all add: code_of_ascii_lower)
    then show ?thesis by metis
  next
    case False
    then have "ascii_lower c = c" unfolding ascii_lower_def by (rule if_not_P)
    then show ?thesis by simp
  qed
  then show "ascii_lower c = CHR ''/'' \<longleftrightarrow> c = CHR ''/''" "ascii_lower c = CHR ''?'' \<longleftrightarrow> c = CHR ''?''"
    "ascii_lower c = CHR ''#'' \<longleftrightarrow> c = CHR ''#''"
    by (simp_all add: code_of_def)
qed

lemma segment_char_lower [simp]: "segment_char (ascii_lower c) = segment_char c"
  by (simp add: segment_char_def ascii_lower_slash)

lemma pattern_search_casefold:
  assumes "pattern_search health_route_pattern t"
  shows "pattern_search health_route_pattern (casefold t)"
proof -
  obtain a p w q r where t: "t = a @ CHR ''/'' # p @ w @ q @ r" "w \<in> {''health'', ''ready''}"
      "list_all segment_char p" "list_all segment_char q" "r = [] \<or> r = [CHR 0x0A] \<or> \<not> segment_char (hd r)"
    using assms unfolding health_pattern_iff by blast
  have "casefold w = w" using t(2) by (auto simp: casefold_def ascii_lower_def code_of_def)
  then have "casefold t = casefold a @ CHR ''/'' # casefold p @ w @ casefold q @ casefold r"
    using t(1) by (simp add: casefold_def ascii_lower_slash)
  moreover have "casefold r = [] \<or> casefold r = [CHR 0x0A] \<or> \<not> segment_char (hd (casefold r))"
  proof -
    have "casefold [CHR 0x0A] = [CHR 0x0A]" by code_simp
    then show ?thesis using t(5) by (cases r) (auto simp: casefold_def)
  qed
  ultimately show ?thesis
    unfolding health_pattern_iff using t(2-4)
    by (intro exI [of _ "casefold a"] exI [of _ "casefold p"] exI [of _ w] exI [of _ "casefold q"]
          exI [of _ "casefold r"]) (simp add: casefold_def list_all_iff)
qed

text \<open>On lower-case paths the segments decide.\<close>

lemma pattern_has_segment:
  assumes "CHR ''?'' \<notin> set t" and "CHR ''#'' \<notin> set t" and "pattern_search health_route_pattern t"
  shows "\<exists>seg \<in> set (split_on (CHR ''/'') t). substring_of ''health'' seg \<or> substring_of ''ready'' seg"
proof -
  obtain a p w q r where t: "t = a @ CHR ''/'' # p @ w @ q @ r" "w \<in> {''health'', ''ready''}"
      "list_all segment_char p" "list_all segment_char q" "r = [] \<or> r = [CHR 0x0A] \<or> \<not> segment_char (hd r)"
    using assms(3) unfolding health_pattern_iff by blast
  define line where "line = (if r = [CHR 0x0A] then r else [])"
  obtain b where b: "r = line @ b" "b = [] \<or> hd b = CHR ''/''"
  proof (cases "r = [] \<or> r = [CHR 0x0A]")
    case True
    then show ?thesis using that [of "[]"] by (auto simp: line_def)
  next
    case False
    then have "hd r \<in> set t" "\<not> segment_char (hd r)" using t(1,5) by auto
    then have "hd r = CHR ''/''" using assms(1,2) by (auto simp: segment_char_def)
    then show ?thesis using that [of r] False by (simp add: line_def)
  qed
  have "list_all segment_char w" "list_all segment_char line"
    using t(2) by (auto simp: segment_char_def line_def)
  then have "list_all segment_char (p @ w @ q @ line)" using t(3,4) by simp
  then have "CHR ''/'' \<notin> set (p @ w @ q @ line)" unfolding list_all_iff segment_char_def by blast
  then have "p @ w @ q @ line \<in> set (split_on (CHR ''/'') t)"
    using segment_between [OF _ b(2), of "p @ w @ q @ line" a] t(1) b(1) by simp
  moreover have "substring_of w (p @ w @ q @ line)"
    unfolding substring_of_def by (metis sublist_appendI)
  ultimately show ?thesis using t(2) by blast
qed

lemma segment_has_pattern:
  assumes "CHR ''?'' \<notin> set t" and "CHR ''#'' \<notin> set t" and "t = CHR ''/'' # t'"
    and "\<exists>seg \<in> set (split_on (CHR ''/'') t). substring_of ''health'' seg \<or> substring_of ''ready'' seg"
  shows "pattern_search health_route_pattern t"
proof -
  obtain seg w where seg: "seg \<in> set (split_on (CHR ''/'') t)" "sublist w seg" "w \<in> {''health'', ''ready''}"
    using assms(4) by (auto simp: substring_of_def)
  then obtain b where b: "CHR ''/'' \<notin> set seg" "b = [] \<or> hd b = CHR ''/''"
      "t = seg @ b \<or> (\<exists>a. t = a @ CHR ''/'' # seg @ b)"
    using split_on_member by blast
  have "seg \<noteq> []" using seg(2,3) by auto
  then have "t \<noteq> seg @ b" using b(1) assms(3) by (cases seg) auto
  then obtain a where a: "t = a @ CHR ''/'' # seg @ b" using b(3) by blast
  obtain p q where pq: "seg = p @ w @ q" using seg(2) by (auto simp: sublist_def)
  have all: "list_all segment_char seg"
    using a assms(1,2) b(1) by (auto simp: list_all_iff segment_char_def)
  have "t = a @ CHR ''/'' # p @ w @ q @ b" "list_all segment_char p" "list_all segment_char q"
    using a all by (simp_all add: pq)
  moreover have "b = [] \<or> \<not> segment_char (hd b)" using b(2) by (auto simp: segment_char_def)
  ultimately show ?thesis unfolding health_pattern_iff using seg(3) by blast
qed

lemma pattern_on_paths:
  assumes "CHR ''?'' \<notin> set t" and "CHR ''#'' \<notin> set t" and "t = CHR ''/'' # t'"
  shows "pattern_search health_route_pattern t \<longleftrightarrow>
    (\<exists>seg \<in> set (split_on (CHR ''/'') t). substring_of ''health'' seg \<or> substring_of ''ready'' seg)"
  using pattern_has_segment [OF assms(1,2)] segment_has_pattern [OF assms] by blast

section \<open>Properties\<close>

text \<open>
  C30 The filter on route templates and the URL pattern agree on paths up to the case of letters: a
  path is a health route exactly when the pattern finds its lower-case form, so a path that the
  pattern finds is always one; the pattern itself is case-sensitive.
\<close>

theorem health_filters_agree:
  assumes "startswith path ''/''" and "CHR ''?'' \<notin> set path" and "CHR ''#'' \<notin> set path"
  shows "(is_health_route path \<longleftrightarrow> pattern_search health_route_pattern (casefold path)) \<and>
    (pattern_search health_route_pattern path \<longrightarrow> is_health_route path)"
proof -
  obtain rest where path: "path = CHR ''/'' # rest" using assms(1) by (auto simp: startswith_def prefix_def)
  have "CHR ''?'' \<notin> set (casefold path)" "CHR ''#'' \<notin> set (casefold path)"
    using assms(2,3) by (auto simp: casefold_def ascii_lower_slash image_iff dest: sym)
  then have "is_health_route path \<longleftrightarrow> pattern_search health_route_pattern (casefold path)"
    using pattern_on_paths [of "casefold path" "casefold rest"] path
    by (simp add: is_health_route_def list_ex_iff Bex_def casefold_def ascii_lower_slash)
  then show ?thesis using pattern_search_casefold by blast
qed

theorem health_filters_agree_witness:
  "is_health_route ''/API/Ready'' \<and> \<not> pattern_search health_route_pattern ''/API/Ready'' \<and>
   \<not> is_health_route ''/items/{result}''"
proof -
  have "pattern_search health_route_pattern (casefold ''/API/Ready'')"
    "\<not> pattern_search health_route_pattern ''/API/Ready''"
    "\<not> pattern_search health_route_pattern (casefold ''/items/{result}'')"
    by code_simp+
  then show ?thesis
    using health_filters_agree [of "''/API/Ready''"] health_filters_agree [of "''/items/{result}''"]
    by (simp add: startswith_def)
qed

text \<open>
  The pattern is searched in the URL of a request, the filter looks at the template of its route: a
  parameter can bring a request under the pattern whose route is counted.
\<close>

lemma parameters_can_look_like_health:
  "\<not> is_health_route ''/items/{result}'' \<and> pattern_search health_route_pattern ''/items/already-seen''"
  by code_simp

end
