(* ===== verification/Telemetry.thy ===== *)
theory Telemetry
  imports HealthRoutes AuditTrail "HOL-Library.Char_ord" "HOL-Library.List_Lexorder"
    "HOL-Library.Product_Lexorder"
begin

text \<open>
  Telemetry of the process (\<open>core/telemetry.py\<close>): its set-up and shutdown over the telemetry library,
  the routes that are counted, the counter of request outcomes, and the identifiers of the current
  span. The middleware that feeds the counter is in \<open>HttpMetrics\<close>.
\<close>

section \<open>Identifiers of the current span\<close>

record TracingSpan = SpanContext +
  sp_trace_flags :: nat

definition get_current_trace_id :: "TracingSpan \<Rightarrow> string option" where
  "get_current_trace_id context =
     (if \<not> sp_is_valid context then None else Some (hex_text 32 (sp_trace_id context)))"

definition get_current_traceparent :: "TracingSpan \<Rightarrow> string option" where
  "get_current_traceparent context =
     (if \<not> sp_is_valid context then None
      else Some (''00-'' @ hex_text 32 (sp_trace_id context) @ ''-'' @ hex_text 16 (sp_span_id context) @ ''-'' @
                 hex_text 2 (sp_trace_flags context)))"

section \<open>Routes\<close>

text \<open>
  A route of the framework: an API route, with the identity of its object; a router that was included
  and lists its routes with their full paths; or another kind of route. A context may belong to a
  route of another kind, too.
\<close>

record APIRoute =
  ar_id :: nat
  ar_path :: string
  ar_methods :: "string list option"

datatype app_route =
    ApiRoute APIRoute
  | IncludedRouter "(APIRoute option \<times> string) list"
  | OtherRoute

type_synonym route_methods = "(string \<times> nat, string) dict"

definition HTTP_METHODS :: "string set" where
  "HTTP_METHODS = {''DELETE'', ''GET'', ''PATCH'', ''POST'', ''PUT''}"

definition add_method :: "APIRoute \<Rightarrow> string \<Rightarrow> string \<Rightarrow> route_methods \<Rightarrow> route_methods" where
  "add_method route path m route_methods =
     (if m \<in> HTTP_METHODS then dict_set (m, ar_id route) path route_methods else route_methods)"

definition methods_of :: "APIRoute \<Rightarrow> string list" where
  "methods_of route = (case ar_methods route of None \<Rightarrow> [] | Some methods \<Rightarrow> methods)"

definition add_route_methods :: "route_methods \<Rightarrow> APIRoute \<Rightarrow> string \<Rightarrow> route_methods" where
  "add_route_methods route_methods route path =
     (if is_health_route path then route_methods
      else fold (add_method route path) (methods_of route) route_methods)"

fun add_context :: "APIRoute option \<times> string \<Rightarrow> route_methods \<Rightarrow> route_methods" where
  "add_context (None, path) route_methods = route_methods"
| "add_context (Some original_route, path) route_methods = add_route_methods route_methods original_route path"

fun add_app_route :: "app_route \<Rightarrow> route_methods \<Rightarrow> route_methods" where
  "add_app_route (ApiRoute route) route_methods = add_route_methods route_methods route (ar_path route)"
| "add_app_route (IncludedRouter contexts) route_methods = fold add_context contexts route_methods"
| "add_app_route OtherRoute route_methods = route_methods"

definition eligible_route_methods :: "app_route list \<Rightarrow> route_methods" where
  "eligible_route_methods routes = fold add_app_route routes []"

section \<open>The counter of outcomes\<close>

text \<open>An addition to the counter: the amount and the attributes.\<close>

type_synonym attributes = "(string, string) dict"
type_synonym addition = "int \<times> attributes"

definition outcomes :: "(string, string) dict" where
  "outcomes =
     [(''1xx'', ''informational''), (''2xx'', ''success''), (''3xx'', ''redirect''),
      (''4xx'', ''client_error''), (''5xx'', ''server_error'')]"

definition outcome_attributes :: "string \<Rightarrow> string \<Rightarrow> string \<Rightarrow> attributes" where
  "outcome_attributes m route status_class =
     [(''http.request.method'', m), (''http.route'', route), (''http.response.status_class'', status_class),
      (''outcome'', case map_of outcomes status_class of None \<Rightarrow> ''unknown'' | Some v \<Rightarrow> v)]"

definition status_class_of :: "int \<Rightarrow> string" where
  "status_class_of status_code =
     (if 100 \<le> status_code \<and> status_code \<le> 599 then int_text (status_code div 100) @ ''xx'' else ''unknown'')"

definition method_routes :: "route_methods \<Rightarrow> (string \<times> string) list" where
  "method_routes route_methods = sort (remdups (map (\<lambda>((m, _), route). (m, route)) route_methods))"

definition initial_additions :: "route_methods \<Rightarrow> addition list" where
  "initial_additions route_methods =
     concat (map (\<lambda>(m, route). [(0, outcome_attributes m route ''4xx''), (0, outcome_attributes m route ''5xx'')])
       (method_routes route_methods))"

definition outcome_additions :: "route_methods \<Rightarrow> string \<Rightarrow> APIRoute \<Rightarrow> int \<Rightarrow> addition list" where
  "outcome_additions route_methods m route status_code =
     (case map_of route_methods (m, ar_id route) of
        None \<Rightarrow> []
      | Some route_path \<Rightarrow> [(1, outcome_attributes m route_path (status_class_of status_code))])"

section \<open>The runtime\<close>

text \<open>
  What is asked of the telemetry library. Its answer to a call is the argument \<open>perform\<close>: a program
  over the state of the world that may raise.
\<close>

record metric_view =
  vw_instrument_name :: string
  vw_attribute_keys :: "string list"

definition NATIVE_HTTP_VIEWS :: "metric_view list" where
  "NATIVE_HTTP_VIEWS =
     [\<lparr> vw_instrument_name = ''http.server.active_requests'', vw_attribute_keys = [''http.method''] \<rparr>,
      \<lparr> vw_instrument_name = ''http.server.duration'',
        vw_attribute_keys = [''http.method'', ''http.status_code'', ''http.target''] \<rparr>,
      \<lparr> vw_instrument_name = ''http.server.response.size'',
        vw_attribute_keys = [''http.method'', ''http.status_code'', ''http.target''] \<rparr>]"

record TelemetryRuntime =
  te_resource :: attributes
  te_metric_readers :: nat
  te_views :: "metric_view list"
  te_is_shutdown :: bool

record fastapi_options =
  fo_excluded_urls :: pattern
  fo_capture_headers :: "string list"
  fo_sanitize_fields :: "string list"
  fo_exclude_spans :: "string list"

definition fastapi_instrumentation :: fastapi_options where
  "fastapi_instrumentation =
     \<lparr> fo_excluded_urls = health_route_pattern,
       fo_capture_headers = [''traceparent'', ''tracestate'', ''x-correlation-id'', ''x-request-id'', ''x-demo-fault''],
       fo_sanitize_fields = [''authorization'', ''cookie'', ''set-cookie'', ''x-api-key''],
       fo_exclude_spans = [''receive'', ''send''] \<rparr>"

datatype library_call =
    CreateResource attributes
  | CreateMetricReader
  | CreateProviders attributes nat "metric_view list"
  | AddSpanExporter
  | SetTracerProvider
  | SetMeterProvider
  | InstrumentHttpx
  | CreateCounter string
  | CounterAdd addition
  | AddOutcomeMiddleware
  | InstrumentFastApi fastapi_options
  | ShutdownMeterProvider
  | ShutdownTracerProvider

record 'w telemetry_state =
  tl_runtime :: "TelemetryRuntime option"
  tl_httpx_instrumented :: bool
  tl_instrumented :: bool
  tl_calls :: "library_call list"
  tl_world :: 'w

type_synonym 'w telemetry_library = "library_call \<Rightarrow> ('w, unit) prog"
type_synonym ('w, 'a) telemetry_prog = "('w telemetry_state, 'a) prog"

definition perform_call :: "'w telemetry_library \<Rightarrow> library_call \<Rightarrow> ('w, unit) telemetry_prog" where
  "perform_call lib call =
     (\<lambda>s. case lib call (tl_world s) of
        (r, w) \<Rightarrow> (r, s\<lparr> tl_calls := tl_calls s @ [call], tl_world := w \<rparr>))"

fun perform_calls :: "'w telemetry_library \<Rightarrow> library_call list \<Rightarrow> ('w, unit) telemetry_prog" where
  "perform_calls lib [] = ret ()"
| "perform_calls lib (call # calls) = bindM (perform_call lib call) (\<lambda>_. perform_calls lib calls)"

definition create_telemetry_runtime ::
    "'w telemetry_library \<Rightarrow> attributes \<Rightarrow> nat \<Rightarrow> ('w, TelemetryRuntime) telemetry_prog" where
  "create_telemetry_runtime lib resource metric_readers =
     bindM (perform_call lib (CreateProviders resource metric_readers NATIVE_HTTP_VIEWS)) (\<lambda>_.
     ret \<lparr> te_resource = resource, te_metric_readers = metric_readers, te_views = NATIVE_HTTP_VIEWS,
           te_is_shutdown = False \<rparr>)"

text \<open>The method changes the object it is called on; the result is the object after the call.\<close>

definition shutdown_runtime ::
    "'w telemetry_library \<Rightarrow> TelemetryRuntime \<Rightarrow> ('w, TelemetryRuntime) telemetry_prog" where
  "shutdown_runtime lib runtime =
     (if te_is_shutdown runtime then ret runtime
      else bindM (perform_calls lib [ShutdownMeterProvider, ShutdownTracerProvider]) (\<lambda>_.
           ret (runtime\<lparr> te_is_shutdown := True \<rparr>)))"

text \<open>The environment variables, by name.\<close>

type_synonym environment = "string \<Rightarrow> string option"

definition getenv :: "environment \<Rightarrow> string \<Rightarrow> string \<Rightarrow> string" where
  "getenv env k dflt = (case env k of None \<Rightarrow> dflt | Some v \<Rightarrow> v)"

definition telemetry_resource :: "environment \<Rightarrow> attributes" where
  "telemetry_resource env =
     [(''service.name'', getenv env ''OTEL_SERVICE_NAME'' ''movie-reservation-agent''),
      (''service.version'', getenv env ''SERVICE_VERSION'' ''unknown''),
      (''deployment.environment.name'', getenv env ''DEPLOYMENT_ENVIRONMENT'' ''local'')]"

definition exports :: "environment \<Rightarrow> bool" where
  "exports env \<longleftrightarrow> getenv env ''OTEL_EXPORTER_OTLP_ENDPOINT'' [] \<noteq> []"

definition create_process_runtime :: "'w telemetry_library \<Rightarrow> environment \<Rightarrow> ('w, unit) telemetry_prog" where
  "create_process_runtime lib env =
     bindM (perform_call lib (CreateResource (telemetry_resource env))) (\<lambda>_.
     bindM (if exports env then perform_call lib CreateMetricReader else ret ()) (\<lambda>_.
     bindM (create_telemetry_runtime lib (telemetry_resource env) (if exports env then 1 else 0)) (\<lambda>runtime.
     bindM (modify (\<lambda>s. s\<lparr> tl_runtime := Some runtime \<rparr>)) (\<lambda>_.
     bindM (if exports env then perform_call lib AddSpanExporter else ret ()) (\<lambda>_.
     perform_calls lib [SetTracerProvider, SetMeterProvider])))))"

definition configure_telemetry :: "'w telemetry_library \<Rightarrow> environment \<Rightarrow> ('w, TelemetryRuntime) telemetry_prog" where
  "configure_telemetry lib env =
     bindM (gets tl_runtime) (\<lambda>configured.
     bindM (if configured = None then create_process_runtime lib env else ret ()) (\<lambda>_.
     bindM (gets tl_httpx_instrumented) (\<lambda>httpx_instrumented.
     bindM (if \<not> httpx_instrumented
            then bindM (perform_call lib InstrumentHttpx) (\<lambda>_. modify (\<lambda>s. s\<lparr> tl_httpx_instrumented := True \<rparr>))
            else ret ()) (\<lambda>_.
     gets (the \<circ> tl_runtime)))))"

definition HTTP_REQUEST_METRIC_NAME :: string where
  "HTTP_REQUEST_METRIC_NAME = ''movie_reservation_agent.http.server.requests''"

definition new_outcome_metrics :: "'w telemetry_library \<Rightarrow> route_methods \<Rightarrow> ('w, unit) telemetry_prog" where
  "new_outcome_metrics lib route_methods =
     perform_calls lib (CreateCounter HTTP_REQUEST_METRIC_NAME # map CounterAdd (initial_additions route_methods))"

definition instrument_for_telemetry ::
    "'w telemetry_library \<Rightarrow> environment \<Rightarrow> app_route list \<Rightarrow> TelemetryRuntime option \<Rightarrow> ('w, unit) telemetry_prog" where
  "instrument_for_telemetry lib env routes runtime =
     bindM (gets tl_instrumented) (\<lambda>instrumented.
     if instrumented then ret ()
     else
       bindM (case runtime of Some runtime \<Rightarrow> ret runtime | None \<Rightarrow> configure_telemetry lib env) (\<lambda>configured_runtime.
       let route_methods = eligible_route_methods routes in
       bindM (new_outcome_metrics lib route_methods) (\<lambda>_.
       bindM (perform_calls lib [AddOutcomeMiddleware, InstrumentFastApi fastapi_instrumentation]) (\<lambda>_.
       modify (\<lambda>s. s\<lparr> tl_instrumented := True \<rparr>)))))"

section \<open>The route table\<close>

text \<open>All registrations of a route under a path, in the order of the application.\<close>

fun registrations :: "app_route \<Rightarrow> (APIRoute \<times> string) list" where
  "registrations (ApiRoute route) = [(route, ar_path route)]"
| "registrations (IncludedRouter contexts) =
     concat (map (\<lambda>(original_route, path). case original_route of None \<Rightarrow> [] | Some route \<Rightarrow> [(route, path)]) contexts)"
| "registrations OtherRoute = []"

definition counts_for :: "string \<Rightarrow> nat \<Rightarrow> APIRoute \<times> string \<Rightarrow> bool" where
  "counts_for m i registration \<longleftrightarrow>
     (case registration of (route, path) \<Rightarrow>
        ar_id route = i \<and> m \<in> set (methods_of route) \<and> m \<in> HTTP_METHODS \<and> \<not> is_health_route path)"

lemma fold_add_context:
  "fold add_context contexts rm =
     fold (\<lambda>(route, path) rm. add_route_methods rm route path) (registrations (IncludedRouter contexts)) rm"
proof (induction contexts arbitrary: rm)
  case (Cons x contexts)
  obtain v path where x: "x = (v, path)" by (cases x)
  then show ?case using Cons by (cases v) auto
qed simp

lemma eligible_registrations:
  "eligible_route_methods routes =
     fold (\<lambda>(route, path) rm. add_route_methods rm route path) (concat (map registrations routes)) []"
proof -
  have "fold add_app_route routes rm =
      fold (\<lambda>(route, path) rm. add_route_methods rm route path) (concat (map registrations routes)) rm" for rm
  proof (induction routes arbitrary: rm)
    case (Cons r routes)
    then show ?case by (cases r) (simp_all add: fold_add_context del: registrations.simps(2))
  qed simp
  then show ?thesis by (simp add: eligible_route_methods_def)
qed

lemma map_of_add_methods:
  "map_of (fold (add_method route path) ms rm) (m, i) =
     (if ar_id route = i \<and> m \<in> set ms \<and> m \<in> HTTP_METHODS then Some path else map_of rm (m, i))"
  by (induction ms arbitrary: rm) (auto simp: add_method_def dict_simps)

lemma map_of_add_route_methods:
  "map_of (add_route_methods rm route path) (m, i) =
     (if counts_for m i (route, path) then Some path else map_of rm (m, i))"
  by (auto simp: add_route_methods_def counts_for_def map_of_add_methods)

lemma map_of_registrations:
  "map_of (fold (\<lambda>(route, path) rm. add_route_methods rm route path) regs rm) (m, i) =
     (case List.find (counts_for m i) (rev regs) of None \<Rightarrow> map_of rm (m, i) | Some (route, path) \<Rightarrow> Some path)"
  by (induction regs rule: rev_induct) (auto simp: map_of_add_route_methods split: prod.split)

lemma distinct_add_methods:
  "distinct (dict_keys rm) \<Longrightarrow> distinct (dict_keys (fold (add_method route path) ms rm))"
  by (induction ms arbitrary: rm) (auto simp: add_method_def distinct_dict_set)

lemma distinct_eligible: "distinct (dict_keys (eligible_route_methods routes))"
proof -
  have "distinct (dict_keys rm) \<Longrightarrow>
      distinct (dict_keys (fold (\<lambda>(route, path) rm. add_route_methods rm route path) regs rm))" for regs rm
    by (induction regs arbitrary: rm) (auto simp: add_route_methods_def distinct_add_methods)
  then show ?thesis by (simp add: eligible_registrations)
qed

lemma set_method_routes:
  assumes "distinct (dict_keys rm)"
  shows "(m, p) \<in> set (method_routes rm) \<longleftrightarrow> (\<exists>i. map_of rm (m, i) = Some p)"
  using assms by (force simp: method_routes_def)

lemma outcome_attributes_inject:
  "outcome_attributes m p c = outcome_attributes m' p' c' \<longleftrightarrow> m = m' \<and> p = p' \<and> c = c'"
  by (auto simp: outcome_attributes_def)

lemma set_initial_additions:
  "set (initial_additions rm) =
     {(0, outcome_attributes m p c) | m p c. (m, p) \<in> set (method_routes rm) \<and> c \<in> {''4xx'', ''5xx''}}"
  by (auto simp: initial_additions_def)

lemma distinct_initial_additions: "distinct (initial_additions rm)"
proof -
  have "distinct (concat (map (\<lambda>(m, route). [(0::int, outcome_attributes m route ''4xx''),
      (0, outcome_attributes m route ''5xx'')]) mrs))" if "distinct mrs" for mrs
    using that by (induction mrs) (auto simp: outcome_attributes_inject)
  then show ?thesis by (simp add: initial_additions_def method_routes_def)
qed

lemma eligible_lookup:
  "map_of (eligible_route_methods routes) (m, i) =
     map_option snd (List.find (counts_for m i) (rev (concat (map registrations routes))))"
  unfolding eligible_registrations map_of_registrations by (simp split: option.split)

text \<open>
  The table of counted routes is exact, and so is the counter at the start. A method and route are
  counted under a path exactly when that is the last path under which the route is registered for the
  method, the path is no health path and the method is one of the five; and the counter starts with
  one zero for client errors and one for server errors of every counted method and path, and nothing
  else.
\<close>

theorem counted_routes_are_exact:
  "map_of (eligible_route_methods routes) (m, i) =
     map_option snd (List.find (counts_for m i) (rev (concat (map registrations routes)))) \<and>
   distinct (initial_additions (eligible_route_methods routes)) \<and>
   set (initial_additions (eligible_route_methods routes)) =
     {(0, outcome_attributes m' p c) | m' p c.
        c \<in> {''4xx'', ''5xx''} \<and> (\<exists>j. map_of (eligible_route_methods routes) (m', j) = Some p)}"
proof (intro conjI)
  show "map_of (eligible_route_methods routes) (m, i) =
      map_option snd (List.find (counts_for m i) (rev (concat (map registrations routes))))"
    by (rule eligible_lookup)
  show "distinct (initial_additions (eligible_route_methods routes))" by (rule distinct_initial_additions)
  show "set (initial_additions (eligible_route_methods routes)) =
      {(0, outcome_attributes m' p c) | m' p c.
        c \<in> {''4xx'', ''5xx''} \<and> (\<exists>j. map_of (eligible_route_methods routes) (m', j) = Some p)}"
    unfolding set_initial_additions set_method_routes [OF distinct_eligible] by blast
qed

lemma counted_route:
  assumes "map_of (eligible_route_methods routes) (m, i) = Some p"
  shows "m \<in> HTTP_METHODS \<and> \<not> is_health_route p \<and>
    (\<exists>route. (route, p) \<in> set (concat (map registrations routes)) \<and> ar_id route = i)"
proof -
  obtain route where "List.find (counts_for m i) (rev (concat (map registrations routes))) = Some (route, p)"
    using assms eligible_lookup by auto
  then have "(route, p) \<in> set (concat (map registrations routes)) \<and> counts_for m i (route, p)"
    by (metis find_Some_in set_rev)
  then show ?thesis by (auto simp: counts_for_def)
qed

section \<open>The set-up of a process\<close>

text \<open>The applications and other callers of one process, in any order.\<close>

datatype telemetry_op =
    Configure environment
  | Instrument environment "app_route list" "TelemetryRuntime option"
  | NewApp

definition telemetry_step :: "'w telemetry_library \<Rightarrow> telemetry_op \<Rightarrow> 'w telemetry_state \<Rightarrow> 'w telemetry_state" where
  "telemetry_step lib op s =
     (case op of
        Configure env \<Rightarrow> snd (configure_telemetry lib env s)
      | Instrument env routes runtime \<Rightarrow> snd (instrument_for_telemetry lib env routes runtime s)
      | NewApp \<Rightarrow> s\<lparr> tl_instrumented := False \<rparr>)"

definition new_process :: "'w \<Rightarrow> 'w telemetry_state" where
  "new_process w =
     \<lparr> tl_runtime = None, tl_httpx_instrumented = False, tl_instrumented = False, tl_calls = [], tl_world = w \<rparr>"

text \<open>The calls that set the providers of the process, and how far they have got.\<close>

definition setters :: "library_call list \<Rightarrow> library_call list" where
  "setters = filter (\<lambda>call. call \<in> {SetTracerProvider, SetMeterProvider})"

definition stage :: "TelemetryRuntime option \<Rightarrow> library_call list \<Rightarrow> 'w telemetry_state \<Rightarrow> bool" where
  "stage runtime calls s \<longleftrightarrow> tl_runtime s = runtime \<and> setters (tl_calls s) = calls"

definition providers_ok :: "'w telemetry_state \<Rightarrow> bool" where
  "providers_ok s \<longleftrightarrow>
     stage None [] s \<or>
     (\<exists>runtime. stage (Some runtime) [] s \<or> stage (Some runtime) [SetTracerProvider] s \<or>
                stage (Some runtime) [SetTracerProvider, SetMeterProvider] s)"

lemma providers_okI:
  "stage None [] s \<Longrightarrow> providers_ok s"
  "stage (Some runtime) [] s \<Longrightarrow> providers_ok s"
  "stage (Some runtime) [SetTracerProvider] s \<Longrightarrow> providers_ok s"
  "stage (Some runtime) [SetTracerProvider, SetMeterProvider] s \<Longrightarrow> providers_ok s"
  by (auto simp: providers_ok_def)

lemma valid_perform_call:
  assumes "\<And>s w. P s \<Longrightarrow> Q (s\<lparr> tl_calls := tl_calls s @ [call], tl_world := w \<rparr>)"
  shows "valid P (perform_call lib call) (\<lambda>_. Q) (\<lambda>_. Q)"
  using assms by (auto simp: valid_def perform_call_def split: prod.splits sum.splits)

text \<open>Programs that call no setter and leave the runtime keep the stage.\<close>

definition keeps :: "('w, 'a) telemetry_prog \<Rightarrow> bool" where
  "keeps m \<longleftrightarrow> (\<forall>runtime calls. valid (stage runtime calls) m (\<lambda>_. stage runtime calls) (\<lambda>_. stage runtime calls))"

lemma keepsD: "keeps m \<Longrightarrow> valid (stage runtime calls) m (\<lambda>_. stage runtime calls) (\<lambda>_. stage runtime calls)"
  by (simp add: keeps_def)

lemma keeps_ret: "keeps (ret x)"
  by (simp add: keeps_def valid_ret)

lemma keeps_gets: "keeps (gets f)"
  by (simp add: keeps_def valid_gets)

lemma keeps_bindM: "keeps m \<Longrightarrow> (\<And>x. keeps (f x)) \<Longrightarrow> keeps (bindM m f)"
  unfolding keeps_def by (intro allI valid_bindM [where R = "\<lambda>_. stage runtime calls" for runtime calls]) blast+

lemma keeps_if: "(b \<Longrightarrow> keeps m) \<Longrightarrow> (\<not> b \<Longrightarrow> keeps n) \<Longrightarrow> keeps (if b then m else n)"
  by simp

lemma keeps_flags:
  "keeps (modify (\<lambda>s. s\<lparr> tl_httpx_instrumented := b \<rparr>))" "keeps (modify (\<lambda>s. s\<lparr> tl_instrumented := b \<rparr>))"
  by (auto simp: keeps_def stage_def intro: valid_modify)

lemma keeps_call: "setters [call] = [] \<Longrightarrow> keeps (perform_call lib call)"
  unfolding keeps_def by (intro allI valid_perform_call) (simp add: stage_def setters_def)

lemma keeps_calls: "setters calls = [] \<Longrightarrow> keeps (perform_calls lib calls)"
proof (induction calls)
  case (Cons call calls)
  then have "setters [call] = []" "setters calls = []" by (auto simp: setters_def split: if_splits)
  then show ?case using Cons.IH by (auto intro: keeps_bindM keeps_call)
qed (simp add: keeps_ret)

lemmas keeps_intros = keeps_ret keeps_gets keeps_bindM keeps_if keeps_flags keeps_call keeps_calls

lemma keeps_create_runtime: "keeps (create_telemetry_runtime lib resource n)"
  unfolding create_telemetry_runtime_def by (intro keeps_intros) (simp add: setters_def)

lemma keeps_outcome_metrics: "keeps (new_outcome_metrics lib rm)"
  unfolding new_outcome_metrics_def by (intro keeps_calls) (auto simp: setters_def filter_empty_conv)

lemma valid_setter:
  "valid (stage runtime calls) (perform_call lib call)
     (\<lambda>_. stage runtime (calls @ setters [call])) (\<lambda>_. stage runtime (calls @ setters [call]))"
  by (rule valid_perform_call) (auto simp: stage_def setters_def)

lemma keeps_then:
  fixes m :: "('w, 'a) telemetry_prog"
  assumes "keeps m" and "\<And>x. valid (stage runtime calls) (f x) Q (\<lambda>_. providers_ok)"
    and "\<And>s :: 'w telemetry_state. stage runtime calls s \<Longrightarrow> providers_ok s"
  shows "valid (stage runtime calls) (bindM m f) Q (\<lambda>_. providers_ok)"
proof (rule valid_bindM)
  show "valid (stage runtime calls) m (\<lambda>_. stage runtime calls) (\<lambda>_. providers_ok)"
    by (rule valid_weaken [OF keepsD [OF assms(1)]]) (auto intro: assms(3))
qed (rule assms(2))

lemma valid_set_providers:
  "valid (stage (Some runtime) []) (perform_calls lib [SetTracerProvider, SetMeterProvider])
     (\<lambda>_. stage (Some runtime) [SetTracerProvider, SetMeterProvider]) (\<lambda>_. providers_ok)"
proof -
  have "valid (stage (Some runtime) []) (perform_call lib SetTracerProvider)
      (\<lambda>_. stage (Some runtime) [SetTracerProvider]) (\<lambda>_. providers_ok)"
    by (rule valid_weaken [OF valid_setter]) (auto simp: setters_def intro: providers_okI)
  moreover have "valid (stage (Some runtime) [SetTracerProvider]) (perform_call lib SetMeterProvider)
      (\<lambda>_. stage (Some runtime) [SetTracerProvider, SetMeterProvider]) (\<lambda>_. providers_ok)"
    by (rule valid_weaken [OF valid_setter]) (auto simp: setters_def intro: providers_okI)
  ultimately show ?thesis
    unfolding perform_calls.simps ret_bindM by (rule valid_bindM [OF _ valid_bindM [OF _ valid_ret]]) simp
qed

lemma valid_create_process_runtime:
  "valid (stage None []) (create_process_runtime lib env)
     (\<lambda>_ s. \<exists>runtime. stage (Some runtime) [SetTracerProvider, SetMeterProvider] s) (\<lambda>_. providers_ok)"
proof -
  have set: "valid (stage (Some runtime) []) (bindM (if exports env then perform_call lib AddSpanExporter else ret ())
      (\<lambda>_. perform_calls lib [SetTracerProvider, SetMeterProvider]))
      (\<lambda>_ s. \<exists>runtime. stage (Some runtime) [SetTracerProvider, SetMeterProvider] s) (\<lambda>_. providers_ok)" for runtime
  proof (rule keeps_then)
    show "keeps (if exports env then perform_call lib AddSpanExporter else ret ())"
      by (intro keeps_intros) (simp add: setters_def)
    show "valid (stage (Some runtime) []) (perform_calls lib [SetTracerProvider, SetMeterProvider])
        (\<lambda>_ s. \<exists>runtime. stage (Some runtime) [SetTracerProvider, SetMeterProvider] s) (\<lambda>_. providers_ok)"
      by (rule valid_weaken [OF valid_set_providers]) auto
  qed (rule providers_okI(2))
  have "valid (stage None []) (modify (\<lambda>s. s\<lparr> tl_runtime := Some runtime \<rparr>))
      (\<lambda>_. stage (Some runtime) []) (\<lambda>_. providers_ok)" for runtime
    by (rule valid_modify) (simp add: stage_def)
  note rest = valid_bindM [OF this set]
  show ?thesis
    unfolding create_process_runtime_def
    by (intro keeps_then rest keeps_create_runtime keeps_intros providers_okI(1)) (auto simp: setters_def)
qed

lemma keeps_httpx:
  "keeps (bindM (gets tl_httpx_instrumented) (\<lambda>done.
     bindM (if \<not> done
            then bindM (perform_call lib InstrumentHttpx) (\<lambda>_. modify (\<lambda>s. s\<lparr> tl_httpx_instrumented := True \<rparr>))
            else ret ()) (\<lambda>_. gets (the \<circ> tl_runtime))))"
  by (intro keeps_intros) (simp add: setters_def)

lemma valid_configured:
  "valid (stage runtime calls) (gets tl_runtime)
     (\<lambda>configured s. configured = runtime \<and> stage runtime calls s) E"
  by (rule valid_gets) (simp add: stage_def)

lemma valid_configure_again:
  "valid (stage (Some runtime) calls) (configure_telemetry lib env)
     (\<lambda>_. stage (Some runtime) calls) (\<lambda>_. stage (Some runtime) calls)"
proof -
  have "valid (\<lambda>s. configured = Some runtime \<and> stage (Some runtime) calls s)
      (if configured = None then create_process_runtime lib env else ret ())
      (\<lambda>_. stage (Some runtime) calls) (\<lambda>_. stage (Some runtime) calls)" for configured
    by (simp add: valid_def ret_def)
  note valid_bindM [OF this keepsD [OF keeps_httpx]]
  then show ?thesis
    unfolding configure_telemetry_def by (rule valid_bindM [OF valid_configured])
qed

lemma valid_configure_first:
  "valid (stage None []) (configure_telemetry lib env) (\<lambda>_. providers_ok) (\<lambda>_. providers_ok)"
proof -
  let ?Q = "\<lambda>_ s. \<exists>runtime. stage (Some runtime) [SetTracerProvider, SetMeterProvider] s"
  have "valid (\<lambda>s. configured = None \<and> stage None [] s)
      (if configured = None then create_process_runtime lib env else ret ()) ?Q (\<lambda>_. providers_ok)" for configured
  proof (cases "configured = None")
    case True
    then show ?thesis using valid_create_process_runtime by simp
  qed (auto simp: valid_def)
  moreover have "valid (?Q x) (bindM (gets tl_httpx_instrumented) (\<lambda>done.
      bindM (if \<not> done
            then bindM (perform_call lib InstrumentHttpx) (\<lambda>_. modify (\<lambda>s. s\<lparr> tl_httpx_instrumented := True \<rparr>))
            else ret ()) (\<lambda>_. gets (the \<circ> tl_runtime)))) (\<lambda>_. providers_ok) (\<lambda>_. providers_ok)" for x
    using keepsD [OF keeps_httpx] providers_okI(4) unfolding valid_def
    by (fastforce split: prod.splits sum.splits)
  ultimately show ?thesis
    unfolding configure_telemetry_def by (rule valid_bindM [OF valid_configured valid_bindM])
qed

lemma keeps_effect: "keeps m \<Longrightarrow> stage runtime calls s \<Longrightarrow> stage runtime calls (snd (m s))"
  by (drule keepsD, drule (1) validE) (auto split: sum.splits prod.splits)

lemma keeps_ok: "keeps m \<Longrightarrow> providers_ok s \<Longrightarrow> providers_ok (snd (m s))"
  unfolding providers_ok_def using keeps_effect by blast

lemma valid_effect: "valid P m (\<lambda>_. Q) (\<lambda>_. Q) \<Longrightarrow> P s \<Longrightarrow> Q (snd (m s))"
  by (drule (1) validE) (auto split: sum.splits prod.splits)

text \<open>Configuring keeps the providers in order, and keeps a runtime that is already there.\<close>

lemma configure_ok: "providers_ok s \<Longrightarrow> providers_ok (snd (configure_telemetry lib env s))"
  unfolding providers_ok_def [of s]
  by (auto intro: valid_effect [OF valid_configure_first] providers_okI valid_effect [OF valid_configure_again])

lemma stage_here: "tl_runtime s = Some runtime \<Longrightarrow> stage (Some runtime) (setters (tl_calls s)) s"
  by (simp add: stage_def)

lemma configure_again:
  assumes "tl_runtime s = Some runtime"
  shows "tl_runtime (snd (configure_telemetry lib env s)) = Some runtime"
  using valid_effect [OF valid_configure_again stage_here [OF assms], of lib env] unfolding stage_def by blast

lemma keeps_runtime: "keeps m \<Longrightarrow> tl_runtime (snd (m s)) = tl_runtime s"
  using keeps_effect [of m "tl_runtime s" "setters (tl_calls s)" s] by (simp add: stage_def)

definition instrument_app :: "'w telemetry_library \<Rightarrow> app_route list \<Rightarrow> ('w, unit) telemetry_prog" where
  "instrument_app lib routes =
     bindM (new_outcome_metrics lib (eligible_route_methods routes)) (\<lambda>_.
     bindM (perform_calls lib [AddOutcomeMiddleware, InstrumentFastApi fastapi_instrumentation]) (\<lambda>_.
     modify (\<lambda>s. s\<lparr> tl_instrumented := True \<rparr>)))"

lemma keeps_instrument_app: "keeps (instrument_app lib routes)"
  unfolding instrument_app_def by (intro keeps_intros keeps_outcome_metrics) (simp add: setters_def)

lemma instrument_unfold:
  "instrument_for_telemetry lib env routes runtime s =
     (if tl_instrumented s then (Inr (), s)
      else bindM (case runtime of Some runtime \<Rightarrow> ret runtime | None \<Rightarrow> configure_telemetry lib env)
             (\<lambda>_. instrument_app lib routes) s)"
  by (simp add: instrument_for_telemetry_def instrument_app_def Let_def bindM_def gets_def ret_def)

lemma instrument_effect:
  "snd (instrument_for_telemetry lib env routes runtime s) \<in>
     {s, snd (instrument_app lib routes s), snd (configure_telemetry lib env s),
      snd (instrument_app lib routes (snd (configure_telemetry lib env s)))}"
  unfolding instrument_unfold
  by (cases runtime) (auto simp: bindM_def ret_def split: prod.splits sum.splits)

lemma step_ok:
  assumes "providers_ok s"
  shows "providers_ok (telemetry_step lib op s)"
proof (cases op)
  case (Configure env)
  then show ?thesis using assms by (simp add: telemetry_step_def configure_ok)
next
  case (Instrument env routes runtime)
  then show ?thesis
    using assms instrument_effect [of lib env routes runtime s]
    by (auto simp: telemetry_step_def intro: configure_ok keeps_ok [OF keeps_instrument_app]
        keeps_ok [OF keeps_instrument_app configure_ok])
next
  case NewApp
  then show ?thesis using assms by (simp add: telemetry_step_def providers_ok_def stage_def)
qed

lemma step_runtime:
  assumes "tl_runtime s = Some runtime"
  shows "tl_runtime (telemetry_step lib op s) = Some runtime"
proof (cases op)
  case (Configure env)
  then show ?thesis using assms by (simp add: telemetry_step_def configure_again)
next
  case (Instrument env routes runtime')
  then show ?thesis
    using assms instrument_effect [of lib env routes runtime' s]
    by (auto simp: telemetry_step_def configure_again keeps_runtime [OF keeps_instrument_app])
next
  case NewApp
  then show ?thesis using assms by (simp add: telemetry_step_def)
qed

lemma steps_ok: "providers_ok s \<Longrightarrow> providers_ok (fold (telemetry_step lib) ops s)"
  by (induction ops arbitrary: s) (simp_all add: step_ok)

lemma steps_runtime:
  "tl_runtime s = Some runtime \<Longrightarrow> tl_runtime (fold (telemetry_step lib) ops s) = Some runtime"
  by (induction ops arbitrary: s) (simp_all add: step_runtime)

lemma count_setters:
  assumes "providers_ok s" and "call \<in> {SetTracerProvider, SetMeterProvider}"
  shows "count_list (tl_calls s) call \<le> 1"
proof -
  have "count_list (tl_calls s) call = count_list (setters (tl_calls s)) call"
    using assms(2) by (auto simp: setters_def count_list_eq_length_filter intro!: arg_cong [where f = length] filter_cong)
  then show ?thesis using assms by (auto simp: providers_ok_def stage_def)
qed

text \<open>
  However often a process configures telemetry and instruments applications, and whatever the
  telemetry library answers: the providers of the process are set at most once each, the first
  runtime stays the runtime, and instrumenting an instrumented application does nothing at all.
\<close>

theorem telemetry_is_set_up_once:
  assumes "s = fold (telemetry_step lib) ops (new_process w)"
  shows "count_list (tl_calls s) SetTracerProvider \<le> 1 \<and> count_list (tl_calls s) SetMeterProvider \<le> 1 \<and>
    (tl_runtime s = None \<or> tl_runtime (fold (telemetry_step lib) later_ops s) = tl_runtime s) \<and>
    (tl_instrumented s \<longrightarrow> instrument_for_telemetry lib env routes runtime s = (Inr (), s))"
proof -
  have "providers_ok (new_process w)" by (simp add: new_process_def providers_ok_def stage_def setters_def)
  then have "providers_ok s" unfolding assms by (rule steps_ok)
  moreover have "tl_runtime s = None \<or> tl_runtime (fold (telemetry_step lib) later_ops s) = tl_runtime s"
    using steps_runtime by (cases "tl_runtime s") auto
  ultimately show ?thesis
    using count_setters [of s SetTracerProvider] count_setters [of s SetMeterProvider] by (simp add: instrument_unfold)
qed

definition example_telemetry_library :: "library_call list \<Rightarrow> nat telemetry_library" where
  "example_telemetry_library broken call =
     (if call \<in> set broken then throw (OtherError ''exporter'') else modify Suc)"

definition example_route :: APIRoute where
  "example_route = \<lparr> ar_id = 1, ar_path = ''/items/{result}'', ar_methods = Some [''GET'', ''HEAD''] \<rparr>"

definition example_ops :: "telemetry_op list" where
  "example_ops =
     [Instrument (\<lambda>k. None) [ApiRoute example_route] None, NewApp,
      Instrument (\<lambda>k. None) [IncludedRouter [(Some example_route, ''/api/items/{result}'')]] None]"

text \<open>
  A set-up that fails half-way is not repaired: when the span exporter raises, the runtime is there
  but its providers are never set, and later configurations succeed without setting them.
\<close>

lemma failed_configuration_is_not_repaired:
  "let env = (\<lambda>k. if k = ''OTEL_EXPORTER_OTLP_ENDPOINT'' then Some ''http://collector'' else None);
       (r1, s1) = configure_telemetry (example_telemetry_library [AddSpanExporter]) env (new_process 0);
       (r2, s2) = configure_telemetry (example_telemetry_library []) env s1
   in r1 = Inl (OtherError ''exporter'') \<and> isl r2 = False \<and>
      SetTracerProvider \<notin> set (tl_calls s2) \<and> SetMeterProvider \<notin> set (tl_calls s2)"
  by code_simp

text \<open>Shutting down twice asks the providers once.\<close>

lemma shutdown_twice:
  "shutdown_runtime lib runtime s = (Inr runtime', s') \<Longrightarrow> shutdown_runtime lib runtime' s' = (Inr runtime', s')"
  by (auto simp: shutdown_runtime_def bindM_def ret_def split: if_splits prod.splits sum.splits)

section \<open>The trace of the current span\<close>

lemma hex_text_no_dash: "CHR ''-'' \<notin> set (hex_text w n)"
proof -
  have "\<not> hex_char (CHR ''-'')" "CHR ''-'' \<noteq> CHR ''0''" by code_simp+
  then show ?thesis using hex_digits_chars [of n] by (auto simp: hex_text_def list_all_iff)
qed

lemma traceparent_parts:
  "split_on (CHR ''-'') (''00-'' @ hex_text 32 n @ ''-'' @ hex_text 16 k @ ''-'' @ hex_text 2 f) =
     [''00'', hex_text 32 n, hex_text 16 k, hex_text 2 f]"
  using split_on_append [of "CHR ''-''" "''00''" "hex_text 32 n @ ''-'' @ hex_text 16 k @ ''-'' @ hex_text 2 f"]
    split_on_append [of "CHR ''-''" "hex_text 32 n" "hex_text 16 k @ ''-'' @ hex_text 2 f"]
    split_on_append [of "CHR ''-''" "hex_text 16 k" "hex_text 2 f"]
  by (simp add: split_on_none hex_text_no_dash)

lemma trace_id_of_current:
  assumes "span_documented (SpanContext.truncate active)" and "tc_traceparent ctx = get_current_traceparent active"
    and "sp_is_valid active"
  shows "trace_id ctx = get_current_trace_id active"
proof -
  have "(2::nat) ^ 128 = 16 ^ 32" by simp
  then have "length (hex_text 32 (sp_trace_id active)) = 32"
    using assms(1,3) by (intro hex_text_facts(1)) (simp_all add: span_documented_def SpanContext.truncate_def)
  then show ?thesis
    using assms(2,3) traceparent_parts
    by (simp add: trace_id_def get_current_traceparent_def get_current_trace_id_def)
qed

text \<open>
  C31 The trace of the current span crosses the wire. A service that is called with the headers of a
  trace context under a valid current span reads back the trace id of that span, with the caller's
  correlation and request ids; a tool that is called gets the same trace parent among its arguments;
  and the span's own number can be read off the text.
\<close>

theorem current_trace_crosses_the_wire:
  assumes "span_documented (SpanContext.truncate active)" and "sp_is_valid active"
    and "tc_correlation_id ctx \<noteq> []" and "tc_request_id ctx \<noteq> []"
    and "received = trace_from_headers r w (receive_headers (to_headers ctx (get_current_traceparent active))) None"
  shows "trace_id received = get_current_trace_id active \<and>
    map_option hex_value (trace_id received) = Some (sp_trace_id active) \<and>
    tc_correlation_id received = tc_correlation_id ctx \<and> tc_request_id received = tc_request_id ctx \<and>
    map_of (to_tool_arguments ctx fault (get_current_traceparent active)) ''traceparent'' =
      get_current_traceparent active"
proof -
  obtain tp where tp: "get_current_traceparent active = Some tp" "tp \<noteq> []"
    using assms(2) by (simp add: get_current_traceparent_def)
  have received: "tc_traceparent received = get_current_traceparent active"
    "tc_correlation_id received = tc_correlation_id ctx" "tc_request_id received = tc_request_id ctx"
    unfolding assms(5) trace_context_survives_the_wire [OF assms(3,4)] using tp by simp_all
  moreover have "trace_id received = get_current_trace_id active"
    using trace_id_of_current [OF assms(1) received(1) assms(2)] .
  moreover have "(2::nat) ^ 128 = 16 ^ 32" by simp
  then have "hex_value (hex_text 32 (sp_trace_id active)) = sp_trace_id active"
    using assms(1,2) by (intro hex_text_facts(3)) (simp_all add: span_documented_def SpanContext.truncate_def)
  ultimately show ?thesis
    using assms(2) tp by (simp add: get_current_trace_id_def to_tool_arguments_def entry_if_cases)
qed

theorem current_trace_crosses_the_wire_witness:
  "trace_id (trace_from_headers ''r'' ''w'' (receive_headers (to_headers example_context
     (get_current_traceparent \<lparr> sp_trace_id = 10, sp_span_id = 11, sp_is_valid = True, sp_trace_flags = 1 \<rparr>))) None) =
   Some ''0000000000000000000000000000000a''"
proof -
  let ?span = "\<lparr> sp_trace_id = 10, sp_span_id = 11, sp_is_valid = True, sp_trace_flags = 1 \<rparr>"
  have "hex_text 32 10 = ''0000000000000000000000000000000a''" by code_simp
  then show ?thesis
    using current_trace_crosses_the_wire [OF _ _ _ _ refl, of ?span example_context "''r''" "''w''" "''none''"]
    by (simp add: span_documented_def SpanContext.truncate_def example_context_def get_current_trace_id_def)
qed

end
