(* ===== verification/HttpMetrics.thy ===== *)
theory HttpMetrics
  imports Middlewares Telemetry
begin

text \<open>
  The middleware that counts the outcomes of HTTP requests (\<open>HttpOutcomeMetricsMiddleware\<close> in
  \<open>core/telemetry.py\<close>), over applications that send, receive, route and act in any way, and its
  place in the application: \<open>create_app\<close> adds it before \<open>register_middlewares\<close> adds the other two,
  so it runs innermost.
\<close>

section \<open>Applications\<close>

text \<open>
  What an application does with a request, one step at a time: return, raise, send an event and go on
  with the answer of the transport (or its exception), receive a message, put the route it found into
  the scope, or do something to the rest of the world and go on with what it saw there.
\<close>

datatype asgi_event = ResponseStart int | OtherEvent string

datatype 'w process =
    Returns
  | Raises auth_exn
  | Sends asgi_event "auth_exn + unit \<Rightarrow> 'w process"
  | Receives "auth_exn + asgi_message \<Rightarrow> 'w process"
  | Routes "APIRoute option" "'w process"
  | Acts "'w \<Rightarrow> nat \<times> 'w" "nat \<Rightarrow> 'w process"

record ('w, 's) asgi_channels =
  ch_send :: "asgi_event \<Rightarrow> (auth_exn, 's, unit) eprog"
  ch_receive :: "(auth_exn, 's, asgi_message) eprog"
  ch_set_route :: "APIRoute option \<Rightarrow> 's \<Rightarrow> 's"
  ch_act :: "('w \<Rightarrow> nat \<times> 'w) \<Rightarrow> 's \<Rightarrow> nat \<times> 's"

primrec run_process :: "'w process \<Rightarrow> ('w, 's) asgi_channels \<Rightarrow> (auth_exn, 's, unit) eprog" where
  "run_process Returns ch = ret ()"
| "run_process (Raises e) ch = throw e"
| "run_process (Sends event k) ch = (\<lambda>s. case ch_send ch event s of (r, s') \<Rightarrow> run_process (k r) ch s')"
| "run_process (Receives k) ch = (\<lambda>s. case ch_receive ch s of (r, s') \<Rightarrow> run_process (k r) ch s')"
| "run_process (Routes route p) ch = (\<lambda>s. run_process p ch (ch_set_route ch route s))"
| "run_process (Acts f k) ch = (\<lambda>s. case ch_act ch f s of (n, s') \<Rightarrow> run_process (k n) ch s')"

section \<open>The middleware\<close>

text \<open>
  The status code is a variable of the call: the state of the application's run is extended by it.
\<close>

definition beside :: "('e, 's, 'a) eprog \<Rightarrow> ('e, int \<times> 's, 'a) eprog" where
  "beside m = (\<lambda>(status_code, s). case m s of (r, s') \<Rightarrow> (r, (status_code, s')))"

fun status_seen :: "asgi_event \<Rightarrow> int \<Rightarrow> int" where
  "status_seen (ResponseStart status) status_code = status"
| "status_seen (OtherEvent kind) status_code = status_code"

definition capture_status ::
    "(asgi_event \<Rightarrow> (auth_exn, 's, unit) eprog) \<Rightarrow> asgi_event \<Rightarrow> (auth_exn, int \<times> 's, unit) eprog" where
  "capture_status send event = bindM (modify (map_prod (status_seen event) id)) (\<lambda>_. beside (send event))"

definition capturing :: "('w, 's) asgi_channels \<Rightarrow> ('w, int \<times> 's) asgi_channels" where
  "capturing ch =
     \<lparr> ch_send = capture_status (ch_send ch),
       ch_receive = beside (ch_receive ch),
       ch_set_route = (\<lambda>route. map_prod id (ch_set_route ch route)),
       ch_act = (\<lambda>f (status_code, s). case ch_act ch f s of (n, s') \<Rightarrow> (n, (status_code, s'))) \<rparr>"

text \<open>
  Around the application: its scope with the route, the counter, the events handed to the transport,
  and the rest of the world.
\<close>

record 'w served_world =
  sv_route :: "APIRoute option"
  sv_additions :: "addition list"
  sv_offered :: "asgi_event list"
  sv_rest :: 'w

type_synonym ('m, 'w) served_state = "('m, 'w served_world) request_state"

definition on_served :: "('w served_world \<Rightarrow> 'a \<times> 'w served_world) \<Rightarrow> ('m, 'w) served_state \<Rightarrow> 'a \<times> ('m, 'w) served_state" where
  "on_served f s = (case f (rq_world s) of (x, w) \<Rightarrow> (x, s\<lparr> rq_world := w \<rparr>))"

definition on_rest :: "('w \<Rightarrow> 'a \<times> 'w) \<Rightarrow> ('m, 'w) served_state \<Rightarrow> 'a \<times> ('m, 'w) served_state" where
  "on_rest f = on_served (\<lambda>w. case f (sv_rest w) of (x, v) \<Rightarrow> (x, w\<lparr> sv_rest := v \<rparr>))"

definition log_offer :: "asgi_event \<Rightarrow> ('m, 'w) served_state \<Rightarrow> ('m, 'w) served_state" where
  "log_offer event s = s\<lparr> rq_world := (rq_world s)\<lparr> sv_offered := sv_offered (rq_world s) @ [event] \<rparr> \<rparr>"

definition channels ::
    "(asgi_event \<Rightarrow> (auth_exn, 'w, unit) eprog) \<Rightarrow> ('m, 'w served_world) receive_fun \<Rightarrow>
     ('w, ('m, 'w) served_state) asgi_channels" where
  "channels transport receive =
     \<lparr> ch_send = (\<lambda>event. bindM (modify (log_offer event)) (\<lambda>_. on_rest (transport event))),
       ch_receive = receive,
       ch_set_route = (\<lambda>route s. s\<lparr> rq_world := (rq_world s)\<lparr> sv_route := route \<rparr> \<rparr>),
       ch_act = on_rest \<rparr>"

definition count_route ::
    "route_methods \<Rightarrow> asgi_scope \<Rightarrow> int \<Rightarrow> 'w served_world \<Rightarrow> 'w served_world" where
  "count_route route_methods scope status_code w =
     (case sv_route w of
        None \<Rightarrow> w
      | Some route \<Rightarrow>
          w\<lparr> sv_additions := sv_additions w @
               outcome_additions route_methods (case sc_method scope of None \<Rightarrow> [] | Some m \<Rightarrow> m) route status_code \<rparr>)"

definition http_outcome_middleware ::
    "route_methods \<Rightarrow> (asgi_scope \<Rightarrow> 'w process) \<Rightarrow> (asgi_event \<Rightarrow> (auth_exn, 'w, unit) eprog) \<Rightarrow>
     ('m, 'w served_world) asgi_app" where
  "http_outcome_middleware route_methods app transport scope receive =
     (if sc_type scope \<noteq> ''http'' then run_process (app scope) (channels transport receive)
      else
        (\<lambda>s. case run_process (app scope) (capturing (channels transport receive)) (500, s) of
               (r, (status_code, s')) \<Rightarrow>
                 (r, s'\<lparr> rq_world := count_route route_methods scope status_code (rq_world s') \<rparr>)))"

text \<open>The application of the repository: the counter inside the two other middlewares.\<close>

definition production_app ::
    "extractor_library \<Rightarrow> string \<Rightarrow> 'm AsyncAuthenticationManager \<Rightarrow> app_route list \<Rightarrow>
     (asgi_scope \<Rightarrow> 'w process) \<Rightarrow> (asgi_event \<Rightarrow> (auth_exn, 'w, unit) eprog) \<Rightarrow>
     ('m, 'w served_world) asgi_app" where
  "production_app lib new_uuid manager routes app transport =
     with_middlewares lib new_uuid manager
       (http_outcome_middleware (eligible_route_methods routes) app transport)"

section \<open>What is counted\<close>

text \<open>The status of a run is the one of the last response that was started, 500 without any.\<close>

fun started :: "asgi_event list \<Rightarrow> int list" where
  "started [] = []"
| "started (ResponseStart status # events) = status # started events"
| "started (OtherEvent kind # events) = started events"

definition last_status :: "asgi_event list \<Rightarrow> int" where
  "last_status events = last (500 # started events)"

lemma last_status_append: "last_status (events @ [event]) = status_seen event (last_status events)"
proof -
  have "started (events @ [event]) = started events @ started [event]" by (induction events rule: started.induct) auto
  then show ?thesis by (cases event) (auto simp: last_status_def)
qed

text \<open>Receiving a message leaves route, counter and offered events of the request as they are.\<close>

definition receives_only :: "('m, 'w served_world) receive_fun \<Rightarrow> bool" where
  "receives_only receive \<longleftrightarrow>
     (\<forall>s. sv_route (rq_world (snd (receive s))) = sv_route (rq_world s) \<and>
          sv_offered (rq_world (snd (receive s))) = sv_offered (rq_world s) \<and>
          sv_additions (rq_world (snd (receive s))) = sv_additions (rq_world s))"

lemma on_rest_keeps:
  "sv_route (rq_world (snd (on_rest f s))) = sv_route (rq_world s)"
  "sv_offered (rq_world (snd (on_rest f s))) = sv_offered (rq_world s)"
  "sv_additions (rq_world (snd (on_rest f s))) = sv_additions (rq_world s)"
  by (simp_all add: on_rest_def on_served_def split: prod.split)

lemma channels_sel:
  "ch_send (channels transport receive) event s = on_rest (transport event) (log_offer event s)"
  "ch_receive (channels transport receive) = receive"
  "ch_set_route (channels transport receive) route s = s\<lparr> rq_world := (rq_world s)\<lparr> sv_route := route \<rparr> \<rparr>"
  "ch_act (channels transport receive) = on_rest"
  by (simp_all add: channels_def bindM_def modify_def)

lemma capturing_sel:
  "ch_send (capturing ch) event (status_code, s) =
     (case ch_send ch event s of (r, s') \<Rightarrow> (r, (status_seen event status_code, s')))"
  "ch_receive (capturing ch) (status_code, s) = (case ch_receive ch s of (r, s') \<Rightarrow> (r, (status_code, s')))"
  "ch_set_route (capturing ch) route (status_code, s) = (status_code, ch_set_route ch route s)"
  "ch_act (capturing ch) f (status_code, s) = (case ch_act ch f s of (n, s') \<Rightarrow> (n, (status_code, s')))"
  by (simp_all add: capturing_def capture_status_def beside_def bindM_def modify_def)

text \<open>Capturing changes nothing of the run and ends with the status of the last started response.\<close>

lemma run_capturing:
  assumes "receives_only receive"
  shows "run_process p (capturing (channels transport receive)) (last_status (sv_offered (rq_world s)), s) =
    (case run_process p (channels transport receive) s of
       (r, s') \<Rightarrow> (r, (last_status (sv_offered (rq_world s')), s')))"
proof (induction p arbitrary: s)
  case (Sends event k)
  obtain r s1 where send: "on_rest (transport event) (log_offer event s) = (r, s1)" by fastforce
  then have "sv_offered (rq_world s1) = sv_offered (rq_world s) @ [event]"
    using on_rest_keeps(2) [of "transport event" "log_offer event s"] by (simp add: log_offer_def)
  then have "status_seen event (last_status (sv_offered (rq_world s))) = last_status (sv_offered (rq_world s1))"
    by (simp add: last_status_append)
  then show ?case using Sends [of "k r" s1] send by (simp add: capturing_sel channels_sel)
next
  case (Receives k)
  obtain r s1 where receive: "receive s = (r, s1)" by fastforce
  then have "sv_offered (rq_world s1) = sv_offered (rq_world s)"
    using assms by (metis receives_only_def snd_conv)
  then show ?case using Receives [of "k r" s1] receive by (simp add: capturing_sel channels_sel)
next
  case (Routes route p)
  show ?case
    using Routes [of "s\<lparr> rq_world := (rq_world s)\<lparr> sv_route := route \<rparr> \<rparr>"] by (simp add: capturing_sel channels_sel)
next
  case (Acts f k)
  obtain n s1 where act: "on_rest f s = (n, s1)" by fastforce
  then have "sv_offered (rq_world s1) = sv_offered (rq_world s)" using on_rest_keeps(2) [of f s] by simp
  then show ?case using Acts [of "k n" s1] act by (simp add: capturing_sel channels_sel)
qed (simp_all add: ret_def throw_def)

text \<open>An application cannot count.\<close>

lemma run_keeps_additions:
  assumes "receives_only receive"
  shows "sv_additions (rq_world (snd (run_process p (channels transport receive) s))) = sv_additions (rq_world s)"
proof (induction p arbitrary: s)
  case (Sends event k)
  have "sv_additions (rq_world (snd (on_rest (transport event) (log_offer event s)))) = sv_additions (rq_world s)"
    by (simp add: on_rest_keeps log_offer_def)
  then show ?case using Sends by (auto simp: channels_sel split: prod.split)
next
  case (Receives k)
  have "sv_additions (rq_world (snd (receive s))) = sv_additions (rq_world s)"
    using assms by (simp add: receives_only_def)
  then show ?case using Receives by (auto simp: channels_sel split: prod.split)
next
  case (Routes route p)
  then show ?case by (simp add: channels_sel)
next
  case (Acts f k)
  have "sv_additions (rq_world (snd (on_rest f s))) = sv_additions (rq_world s)" by (rule on_rest_keeps)
  then show ?case using Acts by (auto simp: channels_sel split: prod.split)
qed (simp_all add: ret_def throw_def)

lemma count_route_additions:
  "count_route rm scope status_code w =
     w\<lparr> sv_additions := sv_additions w @
         (case sv_route w of
            None \<Rightarrow> []
          | Some route \<Rightarrow> outcome_additions rm (case sc_method scope of None \<Rightarrow> [] | Some m \<Rightarrow> m) route status_code) \<rparr>"
  by (simp add: count_route_def split: option.split)

lemma middleware_http:
  assumes "sc_type scope = ''http''" and "receives_only receive" and "sv_offered (rq_world s) = []"
  shows "http_outcome_middleware rm app transport scope receive s =
    (case run_process (app scope) (channels transport receive) s of
       (r, s') \<Rightarrow> (r, s'\<lparr> rq_world := count_route rm scope (last_status (sv_offered (rq_world s'))) (rq_world s') \<rparr>))"
  using run_capturing [OF assms(2), of "app scope" transport s] assms(1,3)
  by (simp add: http_outcome_middleware_def last_status_def split: prod.split)

lemma instrumented_receives_only:
  fixes receive :: "('m, 'w served_world) receive_fun"
  assumes "receives_only receive"
  shows "receives_only (instrumented_receive lib receive)"
proof -
  have token: "rq_world (snd (set_state_token t s)) = rq_world s" for t and s :: "('m, 'w) served_state"
    by (simp add: set_state_token_def bindM_def modify_def gets_def throw_def split: option.split)
  have "rq_world (snd (instrumented_receive lib receive s)) = rq_world (snd (receive s))" for s
  proof (cases "receive s")
    case (Pair r s1)
    then show ?thesis
      using token by (auto simp: instrumented_receive_def bindM_def liftE_def ret_def
          split: prod.splits sum.splits) (metis snd_conv)+
  qed
  then show ?thesis using assms by (simp add: receives_only_def)
qed

lemma rest_receives_only: "receives_only (on_rest f)"
  by (simp add: receives_only_def on_rest_keeps)

section \<open>Histories of requests\<close>

definition new_request :: "('m, 'w) served_state \<Rightarrow> ('m, 'w) served_state" where
  "new_request s = s\<lparr> rq_world := (rq_world s)\<lparr> sv_route := None, sv_offered := [] \<rparr> \<rparr>"

definition serve ::
    "route_methods \<Rightarrow> (asgi_event \<Rightarrow> (auth_exn, 'w, unit) eprog) \<Rightarrow> ('m, 'w served_world) receive_fun \<Rightarrow>
     asgi_scope \<times> (asgi_scope \<Rightarrow> 'w process) \<Rightarrow> ('m, 'w) served_state \<Rightarrow> ('m, 'w) served_state" where
  "serve rm transport receive request s =
     (case request of (scope, app) \<Rightarrow>
        snd (http_outcome_middleware rm app transport scope receive (new_request s)))"

definition status_classes :: "string list" where
  "status_classes = [''1xx'', ''2xx'', ''3xx'', ''4xx'', ''5xx'', ''unknown'']"

lemma status_class_of_in: "status_class_of status_code \<in> set status_classes"
proof (cases "100 \<le> status_code \<and> status_code \<le> 599")
  case True
  then have "status_code div 100 \<in> {1, 2, 3, 4, 5}" by auto
  moreover have "int_text 1 = ''1''" "int_text 2 = ''2''" "int_text 3 = ''3''" "int_text 4 = ''4''" "int_text 5 = ''5''"
    by code_simp+
  ultimately show ?thesis using True by (auto simp: status_class_of_def status_classes_def)
next
  case False
  then show ?thesis by (auto simp: status_class_of_def status_classes_def)
qed

definition series_of :: "route_methods \<Rightarrow> attributes set" where
  "series_of rm = (\<lambda>((m, p), c). outcome_attributes m p c) ` set (List.product (method_routes rm) status_classes)"

lemma outcome_series:
  assumes "distinct (dict_keys rm)"
  shows "snd ` set (outcome_additions rm m route status_code) \<subseteq> series_of rm"
proof (cases "map_of rm (m, ar_id route)")
  case (Some p)
  then have "(m, p) \<in> set (method_routes rm)" using set_method_routes [OF assms] by blast
  then show ?thesis
    using Some status_class_of_in by (force simp: outcome_additions_def series_of_def)
qed (simp add: outcome_additions_def)

lemma initial_series: "snd ` set (initial_additions rm) \<subseteq> series_of rm"
  by (force simp: set_initial_additions series_of_def status_classes_def)

lemma serve_additions:
  assumes "receives_only receive"
  shows "\<exists>new. sv_additions (rq_world (serve rm transport receive request s)) = sv_additions (rq_world s) @ new \<and>
    (new = [] \<or> (\<exists>m route status_code. new = outcome_additions rm m route status_code))"
proof -
  obtain scope app where request: "request = (scope, app)" by (cases request)
  obtain r s' where run: "run_process (app scope) (channels transport receive) (new_request s) = (r, s')" by fastforce
  then have kept: "sv_additions (rq_world s') = sv_additions (rq_world s)"
    using run_keeps_additions [OF assms, of "app scope" transport "new_request s"] by (simp add: new_request_def)
  show ?thesis
  proof (cases "sc_type scope = ''http'' \<and> sv_route (rq_world s') \<noteq> None")
    case True
    then obtain route where route: "sv_route (rq_world s') = Some route" by blast
    have "sv_offered (rq_world (new_request s)) = []" by (simp add: new_request_def)
    then have "sv_additions (rq_world (serve rm transport receive request s)) =
        sv_additions (rq_world s) @ outcome_additions rm (case sc_method scope of None \<Rightarrow> [] | Some m \<Rightarrow> m) route
          (last_status (sv_offered (rq_world s')))"
      using run kept middleware_http [of scope receive "new_request s" rm app transport] assms True route
      by (simp add: serve_def request count_route_additions)
    then show ?thesis by blast
  next
    case False
    have "sv_offered (rq_world (new_request s)) = []" by (simp add: new_request_def)
    then have "sv_additions (rq_world (serve rm transport receive request s)) = sv_additions (rq_world s)"
      using run kept middleware_http [of scope receive "new_request s" rm app transport] assms False
      by (cases "sc_type scope = ''http''")
         (simp_all add: serve_def request count_route_additions http_outcome_middleware_def)
    then show ?thesis by simp
  qed
qed

section \<open>Properties\<close>

text \<open>
  C32 Counting does not disturb a request, and every HTTP request is counted once at most. Under the
  middleware an application runs exactly as without it: same result or exception, same events, same
  effects. The counter gets one addition when the request was routed to a counted route with its
  method, none otherwise; its status is the one of the last response started, 500 when there was
  none, whether or not the application raised.
\<close>

theorem http_outcomes_are_counted_once:
  assumes "sc_type scope = ''http''" and "receives_only receive" and "sv_offered (rq_world s) = []"
    and "run_process (app scope) (channels transport receive) s = (r, s')"
    and "m = (case sc_method scope of None \<Rightarrow> [] | Some m \<Rightarrow> m)"
  shows "http_outcome_middleware rm app transport scope receive s =
    (r, s'\<lparr> rq_world := (rq_world s')\<lparr> sv_additions := sv_additions (rq_world s) @
       (case map_option (\<lambda>route. map_of rm (m, ar_id route)) (sv_route (rq_world s')) of
          Some (Some path) \<Rightarrow>
            [(1, outcome_attributes m path (status_class_of (last_status (sv_offered (rq_world s')))))]
        | _ \<Rightarrow> []) \<rparr> \<rparr>)"
proof -
  have "sv_additions (rq_world s') = sv_additions (rq_world s)"
    using run_keeps_additions [OF assms(2), of "app scope" transport s] assms(4) by simp
  then show ?thesis
    unfolding middleware_http [OF assms(1-3)] assms(4) count_route_additions outcome_additions_def
    by (cases "sv_route (rq_world s')") (simp_all add: assms(5) split: option.splits)
qed

text \<open>An application that answers with a status and then returns or raises.\<close>

definition answering :: "APIRoute option \<Rightarrow> int list \<Rightarrow> bool \<Rightarrow> asgi_scope \<Rightarrow> nat process" where
  "answering route statuses fails scope =
     Routes route
       (foldr (\<lambda>status p. Sends (ResponseStart status) (\<lambda>answer. p)) statuses
          (if fails then Raises (Raised (OtherError ''stream'')) else Returns))"

definition example_served :: "addition list \<Rightarrow> (nat JWTValidationClient, nat) served_state" where
  "example_served additions =
     \<lparr> rq_scope_state = None, rq_jwt_var = None, rq_log_context = [], rq_sent = [],
       rq_manager = new_validation_client 0,
       rq_world = \<lparr> sv_route = None, sv_additions = additions, sv_offered = [], sv_rest = 0 \<rparr> \<rparr>"

definition example_transport :: "asgi_event \<Rightarrow> (auth_exn, nat, unit) eprog" where
  "example_transport event = modify Suc"

definition example_message :: "(nat JWTValidationClient, nat served_world) receive_fun" where
  "example_message = on_rest (ret \<lparr> ms_type = ''http.request'', ms_text = None \<rparr>)"

abbreviation example_table :: route_methods where
  "example_table \<equiv> eligible_route_methods [ApiRoute example_route]"

text \<open>
  A response that breaks off after its status went out counts as the status says: the counter shows a
  success for a request whose application raised.
\<close>

theorem http_outcomes_are_counted_once_witness:
  "sv_additions (rq_world (snd (http_outcome_middleware example_table (answering (Some example_route) [200] True)
     example_transport (example_scope ''http'' []) example_message (example_served [])))) =
   [(1, outcome_attributes ''GET'' ''/items/{result}'' ''2xx'')]"
proof -
  let ?run = "run_process (answering (Some example_route) [200] True (example_scope ''http'' []))
    (channels example_transport example_message) (example_served [])"
  obtain r s' where run: "?run = (r, s')" by fastforce
  have "map_of example_table (''GET'', ar_id example_route) = Some ''/items/{result}''"
    "status_class_of (last_status [ResponseStart 200]) = ''2xx''"
    "sv_route (rq_world (snd ?run)) = Some example_route"
    "sv_offered (rq_world (snd ?run)) = [ResponseStart 200]"
    by code_simp+
  moreover have "receives_only example_message" by (simp add: example_message_def rest_receives_only)
  moreover have "sc_type (example_scope ''http'' []) = ''http''" "sc_method (example_scope ''http'' []) = Some ''GET''"
    "sv_offered (rq_world (example_served [])) = []" "sv_additions (rq_world (example_served [])) = []"
    by (simp_all add: example_scope_def example_served_def)
  ultimately show ?thesis
    using http_outcomes_are_counted_once [of "example_scope ''http'' []" example_message "example_served []"
        "answering (Some example_route) [200] True" example_transport r s' "''GET''" example_table] run
    by simp
qed

text \<open>
  The counter is bounded by the routes, not by the requests. Whatever requests a process serves
  with whatever applications, every series of the counter has a counted method, the registered path
  of a route that is no health route, and one of six status classes with the outcome that belongs to
  it; so there are at most six series for every counted method and path.
\<close>

theorem metric_series_are_bounded:
  assumes "receives_only receive" and "rm = eligible_route_methods routes"
    and "sv_additions (rq_world s) = initial_additions rm"
    and "s' = fold (serve rm transport receive) requests s"
  shows "snd ` set (sv_additions (rq_world s')) \<subseteq>
      {outcome_attributes m p c | m p c. m \<in> HTTP_METHODS \<and> \<not> is_health_route p \<and>
         p \<in> snd ` set (concat (map registrations routes)) \<and> c \<in> set status_classes} \<and>
    card (snd ` set (sv_additions (rq_world s'))) \<le> 6 * length (method_routes rm)"
proof -
  have distinct: "distinct (dict_keys rm)" by (simp add: assms(2) distinct_eligible)
  have "snd ` set (sv_additions (rq_world (fold (serve rm transport receive) requests t))) \<subseteq> series_of rm"
    if "snd ` set (sv_additions (rq_world t)) \<subseteq> series_of rm" for t
    using that
  proof (induction requests arbitrary: t)
    case (Cons request requests)
    obtain new where new: "sv_additions (rq_world (serve rm transport receive request t)) = sv_additions (rq_world t) @ new"
        "new = [] \<or> (\<exists>m route status_code. new = outcome_additions rm m route status_code)"
      using serve_additions [OF assms(1)] by blast
    from new(2) have "snd ` set new \<subseteq> series_of rm" 
      by (elim disjE exE) (simp_all add: outcome_series [OF distinct])
    then have "snd ` set (sv_additions (rq_world (serve rm transport receive request t))) \<subseteq> series_of rm"
      using Cons.prems by (simp add: new(1) image_Un)
    then show ?case using Cons.IH by simp
  qed simp
  then have series: "snd ` set (sv_additions (rq_world s')) \<subseteq> series_of rm"
    using initial_series [of rm] by (simp add: assms(3,4))
  have "card (series_of rm) \<le> length (List.product (method_routes rm) status_classes)"
    unfolding series_of_def by (rule order_trans [OF card_image_le card_length]) simp
  moreover have "length (List.product (method_routes rm) status_classes) = 6 * length (method_routes rm)"
    by (simp add: status_classes_def)
  moreover have "finite (series_of rm)" by (simp add: series_of_def)
  moreover have "series_of rm \<subseteq> {outcome_attributes m p c | m p c. m \<in> HTTP_METHODS \<and> \<not> is_health_route p \<and>
      p \<in> snd ` set (concat (map registrations routes)) \<and> c \<in> set status_classes}"
  proof
    fix a
    assume "a \<in> series_of rm"
    then obtain m p c where a: "a = outcome_attributes m p c" "(m, p) \<in> set (method_routes rm)" "c \<in> set status_classes"
      by (auto simp: series_of_def)
    then obtain i where "map_of rm (m, i) = Some p" using set_method_routes [OF distinct] by blast
    then have "m \<in> HTTP_METHODS \<and> \<not> is_health_route p \<and> p \<in> snd ` set (concat (map registrations routes))"
      using counted_route [of routes m i p] assms(2) by force
    then show "a \<in> {outcome_attributes m p c | m p c. m \<in> HTTP_METHODS \<and> \<not> is_health_route p \<and>
        p \<in> snd ` set (concat (map registrations routes)) \<and> c \<in> set status_classes}"
      using a by blast
  qed
  ultimately show ?thesis using series card_mono [of "series_of rm"] by (metis (no_types, lifting) order_trans)
qed

definition example_requests :: "(asgi_scope \<times> (asgi_scope \<Rightarrow> nat process)) list" where
  "example_requests =
     map (\<lambda>status. (example_scope ''http'' [], answering (Some example_route) [status] False)) [200, 404, 999, 302]"

text \<open>
  The counter sees no refused request. In the application as it is put together, a request that
  authentication refuses is answered with 401 or 500 and nothing is counted; only a request with a
  verified bearer token reaches the counter, which then adds one for a counted route, or nothing. So
  the error rates of the counter leave out every failure of authentication.
\<close>

theorem refused_requests_are_not_counted:
  assumes "jwt_documented jwt signed" and "scheme_param_documented (xl_scheme_param lib)"
    and "served_type scope" and "\<not> excluded_path scope" and "receives_only receive"
    and "sv_offered (rq_world s) = []"
    and "production_app lib new_uuid (JwtAuthenticationManager jwt config) routes app transport scope receive s = (r, s')"
  shows "(r = Inr () \<and> rq_world s' = rq_world s \<and>
      (\<exists>a \<in> {Answer 401 ''Authentication failed'', Answer 500 ''Unexpected error during authentication''}.
         rq_sent s' = rq_sent s @ [a])) \<or>
    (\<exists>token user c new. carries_bearer lib scope token \<and> verified_for jwt signed config c token user \<and>
       sv_additions (rq_world s') = sv_additions (rq_world s) @ new \<and> length new \<le> 1)"
proof -
  let ?rm = "eligible_route_methods routes" and ?receive = "instrumented_receive lib receive"
  have only: "receives_only ?receive" by (rule instrumented_receives_only [OF assms(5)])
  consider "r = Inr ()" "rq_world s' = rq_world s"
      "\<exists>a \<in> {Answer 401 ''Authentication failed'', Answer 500 ''Unexpected error during authentication''}.
         rq_sent s' = rq_sent s @ [a]"
    | token user start s1 where "carries_bearer lib scope token"
      "verified_for jwt signed config (rq_manager start) token user" "rq_world start = rq_world s"
      "http_outcome_middleware ?rm app transport scope ?receive start = (r, s1)" "s' = leave_context s1"
    using verified_or_refused [OF assms(1-4) assms(7) [unfolded production_app_def]] by blast
  then show ?thesis
  proof cases
    case 1
    then show ?thesis by blast
  next
    case 2
    obtain r' s2 where run: "run_process (app scope) (channels transport ?receive) start = (r', s2)" by fastforce
    then have kept: "sv_additions (rq_world s2) = sv_additions (rq_world s)"
      using run_keeps_additions [OF only, of "app scope" transport start] 2(3) by simp
    have "\<exists>new. sv_additions (rq_world s1) = sv_additions (rq_world s) @ new \<and> length new \<le> 1"
    proof (cases "sc_type scope = ''http''")
      case True
      then show ?thesis
        using middleware_http [OF True only, of start ?rm app transport] 2(3,4) assms(6) run kept
        by (auto simp: count_route_additions outcome_additions_def split: option.split)
    next
      case False
      then show ?thesis using 2(4) run kept by (simp add: http_outcome_middleware_def)
    qed
    moreover have "rq_world s' = rq_world s1" by (simp add: 2(5) leave_context_def)
    ultimately show ?thesis using 2(1,2) by metis
  qed
qed

abbreviation example_production ::
    "asgi_scope \<Rightarrow> (auth_exn + unit) \<times> (nat JWTValidationClient, nat) served_state" where
  "example_production scope \<equiv>
     production_app example_extractors ''3f2b8c1e-9d4a-4c6b-8e7f-0a1b2c3d4e5f''
       (JwtAuthenticationManager example_jwt_library \<lparr> oc_realm_name = [], oc_openid_discovery_url = ''iss'' \<rparr>)
       [ApiRoute example_route] (answering (Some example_route) [200] False) example_transport
       scope example_message (example_served [])"

end
