(* ===== verification/FakeServers.thy ===== *)
theory FakeServers
  imports DemoApi
begin

text \<open>
  The stand-in MCP servers of the container smoke test (\<open>automation/fake_mcp_server.py\<close>), and the
  whole demo against them: the endpoint, the workflow, the MCP client and the servers.
\<close>

section \<open>Tools and their parameters\<close>

text \<open>
  The parameters of a tool as its signature declares them, with a default or required. The server
  library checks the arguments of a call against them; the model covers arguments of exactly the
  declared types.
\<close>

datatype parameter_type = IntType | OptStrType | StrType | StrListType

type_synonym signature = "(string \<times> parameter_type \<times> pyval option) list"

fun has_type :: "parameter_type \<Rightarrow> pyval \<Rightarrow> bool" where
  "has_type IntType v = (case v of PInt i \<Rightarrow> True | _ \<Rightarrow> False)"
| "has_type OptStrType v = (case v of PNone \<Rightarrow> True | PStr t \<Rightarrow> True | _ \<Rightarrow> False)"
| "has_type StrType v = (case v of PStr t \<Rightarrow> True | _ \<Rightarrow> False)"
| "has_type StrListType v = (case v of PList xs \<Rightarrow> list_all (\<lambda>x. as_str x \<noteq> None) xs | _ \<Rightarrow> False)"

definition accepts :: "signature \<Rightarrow> pydict \<Rightarrow> bool" where
  "accepts sig args \<longleftrightarrow>
     list_all (\<lambda>k. case map_of sig k of None \<Rightarrow> False | Some (ty, dflt) \<Rightarrow> has_type ty (pget args k)) (dict_keys args) \<and>
     list_all (\<lambda>(k, ty, dflt). dflt \<noteq> None \<or> k \<in> set (dict_keys args)) sig"

definition trace_parameters :: signature where
  "trace_parameters =
     map (\<lambda>k. (k, OptStrType, Some PNone))
       [''traceparent'', ''tracestate'', ''correlation_id'', ''request_id'', ''demo_fault'']"

text \<open>The value a parameter gets: the argument, or its default.\<close>

definition bound :: "signature \<Rightarrow> pydict \<Rightarrow> string \<Rightarrow> pyval" where
  "bound sig args k =
     (case map_of args k of
        Some v \<Rightarrow> v
      | None \<Rightarrow> (case map_of sig k of Some (ty, Some dflt) \<Rightarrow> dflt | _ \<Rightarrow> PNone))"

section \<open>The tools\<close>

definition MOVIE_ID :: string where
  "MOVIE_ID = ''movie-1''"

definition recommendation_get_movies_signature :: signature where
  "recommendation_get_movies_signature =
     [(''limit'', IntType, Some (PInt 3)), (''preference'', OptStrType, Some PNone)] @ trace_parameters"

definition recommendation_get_movies :: "pyval \<Rightarrow> pydict" where
  "recommendation_get_movies limit =
     [(''ok'', PBool True),
      (''recommendations'',
        PList (slice_to (case limit of PInt i \<Rightarrow> i | _ \<Rightarrow> 0)
          [PDict [(''id'', PStr ''recommendation-1''), (''title'', PStr ''The Type-Safe Matinee''),
                  (''movie_reservation_movie_id'', PStr MOVIE_ID)]]))]"

definition reservation_get_catalog_signature :: signature where
  "reservation_get_catalog_signature = [(''movie_id'', OptStrType, Some PNone)] @ trace_parameters"

definition reservation_get_catalog :: "pyval \<Rightarrow> pydict" where
  "reservation_get_catalog movie_id =
     (let selected_movie_id = (if truthy movie_id then movie_id else PStr MOVIE_ID) in
      [(''ok'', PBool True),
       (''catalog'', PDict
         [(''movies'', PList [PDict [(''id'', selected_movie_id), (''title'', PStr ''The Type-Safe Matinee'')]]),
          (''screenings'', PList
            [PDict [(''id'', PStr ''screening-1''), (''movieId'', selected_movie_id),
                    (''seats'', PList
                      [PDict [(''id'', PStr ''seat-1''), (''row'', PStr ''A''), (''number'', PInt 1)],
                       PDict [(''id'', PStr ''seat-2''), (''row'', PStr ''A''), (''number'', PInt 2)]])]])])])"

definition reservation_request_seats_signature :: signature where
  "reservation_request_seats_signature =
     [(''screening_id'', StrType, None), (''seat_ids'', StrListType, None)] @ trace_parameters"

definition reservation_request_seats :: pydict where
  "reservation_request_seats =
     [(''ok'', PBool True),
      (''reservation_request'', PDict [(''id'', PStr ''request-1''), (''status'', PStr ''REQUESTED'')])]"

definition reservation_get_request_status_signature :: signature where
  "reservation_get_request_status_signature = [(''reservation_request_id'', StrType, None)] @ trace_parameters"

definition reservation_get_request_status :: "pyval \<Rightarrow> pydict" where
  "reservation_get_request_status reservation_request_id =
     [(''ok'', PBool True), (''found'', PBool True),
      (''reservation_request'', PDict [(''id'', reservation_request_id), (''status'', PStr ''CONFIRMED'')]),
      (''reservation'', PDict [(''id'', PStr ''reservation-1'')])]"

section \<open>The servers\<close>

text \<open>A server: its tools with their signatures and their bodies over the bound parameters.\<close>

type_synonym server = "(string \<times> signature \<times> ((string \<Rightarrow> pyval) \<Rightarrow> pydict)) list"

definition recommendation_server :: server where
  "recommendation_server =
     [(''recommendation_get_movies'', recommendation_get_movies_signature,
       \<lambda>arg. recommendation_get_movies (arg ''limit''))]"

definition reservation_server :: server where
  "reservation_server =
     [(''reservation_get_catalog'', reservation_get_catalog_signature, \<lambda>arg. reservation_get_catalog (arg ''movie_id'')),
      (''reservation_request_seats'', reservation_request_seats_signature, \<lambda>arg. reservation_request_seats),
      (''reservation_get_request_status'', reservation_get_request_status_signature,
       \<lambda>arg. reservation_get_request_status (arg ''reservation_request_id''))]"

definition tool_answer :: "server \<Rightarrow> string \<Rightarrow> pydict \<Rightarrow> pydict option" where
  "tool_answer server tool args =
     (case map_of server tool of
        None \<Rightarrow> None
      | Some (sig, body) \<Rightarrow> if accepts sig args then Some (body (bound sig args)) else None)"

text \<open>\<open>main\<close>: the component on the command line selects server and port; any other is refused.\<close>

definition server_main :: "string \<Rightarrow> (server \<times> int) option" where
  "server_main component =
     (if component = ''recommendation'' then Some (recommendation_server, 8092)
      else if component = ''reservation'' then Some (reservation_server, 8091)
      else None)"

definition server_url :: "int \<Rightarrow> string" where
  "server_url port = ''http://127.0.0.1:'' @ int_text port @ ''/mcp''"

text \<open>What answers at a URL when both components have been started.\<close>

definition stand_in_at :: "string \<Rightarrow> server option" where
  "stand_in_at url =
     map_of (map (\<lambda>(server, port). (server_url port, server))
              (List.map_filter server_main [''recommendation'', ''reservation''])) url"

definition stand_in_answer :: "string \<Rightarrow> string \<Rightarrow> pydict \<Rightarrow> pydict option" where
  "stand_in_answer url tool args =
     (case stand_in_at url of None \<Rightarrow> None | Some server \<Rightarrow> tool_answer server tool args)"

text \<open>
  A client library that reaches the stand-ins: when the tool at the URL accepts the arguments, what
  it returns comes back as the structured content of the result.
\<close>

definition reaches_stand_ins :: "'m mcp_library \<Rightarrow> bool" where
  "reaches_stand_ins lib \<longleftrightarrow>
     (\<forall>url headers tool args timeout m payload. stand_in_answer url tool args = Some payload \<longrightarrow>
        (\<exists>texts m'. lib_call lib url headers tool args timeout m = (Inr (ToolCallResult (PDict payload) texts False), m')))"

section \<open>Propagated arguments are accepted\<close>

lemma bound_simps: "map_of args k = Some v \<Longrightarrow> bound sig args k = v"
  by (simp add: bound_def)

lemma trace_argument_parameter:
  assumes "map_of (to_tool_arguments ctx fault tp) k = Some v"
  shows "map_of trace_parameters k = Some (OptStrType, Some PNone)"
proof -
  have "k \<in> set (dict_keys (to_tool_arguments ctx fault tp))" using assms by (rule map_of_key)
  then show ?thesis
    by (auto simp: to_tool_arguments_def entry_if_cases trace_parameters_def split: option.splits)
qed

lemma required_mono:
  "K \<subseteq> K' \<Longrightarrow> list_all (\<lambda>(k, ty, dflt). dflt \<noteq> None \<or> k \<in> K) sig \<Longrightarrow>
     list_all (\<lambda>(k, ty, dflt). dflt \<noteq> None \<or> k \<in> K') sig"
  by (induction sig) auto

text \<open>
  The client adds the trace of its caller to the arguments of every tool; a tool that declares the
  parameters of the trace, and no others of these names, accepts them whenever it accepts the
  arguments without, and gets the same values for its own parameters.
\<close>

lemma own_argument_kept:
  assumes "set (dict_keys own) \<inter> set (dict_keys trace_parameters) = {}" and "k \<in> set (dict_keys own)"
  shows "map_of (propagated_arguments args ctx fault tp) k = map_of args k"
proof -
  have "map_of (to_tool_arguments ctx (fault_text fault) tp) k = None"
  proof (rule ccontr)
    assume "map_of (to_tool_arguments ctx (fault_text fault) tp) k \<noteq> None"
    then obtain v where "map_of (to_tool_arguments ctx (fault_text fault) tp) k = Some v" by blast
    then have "k \<in> set (dict_keys trace_parameters)" by (intro map_of_key [OF trace_argument_parameter])
    then show False using assms by blast
  qed
  then show ?thesis using trace_arguments_win [of args ctx fault tp k] by simp
qed

lemma propagated_typed:
  assumes "accepts (own @ trace_parameters) args"
    and "set (dict_keys own) \<inter> set (dict_keys trace_parameters) = {}"
    and k: "k \<in> set (dict_keys (propagated_arguments args ctx fault tp))"
  shows "case map_of (own @ trace_parameters) k of None \<Rightarrow> False
         | Some (ty, dflt) \<Rightarrow> has_type ty (pget (propagated_arguments args ctx fault tp) k)"
    (is "case map_of ?sig k of None \<Rightarrow> False | Some (ty, dflt) \<Rightarrow> has_type ty (pget ?p k)")
proof (cases "map_of (to_tool_arguments ctx (fault_text fault) tp) k")
  case (Some v)
  then have sent: "map_of ?p k = Some (PStr v)" and param: "map_of trace_parameters k = Some (OptStrType, Some PNone)"
    using trace_arguments_win [of args ctx fault tp k] trace_argument_parameter by auto
  have "map_of own k = None" using map_of_key [OF param] assms(2) unfolding map_of_None_keys by blast
  then show ?thesis using sent param by (simp add: pget_def map_add_def)
next
  case None
  then have same: "map_of ?p k = map_of args k" using trace_arguments_win [of args ctx fault tp k] by simp
  obtain v where "map_of ?p k = Some v" using key_map_of [OF k] by blast
  then have "k \<in> set (dict_keys args)" using same map_of_key by simp
  then have "case map_of ?sig k of None \<Rightarrow> False | Some (ty, dflt) \<Rightarrow> has_type ty (pget args k)"
    using assms(1) unfolding accepts_def list_all_iff by blast
  moreover have value_kept: "pget ?p k = pget args k" using same by (simp add: pget_def)
  ultimately show ?thesis by (subst value_kept)
qed

lemma propagated_accepted:
  assumes "accepts (own @ trace_parameters) args"
    and "set (dict_keys own) \<inter> set (dict_keys trace_parameters) = {}"
    and "set (dict_keys args) \<subseteq> set (dict_keys own)"
  shows "accepts (own @ trace_parameters) (propagated_arguments args ctx fault tp)"
    (is "accepts ?sig ?p")
proof -
  have "k \<in> set (dict_keys ?p)" if given: "k \<in> set (dict_keys args)" for k
  proof -
    obtain v where v: "map_of args k = Some v" using key_map_of [OF given] by (elim exE)
    have "k \<in> set (dict_keys own)" using assms(3) given by (rule subsetD)
    then have "map_of ?p k = Some v" using own_argument_kept [OF assms(2)] v by simp
    then show ?thesis by (rule map_of_key)
  qed
  then have kept: "set (dict_keys args) \<subseteq> set (dict_keys ?p)" by (rule subsetI)
  have "list_all (\<lambda>(k, ty, dflt). dflt \<noteq> None \<or> k \<in> set (dict_keys args)) ?sig"
    using assms(1) unfolding accepts_def by (rule conjunct2)
  then have "list_all (\<lambda>(k, ty, dflt). dflt \<noteq> None \<or> k \<in> set (dict_keys ?p)) ?sig"
    by (rule required_mono [OF kept])
  then show "accepts ?sig ?p" 
    using propagated_typed [OF assms(1,2)] by (simp add: accepts_def list_all_iff)
qed

section \<open>Calls of the stand-ins\<close>

definition uses_stand_ins :: "DemoAgentSettings \<Rightarrow> bool" where
  "uses_stand_ins settings \<longleftrightarrow>
     movie_recommendation_mcp_url settings = server_url 8092 \<and> movie_reservation_mcp_url settings = server_url 8091"

lemma server_urls: "server_url 8091 = ''http://127.0.0.1:8091/mcp''" "server_url 8092 = ''http://127.0.0.1:8092/mcp''"
  by (simp_all add: server_url_def int_text_def nat_text.simps digit_char_def char_of_def bit_simps)

lemma default_settings_use_stand_ins: "uses_stand_ins default_demo_settings"
  by (simp add: uses_stand_ins_def server_urls default_demo_settings_def)

lemma stand_in_at_simps:
  "stand_in_at (server_url 8092) = Some recommendation_server" "stand_in_at (server_url 8091) = Some reservation_server"
  by (simp_all add: stand_in_at_def server_main_def server_urls List.map_filter_def)

definition succeeded :: "string \<Rightarrow> pydict \<Rightarrow> DemoToolResult" where
  "succeeded tool payload =
     \<lparr> dt_tool_name = tool, dt_outcome = ''succeeded'', dt_payload = PDict payload, dt_error = None \<rparr>"

lemma call_stand_in:
  assumes "reaches_stand_ins lib" and "tool \<in> REQUIRED_TOOLS"
    and "stand_in_at (url_for_tool settings tool) = Some server"
    and "map_of server tool = Some (own @ trace_parameters, body)"
    and "accepts (own @ trace_parameters) args"
    and "set (dict_keys own) \<inter> set (dict_keys trace_parameters) = {}"
    and "set (dict_keys args) \<subseteq> set (dict_keys own)"
    and "\<And>arg. (\<forall>k v. k \<in> set (dict_keys own) \<longrightarrow> map_of args k = Some v \<longrightarrow> arg k = v) \<Longrightarrow> body arg = payload"
    and "pget payload ''ok'' = PBool True"
  shows "\<exists>m'. call_tool settings lib tool args ctx fault m = (Inr (succeeded tool payload), m')"
proof -
  let ?tp = "or_opt (lib_traceparent lib m) (tc_traceparent ctx)"
  let ?args = "propagated_arguments args ctx fault ?tp"
  note acc = propagated_accepted [OF assms(5,6,7), where ctx = ctx and fault = fault and tp = ?tp]
  have "stand_in_answer (url_for_tool settings tool) tool ?args = Some payload"
    using acc own_argument_kept [OF assms(6)] assms(3,4,8)
    by (simp add: stand_in_answer_def tool_answer_def bound_def)
  then obtain texts m' where "lib_call lib (url_for_tool settings tool) (to_headers ctx ?tp) tool ?args
      (demo_mcp_timeout_seconds settings) m = (Inr (ToolCallResult (PDict payload) texts False), m')"
    using assms(1) unfolding reaches_stand_ins_def by blast
  moreover have "set (dict_keys payload) \<noteq> {''result''}"
  proof
    assume "set (dict_keys payload) = {''result''}"
    then have "map_of payload ''ok'' = None" by (simp add: map_of_None_keys)
    then show False using assms(9) by (simp add: pget_def)
  qed
  ultimately show ?thesis
    using assms(2,9)
    by (auto simp: call_tool_def Let_def extract_tool_payload_def classify_result_def succeeded_def)
qed

lemma trace_names: "dict_keys trace_parameters =
    [''traceparent'', ''tracestate'', ''correlation_id'', ''request_id'', ''demo_fault'']"
  by (simp add: trace_parameters_def)

lemma trace_defaults [simp]: "list_all (\<lambda>(k, ty, dflt). (\<exists>y. dflt = Some y) \<or> P k) trace_parameters"
  by (simp add: trace_parameters_def)

text \<open>The four calls of the workflow.\<close>

lemmas signature_defs = recommendation_get_movies_signature_def reservation_get_catalog_signature_def
  reservation_request_seats_signature_def reservation_get_request_status_signature_def

lemma stand_in_recommends:
  assumes "reaches_stand_ins lib" and "uses_stand_ins settings"
  shows "\<exists>m'. call_tool settings lib ''recommendation_get_movies'' [(''limit'', PInt n), (''preference'', PStr p)] ctx fault m =
    (Inr (succeeded ''recommendation_get_movies'' (recommendation_get_movies (PInt n))), m')"
  by (rule call_stand_in [OF assms(1), where own = "[(''limit'', IntType, Some (PInt 3)), (''preference'', OptStrType, Some PNone)]"
      and body = "\<lambda>arg. recommendation_get_movies (arg ''limit'')" and server = recommendation_server];
     simp add: assms(2) [unfolded uses_stand_ins_def] url_for_tool_def RECOMMENDATION_TOOL_def REQUIRED_TOOLS_def stand_in_at_simps
       recommendation_server_def signature_defs trace_names accepts_def Let_def recommendation_get_movies_def)

lemma stand_in_shows_catalog:
  assumes "reaches_stand_ins lib" and "uses_stand_ins settings"
  shows "\<exists>m'. call_tool settings lib ''reservation_get_catalog'' [(''movie_id'', PStr i)] ctx fault m =
    (Inr (succeeded ''reservation_get_catalog'' (reservation_get_catalog (PStr i))), m')"
  by (rule call_stand_in [OF assms(1), where own = "[(''movie_id'', OptStrType, Some PNone)]"
      and body = "\<lambda>arg. reservation_get_catalog (arg ''movie_id'')" and server = reservation_server];
     simp add: assms(2) [unfolded uses_stand_ins_def] url_for_tool_def RECOMMENDATION_TOOL_def REQUIRED_TOOLS_def RESERVATION_TOOLS_def
       stand_in_at_simps reservation_server_def signature_defs trace_names accepts_def Let_def reservation_get_catalog_def)

lemma stand_in_requests_seats:
  assumes "reaches_stand_ins lib" and "uses_stand_ins settings"
  shows "\<exists>m'. call_tool settings lib ''reservation_request_seats''
      [(''screening_id'', PStr i), (''seat_ids'', PList [PStr j])] ctx fault m =
    (Inr (succeeded ''reservation_request_seats'' reservation_request_seats), m')"
  by (rule call_stand_in [OF assms(1), where own = "[(''screening_id'', StrType, None), (''seat_ids'', StrListType, None)]"
      and body = "\<lambda>arg. reservation_request_seats" and server = reservation_server];
     simp add: assms(2) [unfolded uses_stand_ins_def] url_for_tool_def RECOMMENDATION_TOOL_def REQUIRED_TOOLS_def RESERVATION_TOOLS_def
       stand_in_at_simps reservation_server_def signature_defs trace_names accepts_def Let_def reservation_request_seats_def)

lemma stand_in_reports_status:
  assumes "reaches_stand_ins lib" and "uses_stand_ins settings"
  shows "\<exists>m'. call_tool settings lib ''reservation_get_request_status'' [(''reservation_request_id'', PStr i)] ctx fault m =
    (Inr (succeeded ''reservation_get_request_status'' (reservation_get_request_status (PStr i))), m')"
  by (rule call_stand_in [OF assms(1), where own = "[(''reservation_request_id'', StrType, None)]"
      and body = "\<lambda>arg. reservation_get_request_status (arg ''reservation_request_id'')" and server = reservation_server];
     simp add: assms(2) [unfolded uses_stand_ins_def] url_for_tool_def RECOMMENDATION_TOOL_def REQUIRED_TOOLS_def RESERVATION_TOOLS_def
       stand_in_at_simps reservation_server_def signature_defs trace_names accepts_def Let_def reservation_get_request_status_def)

section \<open>The workflow against the stand-ins\<close>

lemma call_required_succeeds:
  assumes "call_tool settings lib tool args (dq_trace_context request) (dq_fault request) (wf_world s) =
      (Inr (succeeded tool payload), m')"
  shows "call_required (FastMcpDemoToolClient settings lib) request tool args b s =
      (Inr payload, record_result tool b (succeeded tool payload) (s\<lparr> wf_world := m' \<rparr>))"
  using assms
  by (simp add: call_required_def FastMcpDemoToolClient_def on_client_def bindM_def modify_def succeeded_def ret_def)

definition stand_in_movie :: pydict where
  "stand_in_movie = [(''id'', PStr MOVIE_ID), (''title'', PStr ''The Type-Safe Matinee'')]"

definition stand_in_seat :: "string \<Rightarrow> pydict" where
  "stand_in_seat preference =
     (if substring_of ''aisle'' (casefold preference)
      then [(''id'', PStr ''seat-2''), (''row'', PStr ''A''), (''number'', PInt 2)]
      else [(''id'', PStr ''seat-1''), (''row'', PStr ''A''), (''number'', PInt 1)])"

definition stand_in_screening :: pydict where
  "stand_in_screening =
     [(''id'', PStr ''screening-1''), (''movieId'', PStr MOVIE_ID),
      (''seats'', PList
        [PDict [(''id'', PStr ''seat-1''), (''row'', PStr ''A''), (''number'', PInt 1)],
         PDict [(''id'', PStr ''seat-2''), (''row'', PStr ''A''), (''number'', PInt 2)]])]"

text \<open>The steps of the workflow, each with what it takes from its tool.\<close>

definition noted :: "string list \<Rightarrow> 'm workflow_state \<Rightarrow> bool" where
  "noted tools s \<longleftrightarrow> map dt_tool_name (wf_tool_results s) = tools \<and> wf_slept s = 0 \<and>
     list_all (\<lambda>t. dt_outcome t = ''succeeded'') (wf_tool_results s)"

lemma noted_record:
  assumes "noted tools s" and "tool \<notin> set tools"
  shows "noted (tools @ [tool]) (record_result tool b (succeeded tool payload) (s\<lparr> wf_world := m \<rparr>))"
proof -
  have "filter (\<lambda>item. dt_tool_name item \<noteq> tool) (wf_tool_results s) = wf_tool_results s"
    using assms by (auto simp: noted_def filter_id_conv)
  then show ?thesis using assms(1) by (simp add: noted_def record_result_def succeeded_def)
qed

lemma noted_results:
  assumes "noted tools s"
  shows "map (\<lambda>t. \<lparr> tt_tool_name = dt_tool_name t, tt_outcome = dt_outcome t \<rparr>) (wf_tool_results s) =
    map (\<lambda>tool. \<lparr> tt_tool_name = tool, tt_outcome = ''succeeded'' \<rparr>) tools"
  using assms by (auto simp: noted_def list_all_iff)

lemma recommend_step:
  assumes "reaches_stand_ins lib" "uses_stand_ins settings" and "demo_settings_ok settings" and "noted [] s"
  shows "\<exists>rec t. recommend_movie settings (FastMcpDemoToolClient settings lib) request s = (Inr (rec, MOVIE_ID), t) \<and>
    noted [''recommendation_get_movies''] t"
proof -
  let ?n = "demo_recommendation_limit settings" and ?rec = "[(''id'', PStr ''recommendation-1''),
    (''title'', PStr ''The Type-Safe Matinee''), (''movie_reservation_movie_id'', PStr MOVIE_ID)]"
  obtain m where m: "call_tool settings lib ''recommendation_get_movies''
      [(''limit'', PInt ?n), (''preference'', PStr (dq_movie_preference request))] (dq_trace_context request)
      (dq_fault request) (wf_world s) =
    (Inr (succeeded ''recommendation_get_movies'' (recommendation_get_movies (PInt ?n))), m)"
    using stand_in_recommends [OF assms(1,2)] by blast
  have "nat ?n \<noteq> 0" "0 \<le> ?n" using assms(3) by (simp_all add: demo_settings_ok_def)
  then have "pget (recommendation_get_movies (PInt ?n)) ''recommendations'' = PList [PDict ?rec]"
    by (cases "nat ?n") (simp_all add: recommendation_get_movies_def slice_to_def)
  then show ?thesis
    using noted_record [OF assms(4), of "''recommendation_get_movies''"]
    by (simp add: recommend_movie_def bindM_def call_required_succeeds [OF m] Let_def first_mapping_def string_value_def
        MOVIE_ID_def ret_def)
qed

lemma pick_step:
  assumes "reaches_stand_ins lib" "uses_stand_ins settings" and "noted tools s" and "''reservation_get_catalog'' \<notin> set tools"
  shows "\<exists>i t. pick_seat (FastMcpDemoToolClient settings lib) request rec MOVIE_ID s =
      (Inr (stand_in_movie, stand_in_screening, stand_in_seat (dq_seat_preference request), ''screening-1'', i), t) \<and>
    noted (tools @ [''reservation_get_catalog'']) t"
proof -
  obtain m where m: "call_tool settings lib ''reservation_get_catalog'' [(''movie_id'', PStr MOVIE_ID)]
      (dq_trace_context request) (dq_fault request) (wf_world s) =
    (Inr (succeeded ''reservation_get_catalog'' (reservation_get_catalog (PStr MOVIE_ID))), m)"
    using stand_in_shows_catalog [OF assms(1,2)] by blast
  let ?catalog = "mapping_value (reservation_get_catalog (PStr MOVIE_ID)) ''catalog''"
  have "find_mapping (pget ?catalog ''movies'') ''id'' MOVIE_ID = Some stand_in_movie"
    by (simp add: mapping_value_def reservation_get_catalog_def Let_def MOVIE_ID_def find_mapping_def stand_in_movie_def)
  moreover have "first_screening_with_seats (pget ?catalog ''screenings'') MOVIE_ID = Some stand_in_screening"
    by (simp add: mapping_value_def reservation_get_catalog_def Let_def MOVIE_ID_def first_screening_with_seats_def has_seats_def
        stand_in_screening_def)
  moreover have "choose_seat (Some stand_in_screening) (dq_seat_preference request) =
      Inr (Some (stand_in_seat (dq_seat_preference request)))"
    by (simp add: choose_seat_def stand_in_screening_def stand_in_seat_def seat_number_def)
  moreover have "stand_in_movie \<noteq> []" by (simp add: stand_in_movie_def)
  moreover have "string_value (Some stand_in_screening) ''id'' = Some ''screening-1''"
    by (simp add: stand_in_screening_def string_value_def)
  moreover have "\<exists>i. string_value (Some (stand_in_seat (dq_seat_preference request))) ''id'' = Some i"
    by (simp add: stand_in_seat_def string_value_def)
  ultimately show ?thesis
    using noted_record [OF assms(3,4)]
    by (auto simp: pick_seat_def bindM_def call_required_succeeds [OF m] Let_def liftE_def ret_def)
qed

lemma request_step:
  assumes "reaches_stand_ins lib" "uses_stand_ins settings" and "noted tools s" and "''reservation_request_seats'' \<notin> set tools"
  shows "\<exists>t. request_seat (FastMcpDemoToolClient settings lib) request i j s = (Inr (''request-1'', Some ''requested''), t) \<and>
    noted (tools @ [''reservation_request_seats'']) t"
proof -
  obtain m where m: "call_tool settings lib ''reservation_request_seats''
      [(''screening_id'', PStr i), (''seat_ids'', PList [PStr j])] (dq_trace_context request) (dq_fault request) (wf_world s) =
    (Inr (succeeded ''reservation_request_seats'' reservation_request_seats), m)"
    using stand_in_requests_seats [OF assms(1,2)] by blast
  have "casefold ''REQUESTED'' = ''requested''" by code_simp
  then show ?thesis
    using noted_record [OF assms(3,4)]
    by (simp add: request_seat_def bindM_def call_required_succeeds [OF m] Let_def mapping_value_def reservation_request_seats_def
        string_value_def normalized_status_def ret_def)
qed

lemma status_step:
  assumes "reaches_stand_ins lib" "uses_stand_ins settings" and "noted tools s" and "''reservation_get_request_status'' \<notin> set tools"
  shows "\<exists>t. poll_loop settings (FastMcpDemoToolClient settings lib) request ''request-1'' movie screening seat (Suc n) status s =
      (Inr (decided_result request ''confirmed''
              (''Reserved seat '' @ display_seat seat @ '' for '' @ display_movie movie @ ''.'')
              ''request-1'' movie screening seat (wf_tool_results t)), t) \<and>
    noted (tools @ [''reservation_get_request_status'']) t"
proof -
  obtain m where m: "call_tool settings lib ''reservation_get_request_status'' [(''reservation_request_id'', PStr ''request-1'')]
      (dq_trace_context request) (dq_fault request) (wf_world s) =
    (Inr (succeeded ''reservation_get_request_status'' (reservation_get_request_status (PStr ''request-1''))), m)"
    using stand_in_reports_status [OF assms(1,2)] by blast
  show ?thesis
    using noted_record [OF assms(3,4)]
    by (simp add: bindM_def call_required_succeeds [OF m] Let_def optional_mapping_value_def reservation_get_request_status_def
        gets_def ret_def)
qed

lemma workflow_with_stand_ins:
  assumes lib: "reaches_stand_ins lib" "uses_stand_ins settings" and ok: "demo_settings_ok settings"
  shows "\<exists>s. service_reserve_recommended_seat settings (FastMcpDemoToolClient settings lib) request m =
      (Inr (decided_result request ''confirmed''
         (''Reserved seat '' @ display_seat (stand_in_seat (dq_seat_preference request)) @ '' for The Type-Safe Matinee.'')
         ''request-1'' stand_in_movie stand_in_screening (stand_in_seat (dq_seat_preference request)) (wf_tool_results s)), s) \<and>
    noted (three_tools @ [''reservation_get_request_status'']) s"
proof -
  have "noted [] \<lparr> wf_tool_results = [], wf_slept = 0, wf_world = m \<rparr>" by (simp add: noted_def)
  from recommend_step [OF lib ok this] obtain rec s1 where s1:
    "recommend_movie settings (FastMcpDemoToolClient settings lib) request
       \<lparr> wf_tool_results = [], wf_slept = 0, wf_world = m \<rparr> = (Inr (rec, MOVIE_ID), s1)"
    "noted [''recommendation_get_movies''] s1" by blast
  from pick_step [OF lib s1(2), of request rec] obtain i s2 where s2:
    "pick_seat (FastMcpDemoToolClient settings lib) request rec MOVIE_ID s1 =
      (Inr (stand_in_movie, stand_in_screening, stand_in_seat (dq_seat_preference request), ''screening-1'', i), s2)"
    "noted [''recommendation_get_movies'', ''reservation_get_catalog''] s2" by auto
  from request_step [OF lib s2(2), of request "''screening-1''" i] obtain s3 where s3:
    "request_seat (FastMcpDemoToolClient settings lib) request ''screening-1'' i s2 = (Inr (''request-1'', Some ''requested''), s3)"
    "noted three_tools s3" by auto
  obtain n where n: "nat (demo_reservation_poll_attempts settings) = Suc n"
    using ok by (cases "nat (demo_reservation_poll_attempts settings)") (auto simp: demo_settings_ok_def)
  have "display_movie stand_in_movie = ''The Type-Safe Matinee''"
    by (simp add: display_movie_def stand_in_movie_def string_value_def)
  then show ?thesis
    using status_step [OF lib s3(2), of request stand_in_movie stand_in_screening "stand_in_seat (dq_seat_preference request)" n "Some ''requested''"]
    by (auto simp: service_reserve_recommended_seat_def run_workflow_def bindM_def s1 s2 s3 n simp del: poll_loop.simps)
qed

section \<open>Properties\<close>

text \<open>
  C38 The smoke test against the stand-in servers passes, whatever the request, its headers and its
  fault: over any library that reaches them, with settings that name their URLs, the endpoint answers
  200 with a confirmed reservation of the matinee, the last seat for a preference that mentions the
  aisle and else the first, the ids of the caller, and the four tools, each called successfully.
\<close>

theorem smoke_test_passes:
  assumes "reaches_stand_ins lib" and "uses_stand_ins settings" and "demo_settings_ok settings"
  shows "\<exists>response. fst (reserve_recommended_seat settings (FastMcpDemoToolClient settings lib) new_request_id
      new_workflow_id headers current_traceparent current_trace_id payload m) = Inr (DemoOk response) \<and>
    dp_outcome response = ''confirmed'' \<and> dp_reservation_request_id response = Some ''request-1'' \<and>
    dp_movie response = Some stand_in_movie \<and>
    dp_seat response = Some (stand_in_seat (dd_seat_preference payload)) \<and>
    td_request_id (dp_trace response) = or_else (map_of headers ''x-request-id'') new_request_id \<and>
    td_correlation_id (dp_trace response) =
      or_else (map_of headers ''x-correlation-id'') (td_request_id (dp_trace response)) \<and>
    dp_tool_results response =
      map (\<lambda>tool. \<lparr> tt_tool_name = tool, tt_outcome = ''succeeded'' \<rparr>)
        [''recommendation_get_movies'', ''reservation_get_catalog'', ''reservation_request_seats'',
         ''reservation_get_request_status'']"
proof -
  let ?request = "demo_service_request new_request_id new_workflow_id headers current_traceparent payload"
  obtain s where s: "service_reserve_recommended_seat settings (FastMcpDemoToolClient settings lib) ?request m =
      (Inr (decided_result ?request ''confirmed''
         (''Reserved seat '' @ display_seat (stand_in_seat (dq_seat_preference ?request)) @ '' for The Type-Safe Matinee.'')
         ''request-1'' stand_in_movie stand_in_screening (stand_in_seat (dq_seat_preference ?request)) (wf_tool_results s)), s)"
    and "noted (three_tools @ [''reservation_get_request_status'']) s"
    using workflow_with_stand_ins [OF assms] by blast
  note results = noted_results [OF this(2)]
  let ?r = "decided_result ?request ''confirmed''
         (''Reserved seat '' @ display_seat (stand_in_seat (dq_seat_preference ?request)) @ '' for The Type-Safe Matinee.'')
         ''request-1'' stand_in_movie stand_in_screening (stand_in_seat (dq_seat_preference ?request)) (wf_tool_results s)"
  have "fst (reserve_recommended_seat settings (FastMcpDemoToolClient settings lib) new_request_id
      new_workflow_id headers current_traceparent current_trace_id payload m) = Inr (DemoOk (response_dto current_trace_id ?r))"
    by (simp add: reserve_recommended_seat_def Let_def s answer_reservation_def)
  then show ?thesis
    using results
    by (simp add: response_dto_def decided_result_def trace_dto_def demo_service_request_def trace_from_headers_def Let_def)
qed

text \<open>A library that calls the stand-ins in the same process.\<close>

definition in_process_library :: "unit mcp_library" where
  "in_process_library =
     \<lparr> lib_call = (\<lambda>url headers tool args timeout m.
         (case stand_in_answer url tool args of
            None \<Rightarrow> Inl McpFailure
          | Some payload \<Rightarrow> Inr (ToolCallResult (PDict payload) [] False), m)),
       lib_traceparent = (\<lambda>m. None), lib_json_loads = (\<lambda>text. NotJson), lib_repr = (\<lambda>v. []) \<rparr>"

theorem smoke_test_passes_witness:
  "\<exists>response. fst (reserve_recommended_seat default_demo_settings (FastMcpDemoToolClient default_demo_settings in_process_library)
      ''r'' ''w'' [(''x-correlation-id'', ''smoke-correlation-1'')] None None default_demo_request ()) = Inr (DemoOk response) \<and>
    dp_outcome response = ''confirmed'' \<and> td_correlation_id (dp_trace response) = ''smoke-correlation-1''"
proof -
  have "reaches_stand_ins in_process_library" by (simp add: reaches_stand_ins_def in_process_library_def)
  from smoke_test_passes [OF this default_settings_use_stand_ins default_demo_settings_ok, of "''r''" "''w''"
      "[(''x-correlation-id'', ''smoke-correlation-1'')]" None None default_demo_request "()"]
  show ?thesis by auto
qed

end
