(* ===== verification/Applications.thy ===== *)
theory Applications
  imports HttpMetrics DemoLogin FakeServers
begin

text \<open>
  The two applications as tables of routes: the production application (\<open>app.py\<close>) and the demo
  (\<open>demo_app.py\<close>) with the routers under \<open>api/http/v1/routes\<close>; what of them is counted, what is
  behind authentication, and what the demo is made of.
\<close>

section \<open>Routers\<close>

datatype endpoint =
    DummyHealthEndpoint
  | ThrottleStepsEndpoint
  | CreateAgentRunEndpoint
  | GetRunEndpoint
  | CancelRunEndpoint
  | GetRunEventsEndpoint
  | DemoHealthEndpoint
  | ReserveRecommendedSeatEndpoint
  | DemoLoginEndpoint
  | HealthEndpoint

record route =
  ro_method :: string
  ro_path :: string
  ro_endpoint :: endpoint

definition route_of :: "string \<Rightarrow> string \<Rightarrow> endpoint \<Rightarrow> route" where
  "route_of m path e = \<lparr> ro_method = m, ro_path = path, ro_endpoint = e \<rparr>"

definition health_router :: "route list" where
  "health_router = [route_of ''GET'' ''/dummy-health'' DummyHealthEndpoint]"

definition throttle_router :: "route list" where
  "throttle_router = [route_of ''POST'' ''/calculate_throttle_steps'' ThrottleStepsEndpoint]"

definition agent_router :: "route list" where
  "agent_router =
     [route_of ''POST'' ''/runs'' CreateAgentRunEndpoint,
      route_of ''GET'' ''/runs/{run_id}'' GetRunEndpoint,
      route_of ''POST'' ''/runs/{run_id}/cancel'' CancelRunEndpoint,
      route_of ''GET'' ''/runs/{run_id}/events'' GetRunEventsEndpoint]"

definition demo_router :: "route list" where
  "demo_router =
     [route_of ''GET'' ''/health'' DemoHealthEndpoint,
      route_of ''POST'' ''/reserve-recommended-seat'' ReserveRecommendedSeatEndpoint]"

definition demo_auth_router :: "route list" where
  "demo_auth_router = [route_of ''POST'' ''/demo/auth/login'' DemoLoginEndpoint]"

definition include_router :: "string \<Rightarrow> route list \<Rightarrow> route list" where
  "include_router path_prefix router = map (\<lambda>r. r\<lparr> ro_path := path_prefix @ ro_path r \<rparr>) router"

section \<open>The applications\<close>

definition production_routes :: "route list" where
  "production_routes =
     include_router ''/api/v1/health'' health_router @
     include_router ''/api/v1/throttle'' throttle_router @
     include_router ''/api/v1/agent'' agent_router"

text \<open>
  The demo: its routes, its reservation service with the settings and the client, and its
  authentication service. The client that is not given is the one over MCP, the sink that is not
  given is an argument here.
\<close>

record ('m, 's) demo_app =
  dap_routes :: "route list"
  dap_settings :: DemoAgentSettings
  dap_client :: "'m DemoMcpToolClient"
  dap_authentication :: "'s DemoAuthenticationService option"

definition demo_routes :: "bool \<Rightarrow> route list" where
  "demo_routes login =
     include_router ''/api/v1/demo'' demo_router @
     (if login then include_router [] demo_auth_router else []) @
     [route_of ''GET'' ''/health'' HealthEndpoint]"

definition create_demo_app ::
    "'m mcp_library \<Rightarrow> 's AuditSink \<Rightarrow> environment \<Rightarrow> DemoAgentSettings option \<Rightarrow> 'm DemoMcpToolClient option \<Rightarrow>
     DemoAuthSettings option \<Rightarrow> 's AuditSink option \<Rightarrow> exn + ('m, 's) demo_app" where
  "create_demo_app lib stdout_sink env settings mcp_client auth_settings given_sink =
     (let runtime_settings = (case settings of Some s \<Rightarrow> s | None \<Rightarrow> default_demo_settings);
          runtime_client = (case mcp_client of Some c \<Rightarrow> c | None \<Rightarrow> FastMcpDemoToolClient runtime_settings lib);
          runtime_auth_settings = (case auth_settings of Some a \<Rightarrow> a | None \<Rightarrow> default_auth_settings);
          sink = (case given_sink of Some s \<Rightarrow> s | None \<Rightarrow> stdout_sink) in
      map_sum id
        (\<lambda>service. \<lparr> dap_routes = demo_routes (da_enabled runtime_auth_settings), dap_settings = runtime_settings,
           dap_client = runtime_client, dap_authentication = service \<rparr>)
        (demo_authentication_service runtime_auth_settings (env ''SERVICE_VERSION'') (env ''DEPLOYMENT_ENVIRONMENT'') sink))"

text \<open>\<open>health\<close> of the demo.\<close>

definition demo_app_health :: "DemoAgentSettings \<Rightarrow> (string, string) dict" where
  "demo_app_health settings = [(''status'', ''ok''), (''service'', service_name settings)]"

section \<open>Routes as the telemetry and the framework see them\<close>

definition api_routes :: "route list \<Rightarrow> app_route list" where
  "api_routes routes =
     map (\<lambda>(i, r). ApiRoute \<lparr> ar_id = i, ar_path = ro_path r, ar_methods = Some [ro_method r] \<rparr>) (enumerate 0 routes)"

text \<open>
  A path matches a template segment by segment; a parameter in braces matches any segment that is
  not empty.
\<close>

definition segment_matches :: "string \<Rightarrow> string \<Rightarrow> bool" where
  "segment_matches template segment =
     (if startswith template ''{'' then segment \<noteq> [] else segment = template)"

definition path_matches :: "string \<Rightarrow> string \<Rightarrow> bool" where
  "path_matches template path \<longleftrightarrow>
     list_all2 segment_matches (split_on (CHR ''/'') template) (split_on (CHR ''/'') path)"

definition routed :: "route list \<Rightarrow> string \<Rightarrow> string \<Rightarrow> endpoint option" where
  "routed routes m path =
     map_option ro_endpoint (List.find (\<lambda>r. ro_method r = m \<and> path_matches (ro_path r) path) routes)"

section \<open>Lemmas on paths\<close>

lemma split_on_nonempty: "split_on c t \<noteq> []"
  by (cases t) (auto split: list.split)

lemma split_on_Cons:
  "split_on c t = x # y # ys \<Longrightarrow> \<exists>u. t = x @ c # u \<and> split_on c u = y # ys"
proof (induction t arbitrary: x)
  case (Cons a t)
  show ?case
  proof (cases "a = c")
    case True
    then show ?thesis using Cons.prems by auto
  next
    case False
    obtain p ps where p: "split_on c t = p # ps" using split_on_nonempty by (cases "split_on c t") auto
    then have "x = a # p" "ps = y # ys" using Cons.prems False by auto
    then show ?thesis using Cons.IH [of p] p by auto
  qed
qed simp

text \<open>A template under \<open>/api\<close> is only matched by paths under \<open>/api\<close>.\<close>

lemma api_paths:
  assumes "split_on (CHR ''/'') template = [] # ''api'' # x # xs" and "path_matches template path"
  shows "\<exists>u. path = ''/api/'' @ u"
proof -
  obtain a b y ys where split: "split_on (CHR ''/'') path = a # b # y # ys"
      and "segment_matches [] a" "segment_matches ''api'' b"
    using assms by (auto simp: path_matches_def list_all2_Cons1)
  then have "a = []" "b = ''api''" by (simp_all add: segment_matches_def startswith_def)
  with split obtain u where u: "path = CHR ''/'' # u" "split_on (CHR ''/'') u = ''api'' # y # ys"
    using split_on_Cons [of "CHR ''/''" path a b "y # ys"] by auto
  obtain v where "u = ''api'' @ CHR ''/'' # v" using split_on_Cons [OF u(2)] by blast
  with u(1) show ?thesis by simp
qed

lemma production_templates:
  assumes "r \<in> set production_routes"
  shows "\<exists>x xs. split_on (CHR ''/'') (ro_path r) = [] # ''api'' # x # xs"
  using assms
  by (auto simp: production_routes_def include_router_def health_router_def throttle_router_def agent_router_def route_of_def)

lemma api_path_is_not_excluded:
  "sc_path scope = Some (''/api/'' @ u) \<Longrightarrow> \<not> excluded_path scope"
  by (simp add: excluded_path_def excluded_paths_def startswith_def)

section \<open>Properties\<close>

text \<open>
  C39 Every endpoint of the production application is behind authentication, the one for health checks
  among them: a request whose path matches a route is refused with 401 or 500, with the application
  untouched, or it carries a bearer token that is verified for a user.
\<close>

theorem every_production_endpoint_is_protected:
  assumes "jwt_documented jwt signs" and "scheme_param_documented (xl_scheme_param lib)"
    and "served_type scope" and "sc_path scope = Some path"
    and "r \<in> set production_routes" and "path_matches (ro_path r) path"
    and "with_middlewares lib new_uuid (JwtAuthenticationManager jwt config) app scope receive s = (q, s')"
  shows "(q = Inr () \<and> rq_world s' = rq_world s \<and>
      (\<exists>a \<in> {Answer 401 ''Authentication failed'', Answer 500 ''Unexpected error during authentication''}.
         rq_sent s' = rq_sent s @ [a])) \<or>
    (\<exists>token user c. carries_bearer lib scope token \<and> verified_for jwt signs config c token user)"
proof -
  obtain u where "path = ''/api/'' @ u" using production_templates [OF assms(5)] api_paths assms(6) by blast
  then have "\<not> excluded_path scope" using assms(4) api_path_is_not_excluded by blast
  from verified_or_refused [OF assms(1-3) this assms(7)] show ?thesis by blast
qed

definition health_scope :: asgi_scope where
  "health_scope =
     \<lparr> sc_type = ''http'', sc_method = Some ''GET'', sc_path = Some ''/api/v1/health/dummy-health'', sc_headers = [] \<rparr>"

theorem every_production_endpoint_is_protected_witness:
  "\<exists>a. rq_sent (snd (example_run health_scope)) = [a] \<and> rq_world (snd (example_run health_scope)) = 0"
proof -
  have sp: "scheme_param_documented (xl_scheme_param example_extractors)"
    by (simp add: example_extractors_def example_scheme_param_documented)
  have r: "hd production_routes \<in> set production_routes" by (simp add: production_routes_def include_router_def health_router_def)
  have m: "path_matches (ro_path (hd production_routes)) ''/api/v1/health/dummy-health''" by code_simp
  have t: "served_type health_scope" by code_simp
  have p: "sc_path health_scope = Some ''/api/v1/health/dummy-health''" by (simp add: health_scope_def)
  obtain q s' where run: "example_run health_scope = (q, s')" by fastforce
  have "\<not> carries_bearer example_extractors health_scope token" for token
    by (simp add: carries_bearer_def health_scope_def header_get_def)
  with every_production_endpoint_is_protected [OF example_jwt_documented sp t p r m run] run
  show ?thesis by (auto simp: example_request_state_def)
qed

text \<open>
  The check of the container set-up, a GET of \<open>/api/v1/health/dummy-health\<close> without a token, succeeds
  with neither application: the demo, which the image runs, has no such route, and in the production
  application it is answered with 401 or 500 as above.
\<close>

theorem compose_health_check_has_no_demo_route:
  "routed (demo_routes login) ''GET'' ''/api/v1/health/dummy-health'' = None \<and>
   routed (demo_routes login) ''GET'' ''/health'' = Some HealthEndpoint \<and>
   routed production_routes ''GET'' ''/api/v1/health/dummy-health'' = Some DummyHealthEndpoint \<and>
   routed production_routes ''GET'' ''/health'' = None"
proof -
  have "routed (demo_routes True) ''GET'' ''/api/v1/health/dummy-health'' = None"
    "routed (demo_routes False) ''GET'' ''/api/v1/health/dummy-health'' = None"
    "routed (demo_routes True) ''GET'' ''/health'' = Some HealthEndpoint"
    "routed (demo_routes False) ''GET'' ''/health'' = Some HealthEndpoint"
    "routed production_routes ''GET'' ''/api/v1/health/dummy-health'' = Some DummyHealthEndpoint"
    "routed production_routes ''GET'' ''/health'' = None"
    by code_simp+
  then show ?thesis by (cases login) auto
qed

text \<open>What the counter of outcomes counts of the two applications: everything but the health checks.\<close>

theorem counted_endpoints:
  "map (\<lambda>((m, i), path). (m, path)) (eligible_route_methods (api_routes production_routes)) =
     [(''POST'', ''/api/v1/throttle/calculate_throttle_steps''), (''POST'', ''/api/v1/agent/runs''),
      (''GET'', ''/api/v1/agent/runs/{run_id}''), (''POST'', ''/api/v1/agent/runs/{run_id}/cancel''),
      (''GET'', ''/api/v1/agent/runs/{run_id}/events'')] \<and>
   map (\<lambda>((m, i), path). (m, path)) (eligible_route_methods (api_routes (demo_routes True))) =
     [(''POST'', ''/api/v1/demo/reserve-recommended-seat''), (''POST'', ''/demo/auth/login'')]"
  by (intro conjI; code_simp)

lemma demo_routes_login: "(\<exists>r \<in> set (demo_routes login). ro_endpoint r = DemoLoginEndpoint) \<longleftrightarrow> login"
  by (simp add: demo_routes_def include_router_def demo_router_def demo_auth_router_def route_of_def)

lemma enabled_service:
  assumes "require_explicit_credentials st = Inr st" and "da_enabled st"
  shows "\<exists>service. demo_authentication_service st (env ''SERVICE_VERSION'') (env ''DEPLOYMENT_ENVIRONMENT'') sink =
    map_sum id (\<lambda>source. Some (service source)) (new_source ''movie-reservation-agent'' (getenv env ''SERVICE_VERSION'' ''unknown'')
        (getenv env ''DEPLOYMENT_ENVIRONMENT'' ''local''))"
proof -
  obtain username password where "da_username st = Some username" "da_password st = Some password"
    using assms by (auto simp: require_explicit_credentials_def explicit_secret_def split: if_splits option.splits)
  then have "demo_authentication_service st (env ''SERVICE_VERSION'') (env ''DEPLOYMENT_ENVIRONMENT'') sink =
    map_sum id (\<lambda>source. Some (new_authentication_service username password source sink))
      (new_source ''movie-reservation-agent'' (getenv env ''SERVICE_VERSION'' ''unknown'')
        (getenv env ''DEPLOYMENT_ENVIRONMENT'' ''local''))"
    using assms(2) by (simp add: demo_authentication_service_def getenv_def)
  then show ?thesis by (rule exI [of _ "\<lambda>source. new_authentication_service username password source sink"])
qed

lemma disabled_service: "\<not> da_enabled st \<Longrightarrow> demo_authentication_service st v e sink = Inr None"
  by (simp add: demo_authentication_service_def)

text \<open>
  The demo has a login exactly when it is enabled: an application that can be built has the login
  route if and only if it has an authentication service, which is if and only if the settings enable
  it; without settings it is disabled. Valid settings that enable it have credentials, so building
  fails only for an environment that no audit source can be made of. The reservation service gets
  the settings and the client that were given, or the default ones.
\<close>

theorem demo_login_is_optional:
  assumes "\<And>given. auth_settings = Some given \<Longrightarrow> require_explicit_credentials given = Inr given"
    and "(case auth_settings of Some given \<Rightarrow> da_enabled given | None \<Rightarrow> False) = enabled"
  shows "case create_demo_app lib stdout_sink env settings mcp_client auth_settings given_sink of
      Inr app \<Rightarrow>
        ((\<exists>r \<in> set (dap_routes app). ro_endpoint r = DemoLoginEndpoint) \<longleftrightarrow> enabled) \<and>
        (dap_authentication app \<noteq> None \<longleftrightarrow> enabled) \<and>
        dap_settings app = (case settings of Some s \<Rightarrow> s | None \<Rightarrow> default_demo_settings) \<and>
        (mcp_client = None \<longrightarrow> dap_client app = FastMcpDemoToolClient (dap_settings app) lib)
    | Inl e \<Rightarrow> enabled \<and> new_source ''movie-reservation-agent'' (getenv env ''SERVICE_VERSION'' ''unknown'')
        (getenv env ''DEPLOYMENT_ENVIRONMENT'' ''local'') = Inl e"
proof -
  let ?auth = "case auth_settings of Some a \<Rightarrow> a | None \<Rightarrow> default_auth_settings"
    and ?sink = "case given_sink of Some s \<Rightarrow> s | None \<Rightarrow> stdout_sink"
    and ?source = "new_source ''movie-reservation-agent'' (getenv env ''SERVICE_VERSION'' ''unknown'')
        (getenv env ''DEPLOYMENT_ENVIRONMENT'' ''local'')"
  have enabled: "da_enabled ?auth = enabled"
    using assms(2) by (cases auth_settings) (simp_all add: default_auth_settings_def)
  have built: "create_demo_app lib stdout_sink env settings mcp_client auth_settings given_sink =
      map_sum id (\<lambda>service. \<lparr> dap_routes = demo_routes enabled,
         dap_settings = (case settings of Some s \<Rightarrow> s | None \<Rightarrow> default_demo_settings),
         dap_client = (case mcp_client of Some c \<Rightarrow> c | None \<Rightarrow>
           FastMcpDemoToolClient (case settings of Some s \<Rightarrow> s | None \<Rightarrow> default_demo_settings) lib),
         dap_authentication = service \<rparr>)
      (demo_authentication_service ?auth (env ''SERVICE_VERSION'') (env ''DEPLOYMENT_ENVIRONMENT'') ?sink)"
    by (simp add: create_demo_app_def Let_def enabled)
  show ?thesis
  proof (cases enabled)
    case False
    then have "\<not> da_enabled ?auth" using enabled by simp
    then show ?thesis using False by (simp add: built demo_routes_login disabled_service)
  next
    case True
    then have "require_explicit_credentials ?auth = Inr ?auth"
      using assms by (cases auth_settings) auto
    from enabled_service [OF this, of env ?sink] enabled True
    show ?thesis by (cases ?source) (auto simp: built demo_routes_login)
  qed
qed

end
