(* ===== verification/Launch.thy ===== *)
theory Launch
  imports Values
begin

text \<open>
  How the process is set up: its log lines (\<open>core/log_config.py\<close>), the settings of server and database
  (\<open>core/uvicorn_server_config.py\<close>, \<open>core/database_config.py\<close>), the start script \<open>manage.py\<close> with
  \<open>core/uvicorn_log_config.py\<close>, the configuration of the database engine and its migrations
  (\<open>infrastructure/db\<close>), and the retriever of game states from files
  (\<open>infrastructure/game/retriever/file.py\<close>).
\<close>

section \<open>Log lines\<close>

text \<open>
  A processor maps the fields of a record, at the level of the call. The processors of the logging
  library are parameters, with the fields that the current context binds and the renderer; so is
  what the library does with a call while it is not configured.
\<close>

datatype log_level = Debug | Info | Warning | Error | Critical

fun level_no :: "log_level \<Rightarrow> nat" where
  "level_no Debug = 10"
| "level_no Info = 20"
| "level_no Warning = 30"
| "level_no Error = 40"
| "level_no Critical = 50"

type_synonym processor = "log_level \<Rightarrow> pydict \<Rightarrow> pydict"

record structlog_library =
  bound_context :: pydict
  merge_contextvars :: processor
  maybe_time_stamper :: processor
  add_log_level :: processor
  format_exc_info :: processor
  remove_processors_meta :: processor
  json_renderer :: "pydict \<Rightarrow> string"
  unconfigured :: "log_level \<Rightarrow> pydict \<Rightarrow> string list"

definition setdefault :: "string \<Rightarrow> pyval \<Rightarrow> pydict \<Rightarrow> pydict" where
  "setdefault k v d = (if k \<in> fst ` set d then d else d @ [(k, v)])"

definition add_static_fields :: processor where
  "add_static_fields name event_dict =
     setdefault ''version'' (PStr ''0.1'') (setdefault ''service_name'' (PStr ''llm_agent_fastapi'') event_dict)"

definition SHARED_PROCESSORS :: "structlog_library \<Rightarrow> processor list" where
  "SHARED_PROCESSORS lib =
     [merge_contextvars lib, maybe_time_stamper lib, add_static_fields, add_log_level lib, format_exc_info lib]"

definition processed :: "processor list \<Rightarrow> processor" where
  "processed ps level = fold (\<lambda>p. p level) ps"

text \<open>
  The logging of the process: the handlers of the root logger, each with its formatter, its level
  (\<open>WARNING\<close> before it is set), and the processors of the library once they are configured.
\<close>

record ProcessorFormatter =
  foreign_pre_chain :: "processor list"
  final_processors :: "processor list"
  final_renderer :: "pydict \<Rightarrow> string"

record logging_state =
  root_handlers :: "ProcessorFormatter list"
  root_level :: nat
  structlog_processors :: "processor list option"

definition fresh_logging :: logging_state where
  "fresh_logging = \<lparr> root_handlers = [], root_level = level_no Warning, structlog_processors = None \<rparr>"

definition configure_structlog :: "structlog_library \<Rightarrow> logging_state \<Rightarrow> logging_state" where
  "configure_structlog lib st = st\<lparr> structlog_processors := Some (SHARED_PROCESSORS lib) \<rparr>"

definition configure_python_logging :: "structlog_library \<Rightarrow> logging_state \<Rightarrow> logging_state" where
  "configure_python_logging lib st =
     (let formatter = \<lparr> foreign_pre_chain = SHARED_PROCESSORS lib,
                        final_processors = [remove_processors_meta lib],
                        final_renderer = json_renderer lib \<rparr>
      in st\<lparr> root_handlers := root_handlers st @ [formatter], root_level := level_no Info \<rparr>)"

definition configure_logging :: "structlog_library \<Rightarrow> logging_state \<Rightarrow> logging_state" where
  "configure_logging lib st = configure_structlog lib (configure_python_logging lib st)"

text \<open>
  What a call writes, of a logger without a level of its own: through the library, which applies its
  processors before it hands the record to the handlers, or through \<open>logging\<close> directly, where each
  formatter applies its chain for foreign records.
\<close>

definition structlog_writes :: "structlog_library \<Rightarrow> logging_state \<Rightarrow> log_level \<Rightarrow> pydict \<Rightarrow> string list" where
  "structlog_writes lib st level event_dict =
     (case structlog_processors st of
        None \<Rightarrow> unconfigured lib level event_dict
      | Some ps \<Rightarrow>
          if root_level st \<le> level_no level
          then map (\<lambda>f. final_renderer f (processed (final_processors f) level (processed ps level event_dict)))
            (root_handlers st)
          else [])"

definition logging_writes :: "logging_state \<Rightarrow> log_level \<Rightarrow> pydict \<Rightarrow> string list" where
  "logging_writes st level event_dict =
     (if root_level st \<le> level_no level
      then map (\<lambda>f. final_renderer f
          (processed (final_processors f) level (processed (foreign_pre_chain f) level event_dict))) (root_handlers st)
      else [])"

text \<open>
  What the library documents: fields of the call win over those of the context, and its other
  processors touch fields of their own only.
\<close>

definition structlog_documented :: "structlog_library \<Rightarrow> bool" where
  "structlog_documented lib \<longleftrightarrow>
     (\<forall>l d k. map_of (merge_contextvars lib l d) k =
        (case map_of d k of None \<Rightarrow> map_of (bound_context lib) k | Some v \<Rightarrow> Some v)) \<and>
     (\<forall>l d k. k \<noteq> ''timestamp'' \<longrightarrow> map_of (maybe_time_stamper lib l d) k = map_of d k) \<and>
     (\<forall>l d k. k \<noteq> ''level'' \<longrightarrow> map_of (add_log_level lib l d) k = map_of d k) \<and>
     (\<forall>l d k. k \<notin> {''exc_info'', ''exception''} \<longrightarrow> map_of (format_exc_info lib l d) k = map_of d k) \<and>
     (\<forall>l d k. k \<notin> {''_record'', ''_from_structlog''} \<longrightarrow> map_of (remove_processors_meta lib l d) k = map_of d k)"

lemma map_of_setdefault [simp]:
  "map_of (setdefault k v d) j = (case map_of d j of None \<Rightarrow> if j = k then Some v else None | Some w \<Rightarrow> Some w)"
proof -
  have "k \<in> fst ` set d \<longleftrightarrow> map_of d k \<noteq> None"
    by (simp add: map_of_eq_None_iff)
  then show ?thesis
    by (auto simp: setdefault_def map_add_def split: option.split)
qed

text \<open>The fields that every line has, with the value of the call, of the context, or the default.\<close>

definition labelled :: "structlog_library \<Rightarrow> pydict \<Rightarrow> string \<Rightarrow> pyval \<Rightarrow> pyval" where
  "labelled lib d k v =
     (case map_of d k of Some w \<Rightarrow> w | None \<Rightarrow> (case map_of (bound_context lib) k of Some w \<Rightarrow> w | None \<Rightarrow> v))"

lemma map_of_shared:
  assumes "structlog_documented lib" and "k \<notin> {''timestamp'', ''level'', ''exc_info'', ''exception''}"
  shows "map_of (processed (SHARED_PROCESSORS lib) l d) k =
    map_of (add_static_fields l (merge_contextvars lib l d)) k"
  using assms by (simp add: structlog_documented_def processed_def SHARED_PROCESSORS_def add_static_fields_def)

lemma shared_labels:
  assumes "structlog_documented lib"
  shows "map_of (processed (SHARED_PROCESSORS lib) l d) ''service_name'' =
      Some (labelled lib d ''service_name'' (PStr ''llm_agent_fastapi''))"
    and "map_of (processed (SHARED_PROCESSORS lib) l d) ''version'' = Some (labelled lib d ''version'' (PStr ''0.1''))"
  using assms
  by (simp_all add: map_of_shared, simp_all add: structlog_documented_def add_static_fields_def labelled_def
      split: option.split)

definition configured :: "structlog_library \<Rightarrow> nat \<Rightarrow> logging_state" where
  "configured lib n = (configure_logging lib ^^ n) fresh_logging"

lemma configured_Suc:
  "root_handlers (configured lib (Suc n)) =
     replicate (Suc n) \<lparr> foreign_pre_chain = SHARED_PROCESSORS lib,
       final_processors = [remove_processors_meta lib], final_renderer = json_renderer lib \<rparr>"
  "root_level (configured lib (Suc n)) = 20"
  "structlog_processors (configured lib (Suc n)) = Some (SHARED_PROCESSORS lib)"
  by (induction n)
    (simp_all add: configured_def configure_logging_def configure_structlog_def configure_python_logging_def
      fresh_logging_def replicate_append_same [symmetric])

lemma written_when_configured:
  "structlog_writes lib (configured lib (Suc n)) level d = logging_writes (configured lib (Suc n)) level d"
  "logging_writes (configured lib (Suc n)) level d =
     (if level = Debug then []
      else replicate (Suc n)
        (json_renderer lib (remove_processors_meta lib level (processed (SHARED_PROCESSORS lib) level d))))"
  by (cases level; simp add: structlog_writes_def logging_writes_def configured_Suc processed_def del: replicate_Suc)+

text \<open>
  Whatever the number of times the application sets its logging up, and whether a record comes
  through the logging library or from foreign code: each set-up makes one line of every record of
  level INFO or above, none of a record below, and the record that is rendered names the service and
  its version, with the values of the call first, of the bound context next, and the defaults last.
\<close>

theorem log_lines_are_labelled:
  assumes "structlog_documented lib"
  shows "\<exists>fields.
    structlog_writes lib (configured lib (Suc n)) level d =
      (if level_no level < 20 then [] else replicate (Suc n) (json_renderer lib fields)) \<and>
    logging_writes (configured lib (Suc n)) level d = structlog_writes lib (configured lib (Suc n)) level d \<and>
    map_of fields ''service_name'' = Some (labelled lib d ''service_name'' (PStr ''llm_agent_fastapi'')) \<and>
    map_of fields ''version'' = Some (labelled lib d ''version'' (PStr ''0.1''))"
proof (intro exI conjI)
  let ?fields = "remove_processors_meta lib level (processed (SHARED_PROCESSORS lib) level d)"
  show "structlog_writes lib (configured lib (Suc n)) level d =
      (if level_no level < 20 then [] else replicate (Suc n) (json_renderer lib ?fields))"
    by (cases level) (simp_all add: written_when_configured del: replicate_Suc)
  show "logging_writes (configured lib (Suc n)) level d = structlog_writes lib (configured lib (Suc n)) level d"
    by (simp add: written_when_configured)
  show "map_of ?fields ''service_name'' = Some (labelled lib d ''service_name'' (PStr ''llm_agent_fastapi''))"
    "map_of ?fields ''version'' = Some (labelled lib d ''version'' (PStr ''0.1''))"
    using assms shared_labels [OF assms] by (simp_all add: structlog_documented_def)
qed

definition plain_structlog :: structlog_library where
  "plain_structlog =
     \<lparr> bound_context = [(''request_id'', PStr ''r1'')],
       merge_contextvars = (\<lambda>_ d. d @ [(''request_id'', PStr ''r1'')]),
       maybe_time_stamper = (\<lambda>_ d. setdefault ''timestamp'' (PStr ''now'') d),
       add_log_level = (\<lambda>l d. d @ [(''level'', PInt (int (level_no l)))]),
       format_exc_info = (\<lambda>_ d. d),
       remove_processors_meta = (\<lambda>_ d. d),
       json_renderer = (\<lambda>d. concat (map fst d)),
       unconfigured = (\<lambda>_ _. []) \<rparr>"

theorem log_lines_example:
  "structlog_documented plain_structlog \<and>
   (\<exists>fields. structlog_writes plain_structlog (configured plain_structlog (Suc 1)) Warning
       [(''event'', PStr ''lost''), (''version'', PStr ''2'')] =
     (if level_no Warning < 20 then [] else replicate (Suc 1) (json_renderer plain_structlog fields)) \<and>
     map_of fields ''service_name'' = Some (PStr ''llm_agent_fastapi'') \<and>
     map_of fields ''version'' = Some (PStr ''2''))"
proof -
  have "structlog_documented plain_structlog"
    by (auto simp: structlog_documented_def plain_structlog_def map_add_def split: option.split)
  with log_lines_are_labelled [OF this, of 1 Warning "[(''event'', PStr ''lost''), (''version'', PStr ''2'')]"]
  show ?thesis
    by (auto simp: labelled_def plain_structlog_def)
qed

section \<open>Settings\<close>

text \<open>
  The settings library reads a field from the environment variable named by prefix and field, in any
  case, parses numbers and truth values, and refuses the whole object when one of them does not parse.
\<close>

datatype launch_error = ValidationError | FileError exn | JSONDecodeError | Raised exn

record settings_library =
  env_value :: "string \<Rightarrow> string option"
  int_value :: "string \<Rightarrow> int option"
  bool_value :: "string \<Rightarrow> bool option"

definition setting :: "(string \<Rightarrow> 'a option) \<Rightarrow> string option \<Rightarrow> 'a \<Rightarrow> 'a option" where
  "setting parse text fallback = (case text of None \<Rightarrow> Some fallback | Some t \<Rightarrow> parse t)"

record UvicornServerConfig =
  host :: string
  port :: int
  log_level :: string
  reload :: bool
  log_config_path :: string

definition default_log_config_path :: string where
  "default_log_config_path = ''./llm_agent/configuration/log_config_json.json''"

definition new_UvicornServerConfig :: "settings_library \<Rightarrow> launch_error + UvicornServerConfig" where
  "new_UvicornServerConfig lib =
     (let env = (\<lambda>name. env_value lib (''uvicorn_'' @ name)) in
      case (setting Some (env ''host'') ''0.0.0.0'', setting (int_value lib) (env ''port'') 8080,
            setting Some (env ''log_level'') ''info'', setting (bool_value lib) (env ''reload'') False,
            setting Some (env ''log_config_path'') default_log_config_path) of
        (Some h, Some p, Some l, Some r, Some c) \<Rightarrow>
          Inr \<lparr> host = h, port = p, log_level = l, reload = r, log_config_path = c \<rparr>
      | _ \<Rightarrow> Inl ValidationError)"

record PiccoloDBConfig =
  db_host :: string
  db_port :: int
  db_user :: string
  db_password :: string
  db_database :: string
  db_run_migrations :: bool

definition new_PiccoloDBConfig :: "settings_library \<Rightarrow> launch_error + PiccoloDBConfig" where
  "new_PiccoloDBConfig lib =
     (let env = (\<lambda>name. env_value lib (''piccolo_'' @ name)) in
      case (setting Some (env ''db_host'') ''localhost'', setting (int_value lib) (env ''db_port'') 5432,
            setting Some (env ''db_user'') ''postgres'', setting Some (env ''db_password'') ''postgres'',
            setting Some (env ''db_database'') ''postgres'', setting (bool_value lib) (env ''db_run_migrations'') False) of
        (Some h, Some p, Some u, Some w, Some d, Some m) \<Rightarrow>
          Inr \<lparr> db_host = h, db_port = p, db_user = u, db_password = w, db_database = d, db_run_migrations = m \<rparr>
      | _ \<Rightarrow> Inl ValidationError)"

section \<open>The start script\<close>

text \<open>
  Opening a file and decoding JSON are parameters. The script ends in the call that serves; the state
  is the logging of the process with the lines it wrote. The text of the settings in the line of a
  reloading server is a parameter too.
\<close>

record disk =
  open_file :: "string \<Rightarrow> exn + string"
  decode_json :: "string \<Rightarrow> pyval option"

definition read_json :: "disk \<Rightarrow> string \<Rightarrow> launch_error + pyval" where
  "read_json fs path =
     (case open_file fs path of
        Inl e \<Rightarrow> Inl (FileError e)
      | Inr text \<Rightarrow> (case decode_json fs text of None \<Rightarrow> Inl JSONDecodeError | Some v \<Rightarrow> Inr v))"

definition load_json_log_config :: "disk \<Rightarrow> string \<Rightarrow> launch_error + pyval" where
  "load_json_log_config fs path = read_json fs path"

definition LOGGING_CONFIG :: "disk \<Rightarrow> launch_error + pyval" where
  "LOGGING_CONFIG fs = load_json_log_config fs default_log_config_path"

record uvicorn_run =
  run_app :: string
  run_host :: string
  run_port :: int
  run_log_level :: string
  run_log_config :: pyval
  run_reload :: bool
  run_factory :: bool

definition uvicorn_arguments :: "UvicornServerConfig \<Rightarrow> pyval \<Rightarrow> uvicorn_run" where
  "uvicorn_arguments config log_config =
     \<lparr> run_app = ''llm_agent.di.fastapi_composition:compose_fastapi_app_with_registrars'',
       run_host = host config, run_port = port config, run_log_level = log_level config,
       run_log_config = log_config, run_reload = reload config, run_factory = True \<rparr>"

type_synonym logged_process = "logging_state \<times> string list"

definition log_call :: "structlog_library \<Rightarrow> log_level \<Rightarrow> pydict \<Rightarrow> (launch_error, logged_process, unit) eprog" where
  "log_call lib level d = modify (\<lambda>(st, written). (st, written @ structlog_writes lib st level d))"

definition manage_main ::
    "settings_library \<Rightarrow> disk \<Rightarrow> structlog_library \<Rightarrow> (UvicornServerConfig \<Rightarrow> string) \<Rightarrow>
     (launch_error, logged_process, uvicorn_run) eprog" where
  "manage_main lib fs slib shown =
     bindM (liftE (new_UvicornServerConfig lib)) (\<lambda>uvicorn_server_config.
     bindM (liftE (load_json_log_config fs (log_config_path uvicorn_server_config))) (\<lambda>log_config.
     bindM (if reload uvicorn_server_config
            then bindM (modify (\<lambda>(st, written). (configure_logging slib st, written))) (\<lambda>_.
              log_call slib Info
                [(''event'', PStr (''Uvicorn server configuration: '' @ shown uvicorn_server_config))])
            else ret ()) (\<lambda>_.
     ret (uvicorn_arguments uvicorn_server_config log_config))))"

text \<open>The script as a whole: its imports first, which read the default file.\<close>

definition manage ::
    "settings_library \<Rightarrow> disk \<Rightarrow> structlog_library \<Rightarrow> (UvicornServerConfig \<Rightarrow> string) \<Rightarrow>
     (launch_error, logged_process, uvicorn_run) eprog" where
  "manage lib fs slib shown = bindM (liftE (LOGGING_CONFIG fs)) (\<lambda>_. manage_main lib fs slib shown)"

text \<open>When it serves, it serves what is configured; when it does not, nothing has been written or set up.\<close>

lemma new_UvicornServerConfig_Inr:
  assumes "new_UvicornServerConfig lib = Inr c"
  shows "host c = (case env_value lib ''uvicorn_host'' of None \<Rightarrow> ''0.0.0.0'' | Some t \<Rightarrow> t)"
    and "case env_value lib ''uvicorn_port'' of None \<Rightarrow> port c = 8080 | Some t \<Rightarrow> int_value lib t = Some (port c)"
    and "case env_value lib ''uvicorn_reload'' of None \<Rightarrow> \<not> reload c | Some t \<Rightarrow> bool_value lib t = Some (reload c)"
    and "log_config_path c =
      (case env_value lib ''uvicorn_log_config_path'' of None \<Rightarrow> default_log_config_path | Some t \<Rightarrow> t)"
  using assms by (auto simp: new_UvicornServerConfig_def setting_def Let_def split: option.splits)

lemma manage_cases:
  obtains (import_fails) e where "LOGGING_CONFIG fs = Inl e" and "manage lib fs slib shown p = (Inl e, p)"
  | (invalid) "new_UvicornServerConfig lib = Inl ValidationError" and "manage lib fs slib shown p = (Inl ValidationError, p)"
  | (no_config) c e where "new_UvicornServerConfig lib = Inr c"
      and "load_json_log_config fs (log_config_path c) = Inl e" and "manage lib fs slib shown p = (Inl e, p)"
  | (serves) c v d where "LOGGING_CONFIG fs = Inr d" and "new_UvicornServerConfig lib = Inr c"
      and "load_json_log_config fs (log_config_path c) = Inr v"
      and "manage lib fs slib shown p = (Inr (uvicorn_arguments c v), if reload c
        then (configure_logging slib (fst p), snd p @ structlog_writes slib (configure_logging slib (fst p)) Info
          [(''event'', PStr (''Uvicorn server configuration: '' @ shown c))]) else p)"
proof (cases "LOGGING_CONFIG fs")
  case (Inl e)
  then show thesis
    by (intro import_fails) (simp_all add: manage_def prog_simps)
next
  case default: (Inr d)
  show thesis
  proof (cases "new_UvicornServerConfig lib")
    case (Inl e)
    moreover from this have "e = ValidationError"
      by (auto simp: new_UvicornServerConfig_def Let_def split: option.splits)
    ultimately show thesis
      using default by (intro invalid) (simp_all add: manage_def manage_main_def prog_simps)
  next
    case c: (Inr c)
    show thesis
    proof (cases "load_json_log_config fs (log_config_path c)")
      case (Inl e)
      with c default show thesis
        by (intro no_config) (simp_all add: manage_def manage_main_def prog_simps)
    next
      case (Inr v)
      with c default show thesis
        by (intro serves [OF default c Inr])
          (simp_all add: manage_def manage_main_def log_call_def prog_simps bindM_def split: prod.split)
    qed
  qed
qed

text \<open>
  The process that serves calls \<open>create_app\<close>, which sets logging up once: this process, or, when it
  reloads, a new one that it starts.
\<close>

definition serving_logging :: "structlog_library \<Rightarrow> uvicorn_run \<Rightarrow> logging_state \<Rightarrow> logging_state" where
  "serving_logging slib r st = configure_logging slib (if run_reload r then fresh_logging else st)"

theorem served_records_make_one_line:
  assumes "manage lib fs slib shown (fresh_logging, []) = (Inr r, st, written)" and "level \<noteq> Debug"
  shows "length (structlog_writes slib (serving_logging slib r st) level d) = 1"
    and "length written = (if run_reload r then 1 else 0)"
proof -
  have "serving_logging slib r st = configured slib (Suc 0) \<and> length written = (if run_reload r then 1 else 0)"
  proof (cases rule: manage_cases [of fs lib slib shown "(fresh_logging, [])"])
    case (serves c v d)
    moreover have "configure_logging slib fresh_logging = configured slib (Suc 0)"
      by (simp add: configured_def)
    ultimately show ?thesis
      using assms(1)
      by (auto simp: serving_logging_def uvicorn_arguments_def written_when_configured split: if_splits)
  qed (use assms(1) in auto)
  then show "length (structlog_writes slib (serving_logging slib r st) level d) = 1"
    "length written = (if run_reload r then 1 else 0)"
    using assms(2) by (simp_all add: written_when_configured)
qed

text \<open>A configured path does not help when the default file is missing: the import reads that one.\<close>

theorem default_log_config_is_required:
  assumes "open_file fs default_log_config_path = Inl e"
  shows "manage lib fs slib shown p = (Inl (FileError e), p)"
  using assms by (simp add: manage_def LOGGING_CONFIG_def load_json_log_config_def read_json_def prog_simps)

section \<open>The database\<close>

definition POSTGRES_CONFIG :: "PiccoloDBConfig \<Rightarrow> pydict" where
  "POSTGRES_CONFIG PICCOLO_DB_CONFIG =
     [(''host'', PStr (db_host PICCOLO_DB_CONFIG)),
      (''port'', PInt (db_port PICCOLO_DB_CONFIG)),
      (''user'', PStr (db_user PICCOLO_DB_CONFIG)),
      (''password'', PStr (db_password PICCOLO_DB_CONFIG)),
      (''database'', PStr (db_database PICCOLO_DB_CONFIG)),
      (''statement_cache_size'', PInt 0),
      (''command_timeout'', PFloat (Fin 3)),
      (''timeout'', PFloat (Fin 2)),
      (''server_settings'', PDict [(''application_name'', PStr ''llm-agent-fastapi'')])]"

text \<open>The constructor of the engine is a parameter.\<close>

definition start_engine :: "(pydict \<Rightarrow> 'engine) \<Rightarrow> PiccoloDBConfig \<Rightarrow> 'engine" where
  "start_engine new_PostgresEngine config = new_PostgresEngine (POSTGRES_CONFIG config)"

definition piccolo_DB :: "settings_library \<Rightarrow> (pydict \<Rightarrow> 'engine) \<Rightarrow> launch_error + 'engine" where
  "piccolo_DB lib new_PostgresEngine = map_sum (\<lambda>e. e) (start_engine new_PostgresEngine) (new_PiccoloDBConfig lib)"

definition get_db_pool_config :: pydict where
  "get_db_pool_config =
     [(''min_size'', PInt 1), (''max_size'', PInt 20), (''max_queries'', PInt 50000),
      (''max_inactive_connection_lifetime'', PInt 100)]"

record AppConfig =
  app_name :: string
  migrations_folder_path :: string
  table_classes :: "string list"
  migration_dependencies :: "string list"
  commands :: "string list"

definition APP_CONFIG :: "string \<Rightarrow> AppConfig" where
  "APP_CONFIG CURRENT_DIRECTORY =
     \<lparr> app_name = ''piccolo_llm_agent_app'',
       migrations_folder_path = CURRENT_DIRECTORY @ ''/piccolo_migrations'',
       table_classes = [], migration_dependencies = [], commands = [] \<rparr>"

definition APP_REGISTRY :: "string list" where
  "APP_REGISTRY = [''llm_agent.infrastructure.db.piccolo_llm_agent_app.piccolo_app'']"

text \<open>\<open>maybe_migrate\<close>: the state is the list of shell commands run so far.\<close>

definition maybe_migrate :: "settings_library \<Rightarrow> (launch_error, string list, unit) eprog" where
  "maybe_migrate lib =
     bindM (liftE (new_PiccoloDBConfig lib)) (\<lambda>piccolo_db_config.
       if db_run_migrations piccolo_db_config
       then modify (\<lambda>executed. executed @ [''piccolo migrations forwards all''])
       else ret ())"

text \<open>Migrations run when the environment says so, and only then; without it nothing can fail.\<close>

theorem migrations_run_when_asked:
  "maybe_migrate lib done_before = (Inr (), done_before @ [''piccolo migrations forwards all'']) \<longleftrightarrow>
     (\<exists>c. new_PiccoloDBConfig lib = Inr c) \<and>
     (\<exists>t. env_value lib ''piccolo_db_run_migrations'' = Some t \<and> bool_value lib t = Some True)"
  "(\<And>name. env_value lib name = None) \<Longrightarrow> maybe_migrate lib done_before = (Inr (), done_before)"
  by (auto simp: maybe_migrate_def new_PiccoloDBConfig_def setting_def Let_def prog_simps bindM_def
      split: option.splits)

section \<open>Game states from files\<close>

text \<open>
  \<open>infrastructure/game/retriever/file.py\<close>: the state is read anew at every call. A data class does not
  look at its fields, so the units are the JSON values that the file has. \<open>raw[key]\<close> is \<open>json_item\<close>.
\<close>

fun json_item :: "pyval \<Rightarrow> string \<Rightarrow> exn + pyval" where
  "json_item (PDict d) key =
     (case map_of d key of None \<Rightarrow> Inl (KeyError ([CHR 0x27] @ key @ [CHR 0x27])) | Some v \<Rightarrow> Inr v)"
| "json_item (PList xs) key = Inl (TypeError ''list indices must be integers or slices, not str'')"
| "json_item (PStr t) key =
     Inl (TypeError (''string indices must be integers, not '' @ [CHR 0x27] @ ''str'' @ [CHR 0x27]))"
| "json_item PNone key = Inl (TypeError ([CHR 0x27] @ ''NoneType'' @ [CHR 0x27] @ '' object is not subscriptable''))"
| "json_item (PBool b) key = Inl (TypeError ([CHR 0x27] @ ''bool'' @ [CHR 0x27] @ '' object is not subscriptable''))"
| "json_item (PInt i) key = Inl (TypeError ([CHR 0x27] @ ''int'' @ [CHR 0x27] @ '' object is not subscriptable''))"
| "json_item (PFloat x) key = Inl (TypeError ([CHR 0x27] @ ''float'' @ [CHR 0x27] @ '' object is not subscriptable''))"

record raw_game_state =
  raw_player_units :: pyval
  raw_enemy_units :: pyval

record FileBasedGameStateRetriever =
  file_path :: string

definition get_current_state :: "FileBasedGameStateRetriever \<Rightarrow> (launch_error, disk, raw_game_state) eprog" where
  "get_current_state self =
     bindM (gets (\<lambda>fs. read_json fs (file_path self))) (\<lambda>loaded.
     bindM (liftE loaded) (\<lambda>raw_data.
     bindM (liftE (map_sum Raised (\<lambda>v. v) (json_item raw_data ''player_units''))) (\<lambda>player_units.
     bindM (liftE (map_sum Raised (\<lambda>v. v) (json_item raw_data ''enemy_units''))) (\<lambda>enemy_units.
     ret \<lparr> raw_player_units = player_units, raw_enemy_units = enemy_units \<rparr>))))"

text \<open>It returns exactly when the file holds an object with both lists, and hands on what they are.\<close>

theorem retriever_returns_the_file:
  "fst (get_current_state self fs) = Inr g \<longleftrightarrow>
     (\<exists>content d. open_file fs (file_path self) = Inr content \<and> decode_json fs content = Some (PDict d) \<and>
        map_of d ''player_units'' = Some (raw_player_units g) \<and> map_of d ''enemy_units'' = Some (raw_enemy_units g))"
  "snd (get_current_state self fs) = fs"
proof -
  have dict: "json_item v key = Inr w \<longleftrightarrow> (\<exists>d. v = PDict d \<and> map_of d key = Some w)" for v key w
    by (cases v) (auto split: option.split)
  have equal: "g = \<lparr> raw_player_units = a, raw_enemy_units = b \<rparr> \<longleftrightarrow> raw_player_units g = a \<and> raw_enemy_units g = b" for a b
    by (cases g) auto
  show "snd (get_current_state self fs) = fs"
    by (simp add: get_current_state_def bindM_def gets_def liftE_def ret_def split: prod.split sum.split)
  show "fst (get_current_state self fs) = Inr g \<longleftrightarrow>
     (\<exists>content d. open_file fs (file_path self) = Inr content \<and> decode_json fs content = Some (PDict d) \<and>
        map_of d ''player_units'' = Some (raw_player_units g) \<and> map_of d ''enemy_units'' = Some (raw_enemy_units g))"
  proof (cases "read_json fs (file_path self)")
    case (Inl e)
    then show ?thesis
      by (auto simp: get_current_state_def bindM_def gets_def liftE_def read_json_def
          split: sum.splits option.splits)
  next
    case (Inr v)
    then obtain content where content: "open_file fs (file_path self) = Inr content" "decode_json fs content = Some v"
      by (auto simp: read_json_def split: sum.splits option.splits)
    have "fst (get_current_state self fs) = Inr g \<longleftrightarrow>
        json_item v ''player_units'' = Inr (raw_player_units g) \<and> json_item v ''enemy_units'' = Inr (raw_enemy_units g)"
      by (cases "json_item v ''player_units''"; cases "json_item v ''enemy_units''")
        (auto simp: get_current_state_def bindM_def gets_def liftE_def ret_def Inr equal eq_commute [of _ g])
    then show ?thesis using content by (auto simp: dict)
  qed
qed

end
