(* ===== verification/Composition.thy ===== *)
theory Composition
  imports HttpMetrics ThrottleApi Launch
begin

text \<open>
  How the application is put together (\<open>di/\<close> and \<open>create_app\<close>, \<open>register_middlewares\<close> of \<open>app.py\<close>):
  registries of services and containers over them, the registrars of the production set-up, the
  composition root, and what a request finds in its container.
\<close>

section \<open>Registries and containers\<close>

text \<open>The types that services are registered under, and the objects of the repository behind them.\<close>

datatype service_type =
    ConsumerType
  | RunIntakeStoreType
  | RunSignalQueueType
  | OpenIdConfigurationProviderType
  | TokenValidationClientType
  | AuthenticationManagerType
  | ContextEnricherType
  | PathFinderType
  | GeneticConfigurationType
  | ThrottleServiceType
  | GameStateRetrieverType

datatype service =
    StaticOidcProvider OpenIdConfiguration
  | ValidationClient
  | AuthManager service service
  | ContextEnricher
  | Configuration GeneticConfiguration
  | GeneticFinder service
  | ThrottleService service
  | GameRetriever
  | RunService service service
  | OtherService string

datatype compose_error =
    ServiceNotFound service_type
  | ComposeError exn
  | SettingsError launch_error

text \<open>
  A registration is an object, or a factory that may ask the container for other services. A registry
  is the sequence of the registrations made in it. What a container over a registry answers is the
  library's, the argument \<open>get\<close> of the definitions below; its documentation is
  \<open>answers_registrations\<close>: the last registration of a type counts, a factory is called with the
  container, and a type without a registration is a ServiceNotFound error.
\<close>

type_synonym container = "service_type \<Rightarrow> compose_error + service"

datatype registration = Value service | Factory "container \<Rightarrow> compose_error + service"

type_synonym registry = "(service_type \<times> registration) list"
type_synonym library = "registry \<Rightarrow> container"
type_synonym 'a registering = "(compose_error, registry, 'a) eprog"

definition register_value :: "service_type \<Rightarrow> service \<Rightarrow> unit registering" where
  "register_value t v = modify (\<lambda>registry. (t, Value v) # registry)"

definition register_factory :: "service_type \<Rightarrow> (container \<Rightarrow> compose_error + service) \<Rightarrow> unit registering" where
  "register_factory t factory = modify (\<lambda>registry. (t, Factory factory) # registry)"

definition answer_of :: "registry \<Rightarrow> container \<Rightarrow> container" where
  "answer_of registry services t =
     (case map_of registry t of
        None \<Rightarrow> Inl (ServiceNotFound t)
      | Some (Value v) \<Rightarrow> Inr v
      | Some (Factory factory) \<Rightarrow> factory services)"

definition answers_registrations :: "library \<Rightarrow> registry \<Rightarrow> bool" where
  "answers_registrations get registry \<longleftrightarrow> get registry = answer_of registry (get registry)"

definition bind_service :: "compose_error + service \<Rightarrow> (service \<Rightarrow> compose_error + service) \<Rightarrow> compose_error + service" where
  "bind_service r f = (case r of Inl e \<Rightarrow> Inl e | Inr v \<Rightarrow> f v)"

section \<open>Registrars\<close>

type_synonym registrar = "unit registering"

fun apply_registrars :: "registrar list \<Rightarrow> unit registering" where
  "apply_registrars [] = ret ()"
| "apply_registrars (registrar # registrars) = bindM registrar (\<lambda>_. apply_registrars registrars)"

definition ProdAuthRegistrar :: registrar where
  "ProdAuthRegistrar =
     (let openid_conf_provider = StaticOidcProvider production_oidc_configuration;
          token_validation_client = ValidationClient in
      bindM (register_value OpenIdConfigurationProviderType openid_conf_provider) (\<lambda>_.
      bindM (register_value TokenValidationClientType token_validation_client) (\<lambda>_.
      bindM (register_value AuthenticationManagerType (AuthManager token_validation_client openid_conf_provider)) (\<lambda>_.
      register_value ContextEnricherType ContextEnricher))))"

definition get_path_finder :: "container \<Rightarrow> compose_error + service" where
  "get_path_finder svcs_container =
     bind_service (svcs_container GeneticConfigurationType) (\<lambda>genetic_configuration.
     Inr (GeneticFinder genetic_configuration))"

definition get_throttle_step_service :: "container \<Rightarrow> compose_error + service" where
  "get_throttle_step_service svcs_container =
     bind_service (svcs_container PathFinderType) (\<lambda>path_finder. Inr (ThrottleService path_finder))"

definition ThrottleStepsServiceRegistrar :: registrar where
  "ThrottleStepsServiceRegistrar =
     bindM (register_factory PathFinderType get_path_finder) (\<lambda>_.
     bindM (register_value GeneticConfigurationType (Configuration default_genetic_configuration)) (\<lambda>_.
     register_factory ThrottleServiceType get_throttle_step_service))"

definition GameStateRegistrar :: registrar where
  "GameStateRegistrar = register_value GameStateRetrieverType GameRetriever"

definition RunOrchestrationRegistrar :: registrar where
  "RunOrchestrationRegistrar = ret ()"

record ApplicationDIConfig =
  di_app_lifetime_registrars :: "registrar list"
  di_fastapi_lifespan_registrars :: "registrar list"
  di_infrastructure_registrars :: "registrar list"

definition get_production_registrars :: ApplicationDIConfig where
  "get_production_registrars =
     \<lparr> di_app_lifetime_registrars = [ProdAuthRegistrar],
       di_fastapi_lifespan_registrars = [ThrottleStepsServiceRegistrar, GameStateRegistrar, RunOrchestrationRegistrar],
       di_infrastructure_registrars = [] \<rparr>"

section \<open>The application object\<close>

text \<open>
  Routers with their prefixes; middlewares from the outside to the inside, where the framework puts a
  new one outermost; the registry of the application, the registrars of its lifespan and its
  infrastructure.
\<close>

datatype middleware =
    OutcomeMetrics
  | Authentication service
  | ExecutionContext service

record fastapi_app =
  fa_routers :: "(string \<times> string) list"
  fa_middlewares :: "middleware list"
  fa_registry :: registry
  fa_lifespan_registrars :: "registrar list"
  fa_consumer :: "service option"

definition add_middleware :: "middleware \<Rightarrow> fastapi_app \<Rightarrow> fastapi_app" where
  "add_middleware m app = app\<lparr> fa_middlewares := m # fa_middlewares app \<rparr>"

text \<open>
  What \<open>create_app\<close> changes besides its application: the logging of the process, its telemetry (with
  the flag of the application under construction), and the shell commands that were run. The
  libraries, the environment, the settings and the framework's table of the routes are arguments.
\<close>

record 'w host_process =
  hp_logging :: logging_state
  hp_telemetry :: "'w telemetry_state"
  hp_commands :: "string list"

record 'w platform =
  pl_structlog :: structlog_library
  pl_telemetry :: "'w telemetry_library"
  pl_environment :: environment
  pl_settings :: settings_library
  pl_routes :: "app_route list"

type_synonym ('w, 'a) starting = "(compose_error, 'w host_process, 'a) eprog"

definition on_telemetry :: "('w, 'a) telemetry_prog \<Rightarrow> ('w, 'a) starting" where
  "on_telemetry m = (\<lambda>p. case m (hp_telemetry p) of
     (r, t) \<Rightarrow> (map_sum ComposeError (\<lambda>x. x) r, p\<lparr> hp_telemetry := t \<rparr>))"

definition on_commands :: "(launch_error, string list, 'a) eprog \<Rightarrow> ('w, 'a) starting" where
  "on_commands m = (\<lambda>p. case m (hp_commands p) of
     (r, executed) \<Rightarrow> (map_sum SettingsError (\<lambda>x. x) r, p\<lparr> hp_commands := executed \<rparr>))"

definition with_routers :: "registry \<Rightarrow> fastapi_app" where
  "with_routers registry =
     \<lparr> fa_routers =
         [(''/api/v1/health'', ''health''), (''/api/v1/throttle'', ''throttle''), (''/api/v1/agent'', ''agent'')],
       fa_middlewares = [], fa_registry = registry, fa_lifespan_registrars = [], fa_consumer = None \<rparr>"

definition create_app ::
    "'w platform \<Rightarrow> registry \<Rightarrow> TelemetryRuntime option \<Rightarrow> ('w, fastapi_app) starting" where
  "create_app pf registry telemetry_runtime =
     bindM (modify (\<lambda>p. p\<lparr> hp_logging := configure_logging (pl_structlog pf) (hp_logging p) \<rparr>)) (\<lambda>_.
     let app = with_routers registry in
     bindM (modify (\<lambda>p. p\<lparr> hp_telemetry := (hp_telemetry p)\<lparr> tl_instrumented := False \<rparr> \<rparr>)) (\<lambda>_.
     bindM (on_telemetry (instrument_for_telemetry (pl_telemetry pf) (pl_environment pf) (pl_routes pf)
       telemetry_runtime)) (\<lambda>_.
     let app = add_middleware OutcomeMetrics app in
     bindM (on_commands (maybe_migrate (pl_settings pf))) (\<lambda>_.
     ret app))))"

text \<open>The composition changes the application object; an exception leaves it as it is then.\<close>

type_synonym 'a composing = "(compose_error, fastapi_app, 'a) eprog"

definition on_registry :: "'a registering \<Rightarrow> 'a composing" where
  "on_registry m = (\<lambda>app. case m (fa_registry app) of (r, registry) \<Rightarrow> (r, app\<lparr> fa_registry := registry \<rparr>))"

definition acquire :: "library \<Rightarrow> service_type \<Rightarrow> service composing" where
  "acquire get t = (\<lambda>app. (get (fa_registry app) t, app))"

definition register_middlewares :: "library \<Rightarrow> unit composing" where
  "register_middlewares get =
     bindM (acquire get AuthenticationManagerType) (\<lambda>authentication_manager.
     bindM (modify (add_middleware (Authentication authentication_manager))) (\<lambda>_.
     bindM (acquire get ContextEnricherType) (\<lambda>execution_context_enricher.
     modify (add_middleware (ExecutionContext execution_context_enricher)))))"

definition build_infra_consumer :: "library \<Rightarrow> ApplicationDIConfig \<Rightarrow> compose_error + service" where
  "build_infra_consumer get app_registrars =
     (case apply_registrars (di_infrastructure_registrars app_registrars) [] of
        (Inl e, registry) \<Rightarrow> Inl e
      | (Inr _, registry) \<Rightarrow> get registry ConsumerType)"

definition populate_app ::
    "library \<Rightarrow> compose_error + ApplicationDIConfig \<Rightarrow> unit composing" where
  "populate_app get provided =
     bindM (liftE provided) (\<lambda>app_registrars.
     bindM (on_registry (apply_registrars (di_app_lifetime_registrars app_registrars))) (\<lambda>_.
     bindM (modify (\<lambda>app. app\<lparr> fa_lifespan_registrars := di_fastapi_lifespan_registrars app_registrars \<rparr>)) (\<lambda>_.
     bindM (liftE (build_infra_consumer get app_registrars)) (\<lambda>consumer.
     bindM (modify (\<lambda>app. app\<lparr> fa_consumer := Some consumer \<rparr>)) (\<lambda>_.
     register_middlewares get)))))"

text \<open>
  The outcome of the composition with the process and the application object that it leaves: there is
  no object when \<open>create_app\<close> raises. \<open>provided\<close> is what the call of the provider comes to.
\<close>

type_synonym 'w composed = "(compose_error + unit) \<times> 'w host_process \<times> fastapi_app option"

definition create_app_with_selected_di ::
    "library \<Rightarrow> 'w platform \<Rightarrow> compose_error + ApplicationDIConfig \<Rightarrow> 'w host_process \<Rightarrow> 'w composed" where
  "create_app_with_selected_di get pf provided p =
     (case create_app pf [] None p of
        (Inl e, p') \<Rightarrow> (Inl e, p', None)
      | (Inr app, p') \<Rightarrow> (case populate_app get provided app of (r, app') \<Rightarrow> (r, p', Some app')))"

text \<open>
  The composition root. Importing a module and looking up the function it names is the argument
  \<open>import_provider\<close>, with what a call of the function then comes to; a path without a dot does not
  unpack into two parts.
\<close>

definition rsplit_dot :: "string \<Rightarrow> (string \<times> string) option" where
  "rsplit_dot path =
     (case dropWhile (\<lambda>c. c \<noteq> CHR ''.'') (rev path) of
        [] \<Rightarrow> None
      | dot # before \<Rightarrow> Some (rev before, rev (takeWhile (\<lambda>c. c \<noteq> CHR ''.'') (rev path))))"

definition DEFAULT_PROVIDER :: string where
  "DEFAULT_PROVIDER = ''llm_agent.di.app_registrar_providers.get_production_registrars''"

definition compose_fastapi_app_with_registrars ::
    "library \<Rightarrow> 'w platform \<Rightarrow> (string \<Rightarrow> string \<Rightarrow> compose_error + (compose_error + ApplicationDIConfig)) \<Rightarrow>
     'w host_process \<Rightarrow> 'w composed" where
  "compose_fastapi_app_with_registrars get pf import_provider p =
     (case rsplit_dot (getenv (pl_environment pf) ''DI_REGISTRAR_PROVIDER'' DEFAULT_PROVIDER) of
        None \<Rightarrow> (Inl (ComposeError (ValueError ''not enough values to unpack (expected 2, got 1)'')), p, None)
      | Some (module_name, function_name) \<Rightarrow>
          (case import_provider module_name function_name of
             Inl e \<Rightarrow> (Inl e, p, None)
           | Inr provided \<Rightarrow> create_app_with_selected_di get pf provided p))"

section \<open>Requests\<close>

text \<open>
  The lifespan applies its registrars to the registry of the application; the dependencies of the
  routes ask a container over it.
\<close>

definition lifespan_registry :: "fastapi_app \<Rightarrow> registry" where
  "lifespan_registry app = snd (apply_registrars (fa_lifespan_registrars app) (fa_registry app))"

definition throttle_dependency :: "container \<Rightarrow> compose_error + service" where
  "throttle_dependency services = services ThrottleServiceType"

definition run_dependency :: "container \<Rightarrow> compose_error + service" where
  "run_dependency services =
     bind_service (services RunIntakeStoreType) (\<lambda>run_store.
     bind_service (services RunSignalQueueType) (\<lambda>run_signal_queue. Inr (RunService run_store run_signal_queue)))"

section \<open>What the composition does\<close>

lemma register_sel:
  "register_value t v registry = (Inr (), (t, Value v) # registry)"
  "register_factory t f registry = (Inr (), (t, Factory f) # registry)"
  by (simp_all add: register_value_def register_factory_def modify_def)

lemma production_lifetime:
  "ProdAuthRegistrar registry =
     (Inr (),
        [(ContextEnricherType, Value ContextEnricher),
         (AuthenticationManagerType, Value (AuthManager ValidationClient (StaticOidcProvider production_oidc_configuration))),
         (TokenValidationClientType, Value ValidationClient),
         (OpenIdConfigurationProviderType, Value (StaticOidcProvider production_oidc_configuration))] @ registry)"
  by (simp add: ProdAuthRegistrar_def Let_def bindM_def register_sel)

lemma production_lifespan:
  "apply_registrars [ThrottleStepsServiceRegistrar, GameStateRegistrar, RunOrchestrationRegistrar] registry =
     (Inr (),
        [(GameStateRetrieverType, Value GameRetriever),
         (ThrottleServiceType, Factory get_throttle_step_service),
         (GeneticConfigurationType, Value (Configuration default_genetic_configuration)),
         (PathFinderType, Factory get_path_finder)] @ registry)"
  by (simp add: ThrottleStepsServiceRegistrar_def GameStateRegistrar_def RunOrchestrationRegistrar_def bindM_def
      register_sel ret_def)

lemma lifetime_run:
  "apply_registrars (di_app_lifetime_registrars get_production_registrars) registry = ProdAuthRegistrar registry"
  by (simp add: get_production_registrars_def bindM_def ret_def production_lifetime)

lemma library_answers:
  assumes "answers_registrations get registry"
  shows "map_of registry t = None \<Longrightarrow> get registry t = Inl (ServiceNotFound t)"
    and "map_of registry t = Some (Value v) \<Longrightarrow> get registry t = Inr v"
    and "map_of registry t = Some (Factory factory) \<Longrightarrow> get registry t = factory (get registry)"
  using fun_cong [OF assms [unfolded answers_registrations_def], of t] by (simp_all add: answer_of_def)

lemma add_middleware_sel [simp]:
  "fa_routers (add_middleware m app) = fa_routers app" "fa_registry (add_middleware m app) = fa_registry app"
  "fa_middlewares (add_middleware m app) = m # fa_middlewares app"
  "fa_consumer (add_middleware m app) = fa_consumer app"
  "fa_lifespan_registrars (add_middleware m app) = fa_lifespan_registrars app"
  by (simp_all add: add_middleware_def)

text \<open>Whatever \<open>create_app\<close> meets, an application it returns is the one with the counter.\<close>

lemma create_app_returns:
  assumes "create_app pf registry runtime p = (Inr app, p')"
  shows "app = add_middleware OutcomeMetrics (with_routers registry)"
  using assms by (auto simp: create_app_def bindM_def modify_def ret_def Let_def split: prod.splits sum.splits)

text \<open>The composition, once the registrars of the application have run.\<close>

lemma composition_steps:
  assumes "apply_registrars (di_app_lifetime_registrars config) (fa_registry app) = (Inr (), registry)"
  shows "populate_app get (Inr config) app =
    (let app' = app\<lparr> fa_registry := registry, fa_lifespan_registrars := di_fastapi_lifespan_registrars config \<rparr> in
     case build_infra_consumer get config of
       Inl e \<Rightarrow> (Inl e, app')
     | Inr consumer \<Rightarrow> register_middlewares get (app'\<lparr> fa_consumer := Some consumer \<rparr>))"
  using assms
  by (simp add: populate_app_def bindM_def liftE_def on_registry_def modify_def Let_def split: sum.split)

lemma register_middlewares_cases:
  "register_middlewares get app =
     (case get (fa_registry app) AuthenticationManagerType of
        Inl e \<Rightarrow> (Inl e, app)
      | Inr manager \<Rightarrow>
          let app' = add_middleware (Authentication manager) app in
          case get (fa_registry app) ContextEnricherType of
            Inl e \<Rightarrow> (Inl e, app')
          | Inr enricher \<Rightarrow> (Inr (), add_middleware (ExecutionContext enricher) app'))"
  by (simp add: register_middlewares_def bindM_def acquire_def modify_def Let_def split: sum.split)

section \<open>Properties\<close>

text \<open>
  The middlewares of an application object around its routes, from the list that the framework builds
  them from: the counter is the innermost one, \<open>inner\<close> is the counter around the routes. A manager is
  the object behind its service; other services are no managers.
\<close>

fun manager_of :: "'w jwt_library \<Rightarrow> service \<Rightarrow> 'w JWTValidationClient AsyncAuthenticationManager option" where
  "manager_of jwt (AuthManager ValidationClient (StaticOidcProvider config)) = Some (JwtAuthenticationManager jwt config)"
| "manager_of jwt _ = None"

fun built_stack ::
    "'w jwt_library \<Rightarrow> extractor_library \<Rightarrow> string \<Rightarrow> ('w JWTValidationClient, 'v) asgi_app \<Rightarrow> middleware list \<Rightarrow>
     ('w JWTValidationClient, 'v) asgi_app option" where
  "built_stack jwt lib new_uuid inner [OutcomeMetrics] = Some inner"
| "built_stack jwt lib new_uuid inner (Authentication manager # ms) =
     (case (manager_of jwt manager, built_stack jwt lib new_uuid inner ms) of
        (Some m, Some app) \<Rightarrow> Some (authentication_middleware m app) | _ \<Rightarrow> None)"
| "built_stack jwt lib new_uuid inner (ExecutionContext enricher # ms) =
     (case (enricher, built_stack jwt lib new_uuid inner ms) of
        (ContextEnricher, Some app) \<Rightarrow> Some (execution_middleware lib new_uuid app) | _ \<Rightarrow> None)"
| "built_stack jwt lib new_uuid inner _ = None"

lemma production_services:
  assumes "answers_registrations get (snd (ProdAuthRegistrar []))"
  shows "get (snd (ProdAuthRegistrar [])) AuthenticationManagerType =
      Inr (AuthManager ValidationClient (StaticOidcProvider production_oidc_configuration))"
    and "get (snd (ProdAuthRegistrar [])) ContextEnricherType = Inr ContextEnricher"
  using library_answers(2) [OF assms] by (simp_all add: production_lifetime)

lemma composed_with_production_auth:
  assumes "di_app_lifetime_registrars config = [ProdAuthRegistrar]"
    and "answers_registrations get (snd (ProdAuthRegistrar []))"
  shows "populate_app get (Inr config) (add_middleware OutcomeMetrics (with_routers [])) =
    (let app = (add_middleware OutcomeMetrics (with_routers []))\<lparr> fa_registry := snd (ProdAuthRegistrar []),
                 fa_lifespan_registrars := di_fastapi_lifespan_registrars config \<rparr> in
     case build_infra_consumer get config of
       Inl e \<Rightarrow> (Inl e, app)
     | Inr consumer \<Rightarrow>
         (Inr (), app\<lparr> fa_consumer := Some consumer, fa_middlewares :=
            [ExecutionContext ContextEnricher,
             Authentication (AuthManager ValidationClient (StaticOidcProvider production_oidc_configuration)),
             OutcomeMetrics] \<rparr>))"
proof -
  have "apply_registrars (di_app_lifetime_registrars config) [] = (Inr (), snd (ProdAuthRegistrar []))"
    by (simp add: assms(1) bindM_def production_lifetime ret_def)
  then show ?thesis
    using production_services [OF assms(2)]
    by (simp add: composition_steps with_routers_def add_middleware_def register_middlewares_cases Let_def split: sum.split)
qed

text \<open>
  C36 An application composed with the registrar of authentication of production. It comes about
  exactly when \<open>create_app\<close> returns (telemetry and the settings of the database raise nothing) and a
  consumer can be had from the infrastructure registrars. Then its middlewares, built around its
  routes in the order of the application object, serve requests so: for every request on a path that
  does not start with /health, either it is answered with 401 or 500, its routes do not run and the
  counter sees nothing; or it carried a bearer token verified for a user under the keys of the realm
  of production, and the counter got one entry at most.
\<close>

theorem composed_application_guards_its_routes:
  assumes "di_app_lifetime_registrars config = [ProdAuthRegistrar]"
    and "answers_registrations get (snd (ProdAuthRegistrar []))"
    and "create_app_with_selected_di get pf (Inr config) p = (r, p', composed)"
    and "jwt_documented jwt signed" and "scheme_param_documented (xl_scheme_param lib)"
  shows "(r = Inr () \<longleftrightarrow>
      (\<exists>app. create_app pf [] None p = (Inr app, p')) \<and> (\<exists>consumer. build_infra_consumer get config = Inr consumer)) \<and>
    (r = Inr () \<longrightarrow>
      (\<exists>app serve. composed = Some app \<and>
         built_stack jwt lib new_uuid
           (http_outcome_middleware (eligible_route_methods (pl_routes pf)) routes transport) (fa_middlewares app) =
           Some serve \<and>
         (\<forall>scope receive s q s'. served_type scope \<longrightarrow> \<not> excluded_path scope \<longrightarrow> receives_only receive \<longrightarrow>
            sv_offered (rq_world s) = [] \<longrightarrow> serve scope receive s = (q, s') \<longrightarrow>
            (q = Inr () \<and> rq_world s' = rq_world s \<and>
              (\<exists>a \<in> {Answer 401 ''Authentication failed'', Answer 500 ''Unexpected error during authentication''}.
                 rq_sent s' = rq_sent s @ [a])) \<or>
            (\<exists>token user c new. carries_bearer lib scope token \<and>
               verified_for jwt signed production_oidc_configuration c token user \<and>
               sv_additions (rq_world s') = sv_additions (rq_world s) @ new \<and> length new \<le> 1))))"
proof -
  obtain q p1 where c: "create_app pf [] None p = (q, p1)" by fastforce
  note made = create_app_returns [of pf "[]" None p]
  note populated = composed_with_production_auth [OF assms(1,2)]
  have iff: "r = Inr () \<longleftrightarrow>
      (\<exists>app. create_app pf [] None p = (Inr app, p')) \<and> (\<exists>consumer. build_infra_consumer get config = Inr consumer)"
    using assms(3) c made populated
    by (auto simp: create_app_with_selected_di_def Let_def split: sum.splits prod.splits)
  let ?serve = "production_app lib new_uuid (JwtAuthenticationManager jwt production_oidc_configuration)
    (pl_routes pf) routes transport"
  note guarded = refused_requests_are_not_counted [OF assms(4,5), where new_uuid = new_uuid and
      config = production_oidc_configuration and routes = "pl_routes pf" and app = routes and transport = transport]
  show ?thesis
  proof (intro conjI iff impI)
    assume "r = Inr ()"
    then obtain app where "composed = Some app" "built_stack jwt lib new_uuid
        (http_outcome_middleware (eligible_route_methods (pl_routes pf)) routes transport) (fa_middlewares app) =
        Some ?serve"
      using assms(3) c made populated iff
      by (auto simp: create_app_with_selected_di_def Let_def production_app_def with_middlewares_def
          split: sum.splits prod.splits)
    then show "\<exists>app serve. composed = Some app \<and>
         built_stack jwt lib new_uuid
           (http_outcome_middleware (eligible_route_methods (pl_routes pf)) routes transport) (fa_middlewares app) =
           Some serve \<and>
         (\<forall>scope receive s q s'. served_type scope \<longrightarrow> \<not> excluded_path scope \<longrightarrow> receives_only receive \<longrightarrow>
            sv_offered (rq_world s) = [] \<longrightarrow> serve scope receive s = (q, s') \<longrightarrow>
            (q = Inr () \<and> rq_world s' = rq_world s \<and>
              (\<exists>a \<in> {Answer 401 ''Authentication failed'', Answer 500 ''Unexpected error during authentication''}.
                 rq_sent s' = rq_sent s @ [a])) \<or>
            (\<exists>token user c new. carries_bearer lib scope token \<and>
               verified_for jwt signed production_oidc_configuration c token user \<and>
               sv_additions (rq_world s') = sv_additions (rq_world s) @ new \<and> length new \<le> 1))"
      by (intro exI [of _ app] exI [of _ ?serve] conjI allI impI guarded) assumption+
  qed
qed

text \<open>A library for the examples: factories ask each other only as deep as given.\<close>

fun example_container :: "nat \<Rightarrow> library" where
  "example_container 0 registry = (\<lambda>t. Inl (ServiceNotFound t))"
| "example_container (Suc n) registry = answer_of registry (example_container n registry)"

definition example_di_config :: ApplicationDIConfig where
  "example_di_config =
     get_production_registrars\<lparr> di_infrastructure_registrars := [register_value ConsumerType (OtherService ''consumer'')] \<rparr>"

lemma example_consumer:
  "build_infra_consumer (example_container (Suc n)) example_di_config = Inr (OtherService ''consumer'')"
  by (simp add: build_infra_consumer_def example_di_config_def bindM_def register_sel ret_def answer_of_def)

definition example_platform :: "nat platform" where
  "example_platform =
     \<lparr> pl_structlog = plain_structlog, pl_telemetry = (\<lambda>call. ret ()), pl_environment = (\<lambda>k. None),
       pl_settings = \<lparr> env_value = (\<lambda>k. None), int_value = (\<lambda>t. None), bool_value = (\<lambda>t. None) \<rparr>,
       pl_routes = [] \<rparr>"

definition example_process :: "nat host_process" where
  "example_process = \<lparr> hp_logging = fresh_logging, hp_telemetry = new_process 0, hp_commands = [] \<rparr>"

text \<open>A request without a token to a composed application whose routes would answer 200.\<close>

theorem composed_application_guards_its_routes_witness:
  "\<exists>p' app serve s' a.
     create_app_with_selected_di (example_container 1) example_platform (Inr example_di_config) example_process =
       (Inr (), p', Some app) \<and>
     built_stack example_jwt_library example_extractors ''3f2b8c1e-9d4a-4c6b-8e7f-0a1b2c3d4e5f''
       (http_outcome_middleware (eligible_route_methods []) (answering (Some example_route) [200] False)
          example_transport) (fa_middlewares app) = Some serve \<and>
     serve (example_scope ''http'' []) example_message (example_served []) = (Inr (), s') \<and>
     rq_sent s' = [a] \<and> sv_additions (rq_world s') = []"
proof -
  let ?routes = "answering (Some example_route) [200] False" and ?scope = "example_scope ''http'' []"
  obtain r p' composed where run:
      "create_app_with_selected_di (example_container 1) example_platform (Inr example_di_config) example_process =
       (r, p', composed)"
    using prod_cases3 by blast
  have registrars: "di_app_lifetime_registrars example_di_config = [ProdAuthRegistrar]"
    by (simp add: example_di_config_def get_production_registrars_def)
  have answers: "answers_registrations (example_container 1) (snd (ProdAuthRegistrar []))"
    by (simp add: answers_registrations_def production_lifetime answer_of_def fun_eq_iff)
  have sp: "scheme_param_documented (xl_scheme_param example_extractors)"
    by (simp add: example_extractors_def example_scheme_param_documented)
  have "isl (fst (create_app example_platform [] None example_process)) = False" by code_simp
  moreover obtain q p1 where c: "create_app example_platform [] None example_process = (q, p1)" by fastforce
  ultimately obtain app where "q = Inr app" by (cases q) simp_all
  with c run have made: "create_app example_platform [] None example_process = (Inr app, p')"
    by (auto simp: create_app_with_selected_di_def split: prod.splits)
  have routes: "pl_routes example_platform = []" by (simp add: example_platform_def)
  note guards = composed_application_guards_its_routes [OF registrars answers run example_jwt_documented sp,
      of "''3f2b8c1e-9d4a-4c6b-8e7f-0a1b2c3d4e5f''" ?routes example_transport, unfolded routes]
  have ok: "r = Inr ()" using guards made example_consumer [of 0] by auto
  with guards obtain app serve where built: "composed = Some app"
      "built_stack example_jwt_library example_extractors ''3f2b8c1e-9d4a-4c6b-8e7f-0a1b2c3d4e5f''
         (http_outcome_middleware (eligible_route_methods []) ?routes example_transport) (fa_middlewares app) = Some serve"
    and serves: "\<And>scope receive s q s'. served_type scope \<Longrightarrow> \<not> excluded_path scope \<Longrightarrow> receives_only receive \<Longrightarrow>
        sv_offered (rq_world s) = [] \<Longrightarrow> serve scope receive s = (q, s') \<Longrightarrow> q = Inr () \<and> rq_world s' = rq_world s \<and>
          (\<exists>a. rq_sent s' = rq_sent s @ [a]) \<or> (\<exists>token. carries_bearer example_extractors scope token)"
    by blast
  obtain q s' where served: "serve ?scope example_message (example_served []) = (q, s')" by fastforce
  have "served_type ?scope" "\<not> excluded_path ?scope" by code_simp+
  moreover have "\<not> carries_bearer example_extractors ?scope token" for token
    by (simp add: carries_bearer_def example_scope_def header_get_def)
  moreover have "receives_only example_message" by (simp add: example_message_def rest_receives_only)
  ultimately have "q = Inr () \<and> rq_world s' = rq_world (example_served []) \<and> (\<exists>a. rq_sent s' = [a])"
    using serves [OF _ _ _ _ served] by (auto simp: example_served_def)
  with ok built served run show ?thesis by (auto simp: example_served_def)
qed

text \<open>
  C37 The production set-up does not start. The registrars of the production provider register no
  consumer, and the composition root asks for one: with the default provider, unless \<open>create_app\<close>
  itself already raises, it raises a ServiceNotFound error, before the middlewares for authentication
  and execution context are there.
\<close>

theorem production_application_does_not_start:
  assumes "pl_environment pf ''DI_REGISTRAR_PROVIDER'' = None"
    and "import_provider ''llm_agent.di.app_registrar_providers'' ''get_production_registrars'' =
      Inr (Inr get_production_registrars)"
    and "answers_registrations get []"
    and "compose_fastapi_app_with_registrars get pf import_provider p = (r, p', composed)"
  shows "case fst (create_app pf [] None p) of
      Inl e \<Rightarrow> r = Inl e \<and> composed = None
    | Inr _ \<Rightarrow> r = Inl (ServiceNotFound ConsumerType) \<and>
        (\<exists>app. composed = Some app \<and> fa_middlewares app = [OutcomeMetrics] \<and> fa_consumer app = None)"
proof -
  have path: "rsplit_dot DEFAULT_PROVIDER = Some (''llm_agent.di.app_registrar_providers'', ''get_production_registrars'')"
    by code_simp
  have "build_infra_consumer get get_production_registrars = Inl (ServiceNotFound ConsumerType)"
    using library_answers(1) [OF assms(3), of ConsumerType]
    by (simp add: build_infra_consumer_def get_production_registrars_def ret_def)
  then have "populate_app get (Inr get_production_registrars) (add_middleware OutcomeMetrics (with_routers [])) =
      (Inl (ServiceNotFound ConsumerType),
       (add_middleware OutcomeMetrics (with_routers []))\<lparr> fa_registry := snd (ProdAuthRegistrar []),
         fa_lifespan_registrars := di_fastapi_lifespan_registrars get_production_registrars \<rparr>)"
    by (subst composition_steps [where registry = "snd (ProdAuthRegistrar [])"])
      (simp_all add: lifetime_run production_lifetime with_routers_def Let_def)
  moreover have "create_app_with_selected_di get pf (Inr get_production_registrars) p = (r, p', composed)"
    using assms(4) by (simp add: compose_fastapi_app_with_registrars_def getenv_def assms(1,2) path)
  ultimately show ?thesis
    using create_app_returns [of pf "[]" None p]
    by (auto simp: create_app_with_selected_di_def with_routers_def split: prod.splits sum.splits)
qed

theorem production_application_does_not_start_witness:
  "fst (compose_fastapi_app_with_registrars (example_container 1) example_platform
     (\<lambda>m f. if m = ''llm_agent.di.app_registrar_providers'' then Inr (Inr get_production_registrars)
            else Inl (ComposeError (OtherError ''import''))) example_process) = Inl (ServiceNotFound ConsumerType)"
proof -
  let ?import = "\<lambda>m f :: string. if m = ''llm_agent.di.app_registrar_providers''
    then Inr (Inr get_production_registrars) else Inl (ComposeError (OtherError ''import''))"
  obtain r p' composed where run: "compose_fastapi_app_with_registrars (example_container 1) example_platform ?import
      example_process = (r, p', composed)"
    using prod_cases3 by blast
  have "isl (fst (create_app example_platform [] None example_process)) = False" by code_simp
  moreover have "answers_registrations (example_container 1) []"
    by (simp add: answers_registrations_def answer_of_def fun_eq_iff)
  moreover have "pl_environment example_platform ''DI_REGISTRAR_PROVIDER'' = None"
    by (simp add: example_platform_def)
  ultimately show ?thesis
    using production_application_does_not_start [OF _ _ _ run] run by (auto split: sum.splits)
qed

text \<open>
  What the routes find in an application with the lifespan of the production set-up: the throttle
  endpoint gets the genetic search with its default configuration; the endpoints of runs fail, since
  nothing registers a store.
\<close>

theorem wired_dependencies:
  assumes "fa_lifespan_registrars app = di_fastapi_lifespan_registrars get_production_registrars"
    and "map_of (fa_registry app) RunIntakeStoreType = None"
    and "answers_registrations get (lifespan_registry app)"
  shows "throttle_dependency (get (lifespan_registry app)) =
      Inr (ThrottleService (GeneticFinder (Configuration default_genetic_configuration))) \<and>
    run_dependency (get (lifespan_registry app)) = Inl (ServiceNotFound RunIntakeStoreType)"
proof -
  have registry: "lifespan_registry app =
        [(GameStateRetrieverType, Value GameRetriever),
         (ThrottleServiceType, Factory get_throttle_step_service),
         (GeneticConfigurationType, Value (Configuration default_genetic_configuration)),
         (PathFinderType, Factory get_path_finder)] @ fa_registry app"
    by (simp add: lifespan_registry_def assms(1) get_production_registrars_def production_lifespan
        del: apply_registrars.simps)
  note answers = library_answers [OF assms(3)]
  have "get (lifespan_registry app) GeneticConfigurationType = Inr (Configuration default_genetic_configuration)"
    and missing: "get (lifespan_registry app) RunIntakeStoreType = Inl (ServiceNotFound RunIntakeStoreType)"
    by (rule answers; simp add: registry assms(2))+
  then have "get (lifespan_registry app) PathFinderType = Inr (GeneticFinder (Configuration default_genetic_configuration))"
    using answers(3) [of PathFinderType get_path_finder] registry by (simp add: get_path_finder_def bind_service_def)
  then have "get (lifespan_registry app) ThrottleServiceType =
      Inr (ThrottleService (GeneticFinder (Configuration default_genetic_configuration)))"
    using answers(3) [of ThrottleServiceType get_throttle_step_service] registry
    by (simp add: get_throttle_step_service_def bind_service_def)
  with missing show ?thesis
    by (simp add: throttle_dependency_def run_dependency_def bind_service_def)
qed

end
