(* ===== verification/Lifespan.thy ===== *)
theory Lifespan
  imports WorkerProperties Composition
begin

text \<open>
  The life of an application: its lifespan (\<open>di/fastapi_lifespan.py\<close>) over the protocol of its
  infrastructure (\<open>domain/infrastructure_setup.py\<close>), and the infrastructure of the development set-up
  (\<open>infrastructure/infra_setup/local_dev.py\<close>), which runs the consumer of \<open>WorkerSystem\<close> as a task
  and cancels that task at the end.
\<close>

section \<open>The lifespan\<close>

text \<open>
  What awaiting an operation comes to: \<open>None\<close> if it never returns, else a result or an exception, and
  the state. The \<open>finally\<close> part runs after a return and after an exception, and its own exception
  replaces the one on its way.
\<close>

type_synonym ('e, 's) awaited = "'s \<Rightarrow> (('e + unit) \<times> 's) option"

definition and_then :: "('e, 's) awaited \<Rightarrow> ('e, 's) awaited \<Rightarrow> ('e, 's) awaited" where
  "and_then a b s =
     (case a s of
        None \<Rightarrow> None
      | Some (Inl e, t) \<Rightarrow> Some (Inl e, t)
      | Some (Inr _, t) \<Rightarrow> b t)"

definition and_finally :: "('e, 's) awaited \<Rightarrow> ('e, 's) awaited \<Rightarrow> ('e, 's) awaited" where
  "and_finally a b s =
     (case a s of
        None \<Rightarrow> None
      | Some (r, t) \<Rightarrow>
          (case b t of
             None \<Rightarrow> None
           | Some (Inl e, u) \<Rightarrow> Some (Inl e, u)
           | Some (Inr _, u) \<Rightarrow> Some (r, u)))"

record 's InfrastructureSetup =
  is_setup :: "(exn, 's) awaited"
  is_shutdown :: "(exn, 's) awaited"

text \<open>
  The state of a lifespan: the registry of the application and its infrastructure. What happens
  between start-up and shutdown is the argument \<open>serving\<close>: the requests and the tasks of the loop, and
  whatever exception the server throws into the lifespan.
\<close>

definition on_infrastructure :: "(exn, 's) awaited \<Rightarrow> (compose_error, registry \<times> 's) awaited" where
  "on_infrastructure a rs =
     map_option (\<lambda>(r, s). (map_sum ComposeError (\<lambda>u. u) r, fst rs, s)) (a (snd rs))"

definition on_registrars :: "registrar list \<Rightarrow> (compose_error, registry \<times> 's) awaited" where
  "on_registrars registrars rs =
     (case apply_registrars registrars (fst rs) of (r, registry) \<Rightarrow> Some (r, registry, snd rs))"

definition di_lifespan ::
    "'s InfrastructureSetup \<Rightarrow> registrar list \<Rightarrow> (compose_error, registry \<times> 's) awaited \<Rightarrow>
     (compose_error, registry \<times> 's) awaited" where
  "di_lifespan infra_setup fastapi_lifespan_registrars serving =
     and_finally
       (and_then (on_registrars fastapi_lifespan_registrars)
         (and_then (on_infrastructure (is_setup infra_setup)) serving))
       (on_infrastructure (is_shutdown infra_setup))"

section \<open>The development set-up\<close>

text \<open>
  The task of the consumer: created, or begun when the loop has first run it. Before it begins no
  coroutine is suspended, which is phase \<open>Stopped\<close>.
\<close>

datatype task = Created | Begun

record 'x LocalDevInfrastructureSetup =
  ld_consumer :: "'x worker_system"
  ld_task :: "task option"

definition InMemoryConsumer :: "string \<Rightarrow> runtime \<Rightarrow> 'x worker_system" where
  "InMemoryConsumer worker_id s =
     \<lparr> sys_rt = s, wk_worker_id = worker_id, wk_execution_allowed = True, wk_phase = Stopped, wk_beating = False \<rparr>"

definition new_local_dev :: "'x worker_system \<Rightarrow> 'x LocalDevInfrastructureSetup" where
  "new_local_dev consumer = \<lparr> ld_consumer = consumer, ld_task = None \<rparr>"

definition local_dev_setup :: "(exn, 'x LocalDevInfrastructureSetup) awaited" where
  "local_dev_setup st = Some (Inr (), st\<lparr> ld_task := Some Created \<rparr>)"

text \<open>
  Cancelling the task and awaiting it. A task that has not begun never runs. At the wait the
  cancellation passes the \<open>finally\<close> that clears the signal. In an execution it passes \<open>execute_run\<close>,
  whose \<open>except Exception\<close> is not for cancellations and whose \<open>finally\<close> drops the context, and the end
  of the lease scope, which stops the heartbeat. At the end of the lease scope it is taken for the
  cancellation of the heartbeat task and swallowed, and the loop goes on. A task that is over stays as
  it is, and awaiting it raises what it raised. The cancellation itself is suppressed.
\<close>

definition cancelled_and_awaited :: "(exn, 'x worker_system) awaited" where
  "cancelled_and_awaited w =
     (case wk_phase w of
        AtWait \<Rightarrow> Some (Inr (), w\<lparr> sys_rt := snd (wait_signal None None (sys_rt w)), wk_phase := Stopped \<rparr>)
      | Executing ctx x \<Rightarrow> Some (Inr (), w\<lparr> wk_beating := False, wk_phase := Stopped \<rparr>)
      | LeavingScope r \<Rightarrow>
          (case on_leave w of
             None \<Rightarrow> None
           | Some w' \<Rightarrow>
               (case wk_phase w' of
                  Stopped \<Rightarrow> Some (Inr (), w')
                | Crashed e \<Rightarrow> Some (Inl e, w')
                | _ \<Rightarrow> None))
      | Stopped \<Rightarrow> Some (Inr (), w)
      | Crashed e \<Rightarrow> Some (Inl e, w))"

definition local_dev_shutdown :: "(exn, 'x LocalDevInfrastructureSetup) awaited" where
  "local_dev_shutdown st =
     (let consumer = shutdown_execution (ld_consumer st) in
      case ld_task st of
        None \<Rightarrow> Some (Inr (), st\<lparr> ld_consumer := consumer \<rparr>)
      | Some Created \<Rightarrow> Some (Inr (), st\<lparr> ld_consumer := consumer \<rparr>)
      | Some Begun \<Rightarrow>
          (case cancelled_and_awaited consumer of
             None \<Rightarrow> None
           | Some (r, w) \<Rightarrow> Some (r, st\<lparr> ld_consumer := w \<rparr>)))"

definition local_dev :: "'x LocalDevInfrastructureSetup InfrastructureSetup" where
  "local_dev = \<lparr> is_setup = local_dev_setup, is_shutdown = local_dev_shutdown \<rparr>"

text \<open>
  While the application serves: the loop begins the task, the task and the heartbeat are resumed, and
  others (the endpoints, other workers) call the stores.
\<close>

datatype serving_event = Begin | Act worker_event

fun serve_one ::
    "'x AgentRunExecutor \<Rightarrow> serving_event \<Rightarrow> 'x LocalDevInfrastructureSetup \<Rightarrow> 'x LocalDevInfrastructureSetup option" where
  "serve_one ex Begin st =
     (if ld_task st = Some Created
      then Some (st\<lparr> ld_consumer := loop_head (ld_consumer st), ld_task := Some Begun \<rparr>) else None)"
| "serve_one ex (Act e) st =
     (case e of
        Shutdown \<Rightarrow> None
      | Other c \<Rightarrow> map_option (\<lambda>w. st\<lparr> ld_consumer := w \<rparr>) (react ex e (ld_consumer st))
      | _ \<Rightarrow>
          if ld_task st = Some Begun
          then map_option (\<lambda>w. st\<lparr> ld_consumer := w \<rparr>) (react ex e (ld_consumer st)) else None)"

fun serve_all ::
    "'x AgentRunExecutor \<Rightarrow> serving_event list \<Rightarrow> 'x LocalDevInfrastructureSetup \<Rightarrow> 'x LocalDevInfrastructureSetup option" where
  "serve_all ex [] st = Some st"
| "serve_all ex (e # es) st = (case serve_one ex e st of None \<Rightarrow> None | Some st' \<Rightarrow> serve_all ex es st')"

text \<open>Serving those events, and then the end: a return, or an exception thrown into the lifespan.\<close>

definition serving_events ::
    "'x AgentRunExecutor \<Rightarrow> serving_event list \<Rightarrow> compose_error + unit \<Rightarrow>
     (compose_error, registry \<times> 'x LocalDevInfrastructureSetup) awaited" where
  "serving_events ex es r rs = map_option (\<lambda>st. (r, fst rs, st)) (serve_all ex es (snd rs))"

section \<open>The protocol of an infrastructure\<close>

text \<open>
  What the lifespan relies on: set up from a fresh state, the infrastructure is up and stays so while
  the application serves; from a fresh state and while it is up, shutting it down returns, possibly
  with an exception, and leaves it down.
\<close>

locale infrastructure =
  fixes infra :: "'s InfrastructureSetup"
    and fresh up down :: "'s \<Rightarrow> bool"
  assumes set_up: "fresh s \<Longrightarrow> \<exists>t. is_setup infra s = Some (Inr (), t) \<and> up t"
    and shut_down: "fresh s \<or> up s \<Longrightarrow> \<exists>r t. is_shutdown infra s = Some (r, t) \<and> down t"
begin

lemma lifespan_serves:
  assumes "fresh s" and "apply_registrars registrars registry = (Inr (), registry')"
    and "is_setup infra s = Some (Inr (), t)" and "serving (registry', t) = Some (r, registry'', u)" and "up u"
  shows "\<exists>q v. is_shutdown infra u = Some (q, v) \<and> down v \<and>
    di_lifespan infra registrars serving (registry, s) =
      Some (case q of Inl e \<Rightarrow> Inl (ComposeError e) | Inr _ \<Rightarrow> r, registry'', v)"
proof -
  obtain q v where "is_shutdown infra u = Some (q, v)" "down v" using shut_down assms(5) by blast
  then show ?thesis
    using assms(2-4)
    by (auto simp: di_lifespan_def and_finally_def and_then_def on_registrars_def on_infrastructure_def split: sum.split)
qed

lemma lifespan_fails_to_start:
  assumes "fresh s" and "apply_registrars registrars registry = (Inl e, registry')"
  shows "\<exists>q v. is_shutdown infra s = Some (q, v) \<and> down v \<and>
    di_lifespan infra registrars serving (registry, s) =
      Some (case q of Inl e' \<Rightarrow> Inl (ComposeError e') | Inr _ \<Rightarrow> Inl e, registry', v)"
proof -
  obtain q v where "is_shutdown infra s = Some (q, v)" "down v" using shut_down assms(1) by blast
  then show ?thesis
    using assms(2)
    by (auto simp: di_lifespan_def and_finally_def and_then_def on_registrars_def on_infrastructure_def split: sum.split)
qed

end

section \<open>The development set-up keeps the protocol\<close>

definition dev_fresh :: "'x LocalDevInfrastructureSetup \<Rightarrow> bool" where
  "dev_fresh st \<longleftrightarrow> ld_task st = None \<and> wk_phase (ld_consumer st) = Stopped"

definition dev_up :: "'x LocalDevInfrastructureSetup \<Rightarrow> bool" where
  "dev_up st \<longleftrightarrow> ld_task st = Some Begun \<or> ld_task st = Some Created \<and> wk_phase (ld_consumer st) = Stopped"

text \<open>What the task of the consumer ends with, when nothing resumes it any more.\<close>

definition crash :: "'x worker_system \<Rightarrow> exn option" where
  "crash w = (case wk_phase w of Crashed e \<Rightarrow> Some e | LeavingScope r \<Rightarrow> r | _ \<Rightarrow> None)"

definition dev_down :: "'x LocalDevInfrastructureSetup \<Rightarrow> bool" where
  "dev_down st \<longleftrightarrow> \<not> wk_execution_allowed (ld_consumer st) \<and>
     (wk_phase (ld_consumer st) = Stopped \<or> (\<exists>e. wk_phase (ld_consumer st) = Crashed e))"

text \<open>Two runtimes that differ at most in the signal.\<close>

definition same_stores :: "runtime \<Rightarrow> runtime \<Rightarrow> bool" where
  "same_stores s t \<longleftrightarrow> t = s\<lparr> rt_signal := rt_signal t \<rparr>"

lemma shutdown_execution_sel [simp]:
  "\<not> wk_execution_allowed (shutdown_execution w)" "crash (shutdown_execution w) = crash w"
  "same_stores (sys_rt w) (sys_rt (shutdown_execution w))"
  by (auto simp: shutdown_execution_def crash_def same_stores_def notify_signal_def modify_def split: phase.split)

lemma same_stores_trans: "same_stores s t \<Longrightarrow> same_stores t u \<Longrightarrow> same_stores s u"
  unfolding same_stores_def by (metis runtime.surjective runtime.update_convs)

lemma same_stores_wait: "same_stores s (snd (wait_signal t n s))"
  by (simp add: same_stores_def wait_signal_def split: prod.split)

lemma same_stores_sel:
  assumes "same_stores s t"
  shows "rt_runs t = rt_runs s" "rt_events t = rt_events s"
  using arg_cong [OF assms [unfolded same_stores_def], of rt_runs]
    arg_cong [OF assms [unfolded same_stores_def], of rt_events] by simp_all

text \<open>A consumer that may not execute any more always ends when its task is cancelled.\<close>

lemma cancelled_and_awaited_ends:
  assumes "\<not> wk_execution_allowed w"
  shows "\<exists>w'. cancelled_and_awaited w = Some (case crash w of None \<Rightarrow> Inr () | Some e \<Rightarrow> Inl e, w') \<and>
    \<not> wk_execution_allowed w' \<and> wk_phase w' = (case crash w of None \<Rightarrow> Stopped | Some e \<Rightarrow> Crashed e) \<and>
    same_stores (sys_rt w) (sys_rt w')"
  using assms
  by (cases "wk_phase w")
    (auto simp: cancelled_and_awaited_def crash_def same_stores_wait on_leave_def loop_head_def
      same_stores_def [of "sys_rt w" "sys_rt w"] split: option.splits)

lemma shutdown_ends:
  assumes "dev_fresh st \<or> dev_up st"
  shows "\<exists>st'. local_dev_shutdown st = Some (case crash (ld_consumer st) of None \<Rightarrow> Inr () | Some e \<Rightarrow> Inl e, st') \<and>
    dev_down st' \<and> same_stores (sys_rt (ld_consumer st)) (sys_rt (ld_consumer st'))"
proof (cases "ld_task st = Some Begun")
  case True
  obtain w where "cancelled_and_awaited (shutdown_execution (ld_consumer st)) =
      Some (case crash (ld_consumer st) of None \<Rightarrow> Inr () | Some e \<Rightarrow> Inl e, w)"
    "\<not> wk_execution_allowed w"
    "wk_phase w = (case crash (ld_consumer st) of None \<Rightarrow> Stopped | Some e \<Rightarrow> Crashed e)"
    "same_stores (sys_rt (shutdown_execution (ld_consumer st))) (sys_rt w)"
    using cancelled_and_awaited_ends [of "shutdown_execution (ld_consumer st)"] by auto
  then show ?thesis
    using True same_stores_trans [OF shutdown_execution_sel(3)]
    by (auto simp: local_dev_shutdown_def dev_down_def split: option.split)
next
  case False
  then have "wk_phase (ld_consumer st) = Stopped" "ld_task st \<in> {None, Some Created}"
    using assms by (auto simp: dev_fresh_def dev_up_def)
  then show ?thesis
    by (auto simp: local_dev_shutdown_def dev_down_def crash_def shutdown_execution_def [of "ld_consumer st"]
        same_stores_def notify_signal_def modify_def)
qed

interpretation dev: infrastructure local_dev dev_fresh dev_up dev_down
proof
  fix st :: "'x LocalDevInfrastructureSetup"
  show "dev_fresh st \<Longrightarrow> \<exists>t. is_setup local_dev st = Some (Inr (), t) \<and> dev_up t"
    by (simp add: local_dev_def local_dev_setup_def dev_fresh_def dev_up_def)
  show "dev_fresh st \<or> dev_up st \<Longrightarrow> \<exists>r t. is_shutdown local_dev st = Some (r, t) \<and> dev_down t"
    using shutdown_ends [of st] by (auto simp: local_dev_def)
qed

text \<open>Serving keeps the infrastructure up, and only calls the stores.\<close>

lemma serve_one_up:
  assumes "dev_up st" and "serve_one ex e st = Some st'"
  shows "dev_up st'"
proof (cases e)
  case (Act a)
  then show ?thesis
    using assms by (cases a) (auto simp: dev_up_def split: if_splits)
qed (use assms in \<open>auto simp: dev_up_def split: if_splits\<close>)

lemma serve_all_up: "dev_up st \<Longrightarrow> serve_all ex es st = Some st' \<Longrightarrow> dev_up st'"
  by (induction es arbitrary: st) (auto split: option.splits dest: serve_one_up)

lemma serve_one_later:
  assumes "honest ex" and "serve_one ex e st = Some st'"
  shows "later (sys_rt (ld_consumer st)) (sys_rt (ld_consumer st'))"
proof (cases e)
  case Begin
  then show ?thesis using assms(2) by (auto simp: later.here split: if_splits)
next
  case (Act a)
  then obtain w where "react ex a (ld_consumer st) = Some w" "ld_consumer st' = w"
    using assms(2) by (cases a) (auto split: if_splits)
  then show ?thesis using later_react [OF assms(1)] by blast
qed

lemma serve_all_later:
  assumes "honest ex"
  shows "serve_all ex es st = Some st' \<Longrightarrow> later (sys_rt (ld_consumer st)) (sys_rt (ld_consumer st'))"
proof (induction es arbitrary: st)
  case (Cons e es)
  obtain u where "serve_one ex e st = Some u" "serve_all ex es u = Some st'"
    using Cons.prems by (auto split: option.splits)
  then show ?case using Cons.IH serve_one_later [OF assms] calls.R_trans by blast
qed (simp add: later.here)

lemma shutdown_later:
  assumes "local_dev_shutdown st = Some (r, st')"
  shows "later (sys_rt (ld_consumer st)) (sys_rt (ld_consumer st'))"
proof -
  let ?w = "shutdown_execution (ld_consumer st)"
  have stop: "later (sys_rt (ld_consumer st)) (sys_rt ?w)"
    using later.call [OF later.here, of _ CallNotify] by (simp add: shutdown_execution_def)
  have "cancelled_and_awaited ?w = Some (q, w) \<Longrightarrow> later (sys_rt ?w) (sys_rt w)" for q w
    by (auto simp: cancelled_and_awaited_def on_leave_def later.here later_wait split: phase.splits option.splits)
  then show ?thesis
    using assms stop calls.R_trans
    by (auto simp: local_dev_shutdown_def Let_def split: option.splits task.splits)
qed

section \<open>The application's life\<close>

text \<open>The state in which an application begins, and its life.\<close>

definition application_life ::
    "'x AgentRunExecutor \<Rightarrow> registrar list \<Rightarrow> serving_event list \<Rightarrow> compose_error + unit \<Rightarrow> string \<Rightarrow> registry \<Rightarrow>
     runtime \<Rightarrow> ((compose_error + unit) \<times> registry \<times> 'x LocalDevInfrastructureSetup) option" where
  "application_life ex registrars es r worker_id registry s =
     di_lifespan local_dev registrars (serving_events ex es r) (registry, new_local_dev (InMemoryConsumer worker_id s))"

definition served ::
    "'x AgentRunExecutor \<Rightarrow> serving_event list \<Rightarrow> string \<Rightarrow> runtime \<Rightarrow> 'x LocalDevInfrastructureSetup option" where
  "served ex es worker_id s =
     serve_all ex es \<lparr> ld_consumer = InMemoryConsumer worker_id s, ld_task = Some Created \<rparr>"

lemma fresh_dev: "dev_fresh (new_local_dev (InMemoryConsumer worker_id s))"
  by (simp add: dev_fresh_def new_local_dev_def InMemoryConsumer_def)

lemma dev_setup: "is_setup local_dev (new_local_dev w) = Some (Inr (), \<lparr> ld_consumer = w, ld_task = Some Created \<rparr>)"
  by (simp add: local_dev_def local_dev_setup_def new_local_dev_def)

lemma application_life_served:
  assumes "apply_registrars registrars registry = (Inr (), registry')" and "served ex es worker_id s = Some st"
  shows "\<exists>st'. application_life ex registrars es r worker_id registry s =
      Some (case crash (ld_consumer st) of None \<Rightarrow> r | Some e \<Rightarrow> Inl (ComposeError e), registry', st') \<and>
    dev_down st' \<and> same_stores (sys_rt (ld_consumer st)) (sys_rt (ld_consumer st')) \<and>
    (\<exists>q. local_dev_shutdown st = Some (q, st'))"
proof -
  let ?w = "InMemoryConsumer worker_id s"
  have "dev_up \<lparr> ld_consumer = ?w, ld_task = Some Created \<rparr>" by (simp add: InMemoryConsumer_def dev_up_def)
  then have up: "dev_up st" using serve_all_up assms(2) unfolding served_def by blast
  have "serving_events ex es r (registry', \<lparr> ld_consumer = ?w, ld_task = Some Created \<rparr>) = Some (r, registry', st)"
    using assms(2) by (simp add: serving_events_def served_def)
  from dev.lifespan_serves [of "new_local_dev ?w" registrars registry registry' _ "serving_events ex es r" r registry' st,
      OF fresh_dev assms(1) dev_setup this up] shutdown_ends [of st] up
  show ?thesis
    by (auto simp: application_life_def local_dev_def split: option.splits)
qed

section \<open>Properties\<close>

text \<open>
  C33 The application ends. Whatever was served before, and whatever ends the serving, the shutdown
  returns: the consumer may not execute any more and its task is over, the runs and their events are
  as they were when the serving ended, and the lifespan reports what ended the serving - unless the
  consumer's loop has failed before, which then fails the lifespan instead.
\<close>

theorem application_ends:
  assumes "apply_registrars registrars registry = (Inr (), registry')" and "served ex es worker_id s = Some st"
  shows "\<exists>st'. application_life ex registrars es r worker_id registry s =
      Some (case crash (ld_consumer st) of None \<Rightarrow> r | Some e \<Rightarrow> Inl (ComposeError e), registry', st') \<and>
    \<not> wk_execution_allowed (ld_consumer st') \<and> wk_phase (ld_consumer st') \<in> {Stopped} \<union> range Crashed \<and>
    rt_runs (sys_rt (ld_consumer st')) = rt_runs (sys_rt (ld_consumer st)) \<and>
    rt_events (sys_rt (ld_consumer st')) = rt_events (sys_rt (ld_consumer st))"
proof -
  obtain st' where "application_life ex registrars es r worker_id registry s =
      Some (case crash (ld_consumer st) of None \<Rightarrow> r | Some e \<Rightarrow> Inl (ComposeError e), registry', st')"
    and "dev_down st'" and same: "same_stores (sys_rt (ld_consumer st)) (sys_rt (ld_consumer st'))"
    using application_life_served [OF assms] by blast
  then show ?thesis
    using same_stores_sel [OF same] by (auto simp: dev_down_def)
qed

definition example_life :: "serving_event list" where
  "example_life = [Begin, Act (Wake 5), Act (Beat 8)]"

lemma example_life_served: "served RandomSleepRunExecutor example_life ''wB'' example_runtime \<noteq> None"
  by code_simp

theorem application_ends_witness:
  "\<exists>registry st. application_life RandomSleepRunExecutor (di_fastapi_lifespan_registrars get_production_registrars)
     example_life (Inr ()) ''wB'' [] example_runtime = Some (Inr (), registry, st) \<and>
   \<not> wk_execution_allowed (ld_consumer st)"
proof -
  obtain st where st: "served RandomSleepRunExecutor example_life ''wB'' example_runtime = Some st"
    using example_life_served by blast
  have "map_option (\<lambda>st. crash (ld_consumer st)) (served RandomSleepRunExecutor example_life ''wB'' example_runtime) = Some None"
    by code_simp
  then have "crash (ld_consumer st) = None" using st by simp
  with application_ends [OF _ st, of "di_fastapi_lifespan_registrars get_production_registrars" "[]", where r = "Inr ()"]
  show ?thesis
    by (auto simp: get_production_registrars_def production_lifespan simp del: apply_registrars.simps)
qed

text \<open>
  C34 The end of an application loses no run. A run that the consumer is executing when the
  application ends is left RUNNING, as it is, and a worker that claims after its lease has expired
  recovers it: the run is enqueued again or taken, with its retry count one higher - or cancelled, if
  that was requested.
\<close>

theorem ended_application_loses_no_run:
  assumes "runtime_ok (sys_rt (ld_consumer st))" and "ld_task st = Some Begun"
    and "wk_phase (ld_consumer st) = Executing ctx x"
    and "run_of (sys_rt (ld_consumer st)) (ctx_run_id ctx) = Some rs" and "rs_status rs = RUNNING"
    and "rs_retry_count rs = Some n" and "has_claim_expired now rs"
  shows "\<exists>st'. is_shutdown local_dev st = Some (Inr (), st') \<and>
    run_of (sys_rt (ld_consumer st')) (ctx_run_id ctx) = Some rs \<and>
    (\<exists>rs'. run_of (snd (claim_run default_policy now w (sys_rt (ld_consumer st')))) (ctx_run_id ctx) = Some rs' \<and>
       rs_retry_count rs' = Some (n + 1) \<and>
       (rs_status rs' \<in> {RUNNING, ENQUEUED} \<or> rs_status rs' = CANCELLED \<and> rs_cancel_requested rs))"
proof -
  have "dev_up st" "crash (ld_consumer st) = None" using assms(2,3) by (simp_all add: dev_up_def crash_def)
  then obtain st' where st': "is_shutdown local_dev st = Some (Inr (), st')"
    and same: "same_stores (sys_rt (ld_consumer st)) (sys_rt (ld_consumer st'))"
    using shutdown_ends [of st] by (auto simp: local_dev_def)
  have ok: "runtime_ok (sys_rt (ld_consumer st'))"
    using assms(1) same_stores_sel [OF same] by (simp add: runtime_ok_def)
  have run: "run_of (sys_rt (ld_consumer st')) (ctx_run_id ctx) = Some rs"
    using assms(4) same_stores_sel [OF same] by simp
  from claim_run_recovers_expired [OF ok run assms(5,7,6), of w] st' run show ?thesis by blast
qed

text \<open>The application of \<open>busy_worker\<close>.\<close>

definition busy_application :: "nat LocalDevInfrastructureSetup" where
  "busy_application = \<lparr> ld_consumer = busy_worker, ld_task = Some Begun \<rparr>"

theorem ended_application_loses_no_run_witness:
  "\<exists>st'. is_shutdown local_dev busy_application = Some (Inr (), st') \<and>
    map_option rs_status (run_of (sys_rt (ld_consumer st')) ''r2'') = Some RUNNING \<and>
    map_option rs_retry_count (run_of (snd (claim_run default_policy 100 ''wC'' (sys_rt (ld_consumer st')))) ''r2'') = Some (Some 1)"
proof -
  obtain ctx rs where ctx: "wk_phase busy_worker = Executing ctx 1" "ctx_run_id ctx = ''r2''"
    and rs: "run_of (sys_rt busy_worker) ''r2'' = Some rs" "rs_status rs = RUNNING" "runtime_ok (sys_rt busy_worker)"
    using busy_worker_executing by (auto simp: executing_run_def)
  have "map_option (\<lambda>rs. (rs_retry_count rs, has_claim_expired 100 rs)) (run_of (sys_rt busy_worker) ''r2'') = Some (Some 0, True)"
    by code_simp
  then have "rs_retry_count rs = Some 0" "has_claim_expired 100 rs" using rs(1) by simp_all
  then show ?thesis
    using ended_application_loses_no_run [of busy_application ctx 1 rs 0 100 "''wC''"] ctx rs
    by (auto simp: busy_application_def)
qed

text \<open>
  An application that fails to start is shut down: when a registrar of the lifespan raises,
  nothing is served, no task is created, the consumer may not execute, and the exception is the one
  that the lifespan ends with.
\<close>

theorem failed_start_is_shut_down:
  fixes ex :: "'x AgentRunExecutor"
  assumes "apply_registrars registrars registry = (Inl e, registry')"
  shows "\<exists>st. application_life ex registrars es r worker_id registry s = Some (Inl e, registry', st) \<and>
    ld_task st = None \<and> \<not> wk_execution_allowed (ld_consumer st) \<and>
    rt_runs (sys_rt (ld_consumer st)) = rt_runs s"
proof -
  let ?st = "new_local_dev (InMemoryConsumer worker_id s) :: 'x LocalDevInfrastructureSetup"
  have "is_shutdown local_dev ?st = Some (Inr (), ?st\<lparr> ld_consumer := shutdown_execution (InMemoryConsumer worker_id s) \<rparr>)"
    by (simp add: local_dev_def local_dev_shutdown_def new_local_dev_def Let_def)
  then have "application_life ex registrars es r worker_id registry s =
      Some (Inl e, registry', ?st\<lparr> ld_consumer := shutdown_execution (InMemoryConsumer worker_id s) \<rparr>)"
    using dev.lifespan_fails_to_start [OF fresh_dev [of worker_id s] assms, of "serving_events ex es r"]
    by (auto simp: application_life_def)
  then show ?thesis
    using same_stores_sel(1) [OF shutdown_execution_sel(3), of "InMemoryConsumer worker_id s"]
    by (simp add: new_local_dev_def InMemoryConsumer_def)
qed

text \<open>
  C35 Whatever an application serves, the stores it leaves are reached by store calls, so every
  property of histories holds across applications that end and start again.
\<close>

theorem applications_are_store_clients:
  assumes "honest ex" and "reachable s" and "served ex es worker_id s = Some st"
    and "apply_registrars registrars registry = (Inr (), registry')"
    and "application_life ex registrars es r worker_id registry s = Some (q, registry'', st')"
  shows "reachable (sys_rt (ld_consumer st'))"
proof -
  have "later s (sys_rt (ld_consumer st))"
    using serve_all_later [OF assms(1)] assms(3) by (fastforce simp: served_def InMemoryConsumer_def)
  moreover have "\<exists>q. local_dev_shutdown st = Some (q, st')"
    using application_life_served [OF assms(4,3), of r] assms(5) by auto
  ultimately show ?thesis using assms(2) shutdown_later calls.R_trans reachable_later by blast
qed

theorem applications_are_store_clients_witness:
  "\<exists>q registry st. application_life RandomSleepRunExecutor [] example_life (Inr ()) ''wB'' [] example_runtime = Some (q, registry, st) \<and>
     reachable (sys_rt (ld_consumer st))"
proof -
  obtain st where st: "served RandomSleepRunExecutor example_life ''wB'' example_runtime = Some st"
    using example_life_served by blast
  obtain q st' where life: "application_life RandomSleepRunExecutor [] example_life (Inr ()) ''wB'' [] example_runtime = Some (q, [], st')"
    using application_life_served [OF _ st, of "[]" "[]" "[]" "Inr ()"] by (auto simp: ret_def)
  from applications_are_store_clients [OF honest_executors(1) example_reachable st _ life] life
  show ?thesis by (auto simp: ret_def)
qed

end
