(* ===== verification/ProductionSetup.thy ===== *)
theory ProductionSetup
  imports Lifespan
begin

text \<open>
  The infrastructure of production (\<open>infrastructure/infra_setup/production.py\<close>): the connection pool of
  the database engine, as an implementation of the protocol that the lifespan drives.
\<close>

text \<open>The engine of the object-relational mapper is a parameter: the two operations on its pool.\<close>

record 's PostgresEngine =
  start_connection_pool :: "pydict \<Rightarrow> (exn, 's) awaited"
  close_connection_pool :: "(exn, 's) awaited"

definition production :: "'s PostgresEngine \<Rightarrow> 's InfrastructureSetup" where
  "production DB =
     \<lparr> is_setup = start_connection_pool DB get_db_pool_config, is_shutdown = close_connection_pool DB \<rparr>"

text \<open>
  However the production lifespan ends, by a failed start, by an exception or by the server, the last
  thing that was done to the engine is to close its pool.
\<close>

theorem production_lifespan_closes_the_pool:
  assumes "di_lifespan (production DB) registrars serving rs = Some (r, registry, s)"
  shows "\<exists>s' q. close_connection_pool DB s' = Some (q, s)"
  using assms
  by (auto simp: di_lifespan_def and_finally_def on_infrastructure_def production_def
      split: option.splits sum.splits prod.splits)

end
