(* ===== verification/ContextEnrichers.thy ===== *)
theory ContextEnrichers
  imports Middlewares
begin

text \<open>
  The protocol of execution context enrichers (\<open>application/execution_context.py\<close>) as a contract, with
  its two implementations: the one of the production set-up and the stand-in of the test set-up
  (\<open>infrastructure/execution_context/fake.py\<close>); and the middleware over any of them.
\<close>

section \<open>The protocol and the middleware over it\<close>

text \<open>
  The context manager around a body and the instrumented receive. Both implementations return the
  send of the caller as it is, so sending is not instrumented here.
\<close>

record ('m, 'w) ExecutionContextEnricher =
  ee_enrich_from_scope :: "asgi_scope \<Rightarrow> (auth_exn, ('m, 'w) request_state, unit) eprog \<Rightarrow>
    (auth_exn, ('m, 'w) request_state, unit) eprog"
  ee_instrumented_receive :: "asgi_scope \<Rightarrow> ('m, 'w) receive_fun \<Rightarrow> ('m, 'w) receive_fun"

definition ExecutionContextMiddleware ::
    "('m, 'w) ExecutionContextEnricher \<Rightarrow> ('m, 'w) asgi_app \<Rightarrow> ('m, 'w) asgi_app" where
  "ExecutionContextMiddleware enricher app scope receive =
     (if \<not> served_type scope then app scope receive
      else ee_enrich_from_scope enricher scope
             (app scope (ee_instrumented_receive enricher scope receive)))"

definition ProductionContextEnricher :: "extractor_library \<Rightarrow> string \<Rightarrow> ('m, 'w) ExecutionContextEnricher" where
  "ProductionContextEnricher lib new_uuid =
     \<lparr> ee_enrich_from_scope = enrich_from_scope lib new_uuid,
       ee_instrumented_receive = (\<lambda>scope. instrumented_receive lib) \<rparr>"

section \<open>The stand-in\<close>

text \<open>The token library gets header, claims and key, and may raise.\<close>

type_synonym jwt_encoder = "pydict \<Rightarrow> pydict \<Rightarrow> string \<Rightarrow> auth_exn + string"

definition generate_fake_jwt_token :: "jwt_encoder \<Rightarrow> auth_exn + string" where
  "generate_fake_jwt_token encode =
     encode [(''alg'', PStr ''HS256'')]
       [(''sub'', PStr ''1234567890''), (''name'', PStr ''John Doe''), (''iat'', PInt 1516239022)]
       ''secret''"

definition fake_enrich_from_scope ::
    "jwt_encoder \<Rightarrow> string \<Rightarrow> asgi_scope \<Rightarrow> (auth_exn, ('m, 'w) request_state, unit) eprog \<Rightarrow>
     (auth_exn, ('m, 'w) request_state, unit) eprog" where
  "fake_enrich_from_scope encode new_uuid scope body =
     bindM (modify set_default_state) (\<lambda>_.
     let request_id = generate_request_id new_uuid; scope_type = sc_type scope in
     bindM (if scope_type = ''http'' then liftE (map_sum id Some (generate_fake_jwt_token encode)) else ret None)
       (\<lambda>jwt_token.
     try_finally
       (bindM (modify (enter_context request_id scope_type jwt_token)) (\<lambda>_. body))
       leave_context))"

definition FakeExecutionContextEnricher :: "jwt_encoder \<Rightarrow> string \<Rightarrow> ('m, 'w) ExecutionContextEnricher" where
  "FakeExecutionContextEnricher encode new_uuid =
     \<lparr> ee_enrich_from_scope = fake_enrich_from_scope encode new_uuid,
       ee_instrumented_receive = (\<lambda>scope receive. receive) \<rparr>"

section \<open>The contract\<close>

text \<open>
  For a scope and a state, an enricher either refuses, before the body and with nothing entered, or
  runs the body between entering a context and leaving it, whatever the body does.
\<close>

locale execution_context_enricher =
  fixes enricher :: "('m, 'w) ExecutionContextEnricher"
  assumes enters_or_refuses:
    "(\<exists>e. \<forall>body. ee_enrich_from_scope enricher scope body s = (Inl e, set_default_state s)) \<or>
     (\<exists>request_id jwt_token. \<forall>body. ee_enrich_from_scope enricher scope body s =
        (case body (enter_context request_id (sc_type scope) jwt_token (set_default_state s)) of
           (r, s') \<Rightarrow> (r, leave_context s')))"
begin

lemma middleware_enters_or_refuses:
  assumes "served_type scope"
  shows "(\<exists>e. ExecutionContextMiddleware enricher app scope receive s = (Inl e, set_default_state s)) \<or>
    (\<exists>request_id jwt_token. ExecutionContextMiddleware enricher app scope receive s =
       (case app scope (ee_instrumented_receive enricher scope receive)
               (enter_context request_id (sc_type scope) jwt_token (set_default_state s)) of
          (r, s') \<Rightarrow> (r, leave_context s')))"
  using enters_or_refuses [of scope s] assms by (auto simp: ExecutionContextMiddleware_def)

lemma context_does_not_leak:
  assumes "served_type scope" and "rq_jwt_var s = None" and "rq_log_context s = []"
    and "ExecutionContextMiddleware enricher app scope receive s = (r, s')"
  shows "rq_jwt_var s' = None \<and> rq_log_context s' = []"
proof -
  consider e where "s' = set_default_state s" | request_id jwt_token s1 where "s' = leave_context s1"
    using middleware_enters_or_refuses [OF assms(1), of app receive s] assms(4) by (auto simp: case_prod_beta)
  then show ?thesis
    using assms(2,3) by cases (auto simp: leave_context_def set_default_state_def split: option.split)
qed

end

lemma enrichment_cases:
  "(\<exists>e. token = Inl e \<and> (\<forall>body. bindM (modify set_default_state) (\<lambda>_. bindM (liftE token) (\<lambda>t. f t body)) s =
      (Inl e, set_default_state s))) \<or>
   (\<exists>t. token = Inr t \<and> (\<forall>body. bindM (modify set_default_state) (\<lambda>_. bindM (liftE token) (\<lambda>t. f t body)) s =
      f t body (set_default_state s)))"
  by (cases token) (simp_all add: bindM_def modify_def liftE_def)

lemma context_run:
  "try_finally (bindM (modify (enter_context i ty t)) (\<lambda>_. body)) leave_context s =
     (case body (enter_context i ty t s) of (r, s') \<Rightarrow> (r, leave_context s'))"
  by (simp add: try_finally_def bindM_def modify_def)

lemma ret_liftE: "ret x = liftE (Inr x)"
  by (simp add: ret_def liftE_def)

interpretation production_enricher: execution_context_enricher "ProductionContextEnricher lib new_uuid" for lib new_uuid
proof
  fix scope :: asgi_scope and s :: "('m, 'w) request_state"
  show "(\<exists>e. \<forall>body. ee_enrich_from_scope (ProductionContextEnricher lib new_uuid) scope body s = (Inl e, set_default_state s)) \<or>
     (\<exists>request_id jwt_token. \<forall>body. ee_enrich_from_scope (ProductionContextEnricher lib new_uuid) scope body s =
        (case body (enter_context request_id (sc_type scope) jwt_token (set_default_state s)) of
           (r, s') \<Rightarrow> (r, leave_context s')))"
    using enrichment_cases [of "opening_token lib scope" "\<lambda>t body. try_finally (bindM (modify
        (enter_context (generate_request_id new_uuid) (sc_type scope) t)) (\<lambda>_. body)) leave_context" s]
    by (cases "sc_type scope = ''http''")
      (auto simp: ProductionContextEnricher_def enrich_from_scope_def Let_def opening_token_def context_run ret_liftE)
qed

interpretation fake_enricher: execution_context_enricher "FakeExecutionContextEnricher encode new_uuid" for encode new_uuid
proof
  fix scope :: asgi_scope and s :: "('m, 'w) request_state"
  let ?token = "if sc_type scope = ''http'' then map_sum id Some (generate_fake_jwt_token encode) else Inr None"
  show "(\<exists>e. \<forall>body. ee_enrich_from_scope (FakeExecutionContextEnricher encode new_uuid) scope body s = (Inl e, set_default_state s)) \<or>
     (\<exists>request_id jwt_token. \<forall>body. ee_enrich_from_scope (FakeExecutionContextEnricher encode new_uuid) scope body s =
        (case body (enter_context request_id (sc_type scope) jwt_token (set_default_state s)) of
           (r, s') \<Rightarrow> (r, leave_context s')))"
    using enrichment_cases [of ?token "\<lambda>t body. try_finally (bindM (modify
        (enter_context (generate_request_id new_uuid) (sc_type scope) t)) (\<lambda>_. body)) leave_context" s]
    by (cases "sc_type scope = ''http''")
      (auto simp: FakeExecutionContextEnricher_def fake_enrich_from_scope_def Let_def context_run ret_liftE)
qed

section \<open>What follows\<close>

text \<open>The middleware of the production application is the middleware over the production enricher.\<close>

theorem execution_middleware_is_over_production:
  "execution_middleware lib new_uuid = ExecutionContextMiddleware (ProductionContextEnricher lib new_uuid)"
  by (intro ext) (simp add: execution_middleware_def ExecutionContextMiddleware_def ProductionContextEnricher_def)

text \<open>
  With either enricher nothing of a request stays in the contexts, whatever the application does and
  whether or not an exception comes out.
\<close>

theorem contexts_do_not_leak:
  assumes "served_type scope" and "rq_jwt_var s = None" and "rq_log_context s = []"
    and "enricher \<in> {ProductionContextEnricher lib new_uuid, FakeExecutionContextEnricher encode new_uuid}"
    and "ExecutionContextMiddleware enricher app scope receive s = (r, s')"
  shows "rq_jwt_var s' = None \<and> rq_log_context s' = []"
  using assms(4,5) production_enricher.context_does_not_leak [OF assms(1-3)]
    fake_enricher.context_does_not_leak [OF assms(1-3)] by blast

text \<open>
  Under the stand-in the credentials of a request do not matter: authentication sees the token of
  the stand-in in every HTTP request and none in any other, and the messages of a WebSocket are not
  looked at.
\<close>

theorem stand_in_ignores_credentials:
  assumes "served_type scope" and "generate_fake_jwt_token encode = Inr token"
  shows "ExecutionContextMiddleware (FakeExecutionContextEnricher encode new_uuid) app scope receive s =
    (case app scope receive (entered new_uuid scope (if sc_type scope = ''http'' then Some token else None) s) of
       (r, s') \<Rightarrow> (r, leave_context s'))"
  using assms
  by (simp add: ExecutionContextMiddleware_def FakeExecutionContextEnricher_def fake_enrich_from_scope_def Let_def
      entered_def bindM_def modify_def liftE_def ret_def try_finally_def)

end
