(* ===== verification/TokenScript.thy ===== *)
theory TokenScript
  imports Telemetry
begin

text \<open>
  The script that fetches an access token from Keycloak (\<open>testing_payloads/get_keycloak_token.py\<close>):
  from the environment to what is printed and the exit status. The HTTP library is an argument.
\<close>

section \<open>What the script is given\<close>

text \<open>
  A response with its status, its text and what decoding it as JSON comes to; the failures of a
  request. A POST gets the URL, the form and the headers. Whether \<open>raise_for_status\<close> accepts a status,
  and the texts of exceptions and values, are the library's.
\<close>

record http_response =
  hr_status_code :: int
  hr_text :: string
  hr_json :: json_outcome

datatype httpx_error =
    HTTPStatusError http_response
  | RequestError string
  | OtherException string

type_synonym form = "(string \<times> string) list"

record 'w http_library =
  hl_post :: "string \<Rightarrow> form \<Rightarrow> (string \<times> string) list \<Rightarrow> 'w \<Rightarrow> (httpx_error + http_response) \<times> 'w"
  hl_is_success :: "int \<Rightarrow> bool"
  hl_not_json :: string
  hl_no_get :: "pyval \<Rightarrow> string"
  hl_str :: "pyval \<Rightarrow> string"

text \<open>The state of a run: the world of the library, and the lines printed to the two streams.\<close>

record 'w script_state =
  ss_world :: 'w
  ss_stdout :: "string list"
  ss_stderr :: "string list"

type_synonym ('w, 'a) script = "(httpx_error, 'w script_state, 'a) eprog"

definition print_stdout :: "string \<Rightarrow> ('w, unit) script" where
  "print_stdout line = modify (\<lambda>s. s\<lparr> ss_stdout := ss_stdout s @ [line] \<rparr>)"

definition print_stderr :: "string \<Rightarrow> ('w, unit) script" where
  "print_stderr line = modify (\<lambda>s. s\<lparr> ss_stderr := ss_stderr s @ [line] \<rparr>)"

section \<open>The two grants\<close>

definition token_url :: "string \<Rightarrow> string \<Rightarrow> string" where
  "token_url keycloak_url realm = keycloak_url @ ''/realms/'' @ realm @ ''/protocol/openid-connect/token''"

definition form_headers :: "(string \<times> string) list" where
  "form_headers = [(''Content-Type'', ''application/x-www-form-urlencoded'')]"

text \<open>The POST, \<open>raise_for_status\<close> and \<open>json\<close> that both grants end with.\<close>

definition post_for_json :: "'w http_library \<Rightarrow> string \<Rightarrow> form \<Rightarrow> ('w, pyval) script" where
  "post_for_json lib url data = (\<lambda>s.
     case hl_post lib url data form_headers (ss_world s) of
       (Inl e, w) \<Rightarrow> (Inl e, s\<lparr> ss_world := w \<rparr>)
     | (Inr response, w) \<Rightarrow>
         (if \<not> hl_is_success lib (hr_status_code response) then Inl (HTTPStatusError response)
          else case hr_json response of
                 Decoded v \<Rightarrow> Inr v
               | NotJson \<Rightarrow> Inl (OtherException (hl_not_json lib))
               | JsonRaises e \<Rightarrow> Inl (OtherException (exn_text e)),
          s\<lparr> ss_world := w \<rparr>))"

definition password_form :: "string \<Rightarrow> string \<Rightarrow> string \<Rightarrow> string \<Rightarrow> form" where
  "password_form client_id client_secret username password =
     [(''grant_type'', ''password''), (''client_id'', client_id), (''client_secret'', client_secret),
      (''username'', username), (''password'', password)]"

definition refresh_form :: "string \<Rightarrow> string \<Rightarrow> string \<Rightarrow> form" where
  "refresh_form client_id client_secret refresh_token =
     [(''grant_type'', ''refresh_token''), (''client_id'', client_id), (''client_secret'', client_secret),
      (''refresh_token'', refresh_token)]"

definition get_keycloak_token ::
    "'w http_library \<Rightarrow> string \<Rightarrow> string \<Rightarrow> string \<Rightarrow> string \<Rightarrow> string \<Rightarrow> string \<Rightarrow> ('w, pyval) script" where
  "get_keycloak_token lib keycloak_url realm client_id client_secret username password =
     post_for_json lib (token_url keycloak_url realm) (password_form client_id client_secret username password)"

definition refresh_keycloak_token ::
    "'w http_library \<Rightarrow> string \<Rightarrow> string \<Rightarrow> string \<Rightarrow> string \<Rightarrow> string \<Rightarrow> ('w, pyval) script" where
  "refresh_keycloak_token lib keycloak_url realm client_id client_secret refresh_token =
     post_for_json lib (token_url keycloak_url realm) (refresh_form client_id client_secret refresh_token)"

section \<open>The script\<close>

text \<open>The configuration, each variable with its default; an empty refresh token counts as none.\<close>

record keycloak_configuration =
  kc_url :: string
  kc_realm :: string
  kc_client_id :: string
  kc_client_secret :: string
  kc_username :: string
  kc_password :: string
  kc_refresh_token :: "string option"

definition read_configuration :: "environment \<Rightarrow> keycloak_configuration" where
  "read_configuration env =
     \<lparr> kc_url = getenv env ''KEYCLOAK_URL'' ''http://localhost:8082'',
       kc_realm = getenv env ''KEYCLOAK_REALM'' ''throttling-test'',
       kc_client_id = getenv env ''KEYCLOAK_CLIENT_ID'' ''throttling-api'',
       kc_client_secret = getenv env ''KEYCLOAK_CLIENT_SECRET'' ''test-client-secret'',
       kc_username = getenv env ''KEYCLOAK_USERNAME'' ''test-user'',
       kc_password = getenv env ''KEYCLOAK_PASSWORD'' ''test-password'',
       kc_refresh_token = env ''KEYCLOAK_REFRESH_TOKEN'' \<rparr>"

definition fetch_token :: "'w http_library \<Rightarrow> keycloak_configuration \<Rightarrow> ('w, pyval) script" where
  "fetch_token lib c =
     (case kc_refresh_token c of
        Some (t # ts) \<Rightarrow>
          refresh_keycloak_token lib (kc_url c) (kc_realm c) (kc_client_id c) (kc_client_secret c) (t # ts)
      | _ \<Rightarrow>
          get_keycloak_token lib (kc_url c) (kc_realm c) (kc_client_id c) (kc_client_secret c) (kc_username c) (kc_password c))"

text \<open>\<open>token_response.get(...)\<close> needs a dictionary. Newlines inside a printed text are kept in it.\<close>

definition newline :: string where
  "newline = [CHR 0x0A]"

definition token_details :: "'w http_library \<Rightarrow> pydict \<Rightarrow> string" where
  "token_details lib d =
     newline @ ''Token details:'' @ newline @
     ''  Expires in: '' @ hl_str lib (pget d ''expires_in'') @ ''s'' @ newline @
     ''  Token type: '' @ hl_str lib (pget d ''token_type'') @ newline @
     ''  Scope: '' @ hl_str lib (pget d ''scope'')"

definition report_token :: "'w http_library \<Rightarrow> pyval \<Rightarrow> ('w, int) script" where
  "report_token lib token_response =
     (case token_response of
        PDict d \<Rightarrow>
          (let access_token = pget d ''access_token'' in
           if truthy access_token then
             bindM (print_stdout (hl_str lib access_token)) (\<lambda>_.
             bindM (print_stderr (token_details lib d)) (\<lambda>_. ret 0))
           else
             bindM (print_stderr ''Error: No access_token in response'') (\<lambda>_.
             bindM (print_stderr (''Response: '' @ hl_str lib token_response)) (\<lambda>_. ret 1)))
      | v \<Rightarrow> throw (OtherException (hl_no_get lib v)))"

definition report_failure :: "keycloak_configuration \<Rightarrow> httpx_error \<Rightarrow> ('w, int) script" where
  "report_failure c e =
     (case e of
        HTTPStatusError response \<Rightarrow>
          bindM (print_stderr (''Error: HTTP '' @ int_text (hr_status_code response))) (\<lambda>_.
          bindM (print_stderr (''Response: '' @ hr_text response)) (\<lambda>_. ret 1))
      | RequestError text \<Rightarrow>
          bindM (print_stderr (''Error: Failed to connect to Keycloak: '' @ text)) (\<lambda>_.
          bindM (print_stderr (''URL: '' @ kc_url c)) (\<lambda>_. ret 1))
      | OtherException text \<Rightarrow>
          bindM (print_stderr (''Error: '' @ text)) (\<lambda>_. ret 1))"

definition token_main :: "'w http_library \<Rightarrow> environment \<Rightarrow> ('w, int) script" where
  "token_main lib env =
     (let c = read_configuration env in
      try_except (bindM (fetch_token lib c) (report_token lib)) (report_failure c))"

definition script_start :: "'w \<Rightarrow> 'w script_state" where
  "script_start w = \<lparr> ss_world = w, ss_stdout = [], ss_stderr = [] \<rparr>"

section \<open>Properties\<close>

text \<open>What a run is asked to send, and the token that it must print, if there is one.\<close>

definition grant_form :: "keycloak_configuration \<Rightarrow> form" where
  "grant_form c =
     (case kc_refresh_token c of
        Some (t # ts) \<Rightarrow> refresh_form (kc_client_id c) (kc_client_secret c) (t # ts)
      | _ \<Rightarrow> password_form (kc_client_id c) (kc_client_secret c) (kc_username c) (kc_password c))"

definition granted_token :: "'w http_library \<Rightarrow> httpx_error + http_response \<Rightarrow> pyval option" where
  "granted_token lib answer =
     (case answer of
        Inl e \<Rightarrow> None
      | Inr response \<Rightarrow>
          (case hr_json response of
             Decoded (PDict d) \<Rightarrow>
               if hl_is_success lib (hr_status_code response) \<and> truthy (pget d ''access_token'')
               then Some (pget d ''access_token'') else None
           | _ \<Rightarrow> None))"

lemma fetch_token_cases:
  "fetch_token lib c = post_for_json lib (token_url (kc_url c) (kc_realm c)) (grant_form c)"
  by (simp add: fetch_token_def grant_form_def get_keycloak_token_def refresh_keycloak_token_def
      split: option.split list.split)

lemma report_failure_exits:
  "\<exists>lines. report_failure c e s = (Inr 1, s\<lparr> ss_stderr := ss_stderr s @ lines \<rparr>) \<and> lines \<noteq> []"
  by (cases e) (auto simp: report_failure_def bindM_def print_stderr_def modify_def ret_def)

lemma report_token_cases:
  assumes "ss_stdout s = []" and "ss_stderr s = []"
  shows "(case v of
      PDict d \<Rightarrow>
        if truthy (pget d ''access_token'')
        then \<exists>lines. report_token lib v s =
          (Inr 0, s\<lparr> ss_stdout := [hl_str lib (pget d ''access_token'')], ss_stderr := lines \<rparr>) \<and> lines \<noteq> []
        else \<exists>lines. report_token lib v s = (Inr 1, s\<lparr> ss_stderr := lines \<rparr>) \<and> lines \<noteq> []
    | _ \<Rightarrow> \<exists>e. report_token lib v s = (Inl e, s))"
  using assms
  by (auto simp: report_token_def bindM_def print_stdout_def print_stderr_def modify_def ret_def throw_def Let_def
      split: pyval.split)

text \<open>The run before its exceptions are caught.\<close>

lemma fetch_and_report:
  assumes "hl_post lib (token_url (kc_url c) (kc_realm c)) (grant_form c) form_headers w = (answer, w')"
  shows "case granted_token lib answer of
      Some token \<Rightarrow> \<exists>lines. bindM (fetch_token lib c) (report_token lib) (script_start w) =
        (Inr 0, \<lparr> ss_world = w', ss_stdout = [hl_str lib token], ss_stderr = lines \<rparr>) \<and> lines \<noteq> []
    | None \<Rightarrow>
        (\<exists>lines. bindM (fetch_token lib c) (report_token lib) (script_start w) =
          (Inr 1, \<lparr> ss_world = w', ss_stdout = [], ss_stderr = lines \<rparr>) \<and> lines \<noteq> []) \<or>
        (\<exists>e. bindM (fetch_token lib c) (report_token lib) (script_start w) =
          (Inl e, \<lparr> ss_world = w', ss_stdout = [], ss_stderr = [] \<rparr>))"
proof (cases answer)
  case (Inl e)
  then show ?thesis
    using assms by (simp add: fetch_token_cases post_for_json_def bindM_def granted_token_def script_start_def)
next
  case (Inr response)
  let ?s = "\<lparr> ss_world = w', ss_stdout = [], ss_stderr = [] \<rparr>"
  show ?thesis
  proof (cases "hl_is_success lib (hr_status_code response)")
    case False
    then show ?thesis
      using assms Inr
      by (auto simp: fetch_token_cases post_for_json_def bindM_def granted_token_def script_start_def
          split: json_outcome.split pyval.split)
  next
    case True
    note report = report_token_cases [of ?s, where lib = lib, simplified]
    show ?thesis
    proof (cases "hr_json response")
      case (Decoded v)
      then have "bindM (fetch_token lib c) (report_token lib) (script_start w) = report_token lib v ?s"
        using assms Inr True by (simp add: fetch_token_cases post_for_json_def bindM_def script_start_def)
      then show ?thesis
        using report [of v] Inr True Decoded by (cases v) (auto simp: granted_token_def)
    qed (use assms Inr True in
        \<open>auto simp: fetch_token_cases post_for_json_def bindM_def granted_token_def script_start_def\<close>)
  qed
qed

text \<open>
  The script prints a token or says why not. It never raises and makes exactly one request, with
  the refresh token if there is one and with the password otherwise. If the answer is a success with
  a token, its exit status is 0 and standard output is that token and nothing else; in every other
  case the exit status is 1, standard output is empty and standard error is not.
\<close>

theorem token_script_reports:
  assumes "hl_post lib (token_url (kc_url (read_configuration env)) (kc_realm (read_configuration env)))
      (grant_form (read_configuration env)) form_headers w = (answer, w')"
  shows "\<exists>status out err. token_main lib env (script_start w) =
      (Inr status, \<lparr> ss_world = w', ss_stdout = out, ss_stderr = err \<rparr>) \<and> err \<noteq> [] \<and>
    (case granted_token lib answer of
       Some token \<Rightarrow> status = 0 \<and> out = [hl_str lib token]
     | None \<Rightarrow> status = 1 \<and> out = [])"
proof -
  let ?c = "read_configuration env" and ?m = "bindM (fetch_token lib (read_configuration env)) (report_token lib) (script_start w)"
  have caught: "\<exists>err. token_main lib env (script_start w) = (Inr 1, \<lparr> ss_world = w', ss_stdout = [], ss_stderr = err \<rparr>) \<and> err \<noteq> []"
    if "?m = (Inl e, \<lparr> ss_world = w', ss_stdout = [], ss_stderr = [] \<rparr>)" for e
    using that report_failure_exits [of ?c e "\<lparr> ss_world = w', ss_stdout = [], ss_stderr = [] \<rparr>"]
    by (auto simp: token_main_def Let_def try_except_def)
  have returned: "token_main lib env (script_start w) = (Inr n, s)" if "?m = (Inr n, s)" for n s
    using that by (simp add: token_main_def Let_def try_except_def)
  show ?thesis
    using fetch_and_report [OF assms] caught returned by (cases "granted_token lib answer") fastforce+
qed

text \<open>Keycloak with one account, for the example.\<close>

definition example_keycloak :: "string list http_library" where
  "example_keycloak =
     \<lparr> hl_post = (\<lambda>url data headers w.
         (Inr (if map_of data ''password'' = Some ''test-password''
               then \<lparr> hr_status_code = 200, hr_text = ''...'', hr_json = Decoded (PDict [(''access_token'', PStr ''abc'')]) \<rparr>
               else \<lparr> hr_status_code = 401, hr_text = ''refused'', hr_json = NotJson \<rparr>), w @ [url])),
       hl_is_success = (\<lambda>n. 200 \<le> n \<and> n < 300), hl_not_json = ''Expecting value'',
       hl_no_get = (\<lambda>v. ''no attribute get''), hl_str = (\<lambda>v. case v of PStr t \<Rightarrow> t | _ \<Rightarrow> ''None'') \<rparr>"

end
