(* ===== verification/Spec2Isabelle.thy ===== *)
theory Spec2Isabelle
  imports EndToEnd Fleet ApiDocs Applications ProductionSetup ContextEnrichers TokenScript
begin

text \<open>
  A verification library for the movie reservation agent (Python, under \<open>src/llm_agent\<close>).

  The program. An HTTP API takes agent runs in and answers for their state; workers claim runs,
  execute them under a lease and record their end; both sides meet in an in-memory runtime that
  holds the runs, an append-only event log and a wake-up signal. Next to it, a demo endpoint
  drives a reservation workflow over four tools of two MCP servers, a login endpoint checks
  credentials and leaves an audit trail, and a throttle endpoint searches for throttle sequences
  with a genetic algorithm. Two middlewares give every request its id and admit those that carry
  a verified access token; a third, inside them, counts outcomes. A composition root puts the
  production application together from registrars of services, and its lifespan starts the worker
  as a task and ends it.

  \<^bold>\<open>The theories, in the order of the code.\<close>

  \<^item> \<open>Prelude\<close>: Python's exceptions, programs that return or raise over an explicit state, pre- and
    postconditions of programs, the preorder contract \<open>effect_preorder\<close> under which a fact about
    single operations lifts to whole programs, and dictionaries in insertion order.
  \<^item> \<open>Values\<close>: Python values of JSON data, truth values, ASCII text, \<open>int(text)\<close> and \<open>str(int)\<close>.
    \<open>Floats\<close>: arithmetic on floats with infinities and NaN, over any rounding, and where it raises.
  \<^item> \<open>RunModel\<close>: \<open>contracts/domain/runs\<close> and \<open>llm_agent/domain/agent/runs\<close>: status codes, records,
    the transition table, \<open>RunTransitionPolicy\<close>, transition requests with unset fields.
  \<^item> \<open>EventLog\<close>: \<open>local_runtime/event_log/in_memory.py\<close>; its protocol is the locale
    \<open>event_log_contract\<close>, interpreted on it as \<open>mem_log\<close>.
  \<^item> \<open>SignalQueue\<close>: \<open>local_runtime/run_signal_queue/queue.py\<close>.
  \<^item> \<open>Runtime\<close>: \<open>local_runtime/provider.py\<close>, the shared state \<open>runtime\<close>, its invariant \<open>runtime_ok\<close>,
    and the abstract specification of the stores: \<open>life_step\<close> is what one operation may do to one
    run and the event it records, \<open>store_step\<close> lifts it to the runtime.
  \<^item> \<open>IntakeStore\<close>, \<open>ProcessingStore\<close>: \<open>local_runtime/run_store/intake.py\<close> and \<open>processing.py\<close>, one
    definition per method, a \<open>*_cases\<close> lemma with the result on every branch, and \<open>effect_*\<close>: each
    is a sequence of abstract steps. \<open>Claiming\<close> does this for the two loops of \<open>claim_run\<close>.
  \<^item> \<open>Lifecycle\<close>: histories of store calls from any callers (\<open>later\<close>, \<open>reachable\<close>), invariants and
    relations along them. \<open>EventSourcing\<close>: the fold of the events of a run against its record.
    \<open>StoreProperties\<close>: the properties of the stores.
  \<^item> \<open>Orchestrator\<close>: \<open>services/agent/orchestrator.py\<close> over the protocols of store and queue; the
    contract it relies on is the locale \<open>intake_contract\<close>, interpreted on the in-memory runtime as
    \<open>intake\<close>. \<open>AgentApi\<close>: \<open>api/http/v1/routes/agent.py\<close> with its mappers and transfer objects.
  \<^item> \<open>Worker\<close>: \<open>agent_run_worker\<close>: execution context, executors as coroutines, one heartbeat, the
    end of a run; the contract is the locale \<open>processing_contract\<close>, interpreted as \<open>processing\<close>.
    \<open>WorkerSystem\<close>: the consumer's loop and its heartbeat task as a state machine with the handlers
    \<open>on_wake\<close>, \<open>on_resume\<close>, \<open>on_beat\<close>, \<open>on_leave\<close> and \<open>shutdown_execution\<close>, next to arbitrary store
    calls of others. \<open>WorkerProperties\<close>: what the worker does.
  \<^item> \<open>EndToEnd\<close>: API, stores and one worker together: the way of a run from its request to the answer
    for its end. \<open>Fleet\<close>: several workers over one runtime, each step of one a store call for the
    others.
  \<^item> \<open>ApiDocs\<close>: the responses, examples and descriptions in the decorators of \<open>api/http/v1/routes\<close>.
  \<^item> \<open>DemoModels\<close>, \<open>DemoSelection\<close>, \<open>DemoWorkflow\<close>: \<open>demo/models.py\<close>, \<open>demo/config.py\<close>,
    \<open>demo/trace_context.py\<close> and \<open>services/demo/reservation.py\<close>; the workflow is proved over the locale
    \<open>demo_tool_client\<close>. \<open>McpClient\<close>: \<open>infrastructure/mcp/demo_client.py\<close>, its interpretation
    \<open>fast_mcp\<close>. \<open>DemoApi\<close>: \<open>api/http/v1/routes/demo.py\<close>.
  \<^item> \<open>AuditTrail\<close>: \<open>application/audit/authentication.py\<close> and \<open>api/http/audit_context.py\<close>; the
    protocol of a sink is the locale \<open>audit_sink\<close>. \<open>StdoutSink\<close>: \<open>infrastructure/audit/stdout.py\<close>
    with the JSON text and the text streams it uses, its interpretation \<open>stdout\<close>. \<open>Sha256\<close>: UTF-8
    text, SHA-256 on 32-bit words, \<open>compare_digest\<close>. \<open>DemoLogin\<close>: \<open>demo/auth_config.py\<close>,
    \<open>services/demo/authentication.py\<close>, \<open>api/http/v1/routes/demo_auth.py\<close> with its transfer objects,
    and the wiring of \<open>demo_app.py\<close> around them.
  \<^item> \<open>Tokens\<close>: \<open>infrastructure/execution_context/token_extractors.py\<close>. \<open>JwtValidation\<close>:
    \<open>infrastructure/authentication/jwt_validator.py\<close>, \<open>keycloak_claims_parser.py\<close> and
    \<open>jwt_manager.py\<close>; the protocol of a manager is the locale \<open>authentication_manager\<close>, interpreted
    as \<open>caches\<close> and \<open>jwt_manager\<close>. \<open>Middlewares\<close>: \<open>api/http/middlewares/execution.py\<close> and
    \<open>authentication.py\<close>, \<open>infrastructure/execution_context/production.py\<close>, in the order in which
    \<open>app.py\<close> registers them.
  \<^item> \<open>ContextEnrichers\<close>: \<open>application/execution_context.py\<close> as the locale \<open>execution_context_enricher\<close>,
    interpreted on the production enricher and on the stand-in \<open>infrastructure/execution_context/fake.py\<close>.
  \<^item> \<open>HealthRoutes\<close>, \<open>Telemetry\<close>, \<open>HttpMetrics\<close>: \<open>core/telemetry.py\<close>: the two filters for health
    routes with the pattern search of the standard library; set-up and shutdown of the process and of
    an application, the counted routes, the identifiers of the current span; the middleware that counts
    outcomes, around applications that send, receive, route and act in any order.
  \<^item> \<open>GeneticSearch\<close>: \<open>infrastructure/navigation/path_finders/genetic.py\<close> over \<open>domain/genetic_path\<close>;
    \<open>yields\<close> states what a program over the random generator returns for all draws.
    \<open>ThrottleApi\<close>: \<open>services/throttle_steps_service.py\<close>, \<open>domain/game\<close>, \<open>domain/grid\<close> and
    \<open>api/http/v1/routes/throttle_steps_calculator.py\<close>; the protocol of a path finder is the locale
    \<open>path_finding\<close>, interpreted as \<open>genetic\<close> and \<open>llm\<close>.
  \<^item> \<open>Launch\<close>: \<open>core/log_config.py\<close> as a state of the process and what a call then writes, the settings of
    \<open>core/uvicorn_server_config.py\<close> and \<open>core/database_config.py\<close>, \<open>manage.py\<close> with
    \<open>core/uvicorn_log_config.py\<close>, the engine, pool and migrations under \<open>infrastructure/db\<close>; and
    \<open>infrastructure/game/retriever/file.py\<close>.
  \<^item> \<open>Composition\<close>: \<open>di/\<close> with its registrars, \<open>create_app\<close> and \<open>register_middlewares\<close> of \<open>app.py\<close>: a
    registry is the sequence of the registrations made in it, and \<open>create_app\<close> a program over logging,
    telemetry and migrations, any of which may raise; \<open>built_stack\<close> runs the middlewares that it and
    \<open>register_middlewares\<close> leave.
  \<^item> \<open>Lifespan\<close>: \<open>di/fastapi_lifespan.py\<close> over \<open>domain/infrastructure_setup.py\<close>, whose contract is the
    locale \<open>infrastructure\<close>, interpreted as \<open>dev\<close> on \<open>infrastructure/infra_setup/local_dev.py\<close>: the worker
    of \<open>WorkerSystem\<close> as a task that is created, begun, cancelled and awaited. \<open>ProductionSetup\<close>:
    \<open>infrastructure/infra_setup/production.py\<close>, the pool of the engine.
  \<^item> \<open>Applications\<close>: the routers of \<open>api/http/v1/routes\<close> with their prefixes in \<open>app.py\<close> and
    \<open>demo_app.py\<close>, and the parts of the demo application.
  \<^item> \<open>FakeServers\<close>: \<open>automation/fake_mcp_server.py\<close>, and the demo end to end against it.
  \<^item> \<open>TokenScript\<close>: \<open>testing_payloads/get_keycloak_token.py\<close>.

  \<^bold>\<open>What is shown.\<close> For the stores: every operation refines the abstract life cycle; every history
  keeps the runtime well-formed and shows no transient status; terminal runs are final; statuses
  move along the table; a live lease is exclusive; an expired one is recovered; claims take the
  first claimable run and drain any backlog; the events determine the state and streams only
  grow. For the API: each endpoint on every branch. For the worker: it is a client of the stores,
  it brings an undisturbed run to the right end within six resumptions and honours cancellation
  at the next checkpoint. For both together: a run created over HTTP is executed whatever the
  backlog and read back with its result, and workers with different ids never execute the same run
  while leases are kept. Of the documentation: the run endpoints answer as their decorators say. Of
  the process: every log line names service and version, a served record makes one line, and the
  script serves what is configured or has changed nothing. For the demo: the order, arguments and number of tool calls, what every
  result and error means, and that a reservation shown is backed by what the servers said. For
  the login: exactly the configured credentials are accepted (up to a collision of SHA-256), every
  verdict is audited before it is answered, and nothing but the verdict depends on the credentials.
  For the middlewares: outside the paths that start with /health, which are let through unchecked,
  the application runs only behind a token verified under a key of the provider, and no request
  leaves its context behind. For the throttle endpoint: it answers for all draws, any clock and any
  rounding, with sequences in range, and refuses exactly the states without units or mass and those
  whose distance overflows; the timeout ends the search. For telemetry:
  health filters agree, counting changes no request and adds one per counted route, and the series
  are bounded. For the composed application: when it
  comes about at all, the middlewares it leaves put every route of it behind authentication, its end always returns, stops the worker and loses no run, and across applications
  that start and end the stores are reached by store calls only. For the demo against the stand-in
  servers: every request ends in the confirmed reservation. For the token script: exactly the token
  is printed, or a message. Some
  theorems record limits of the design: completions are not fenced by the lease, a worker that is
  told to stop cancels its run unless its task is cancelled, recording the failure of a run that is
  already ended ends the worker, the
  production set-up does not start for want of a consumer, enqueueing forgets a
  cancellation, a request without a token gets 500 and not 401, WebSockets are never
  authenticated, the provider's keys are fetched once, the audience of a token is not checked,
  and the search forgets better sequences of earlier generations.

  \<^bold>\<open>Idealisations.\<close> An operation of a store or of the log is one atomic step: the asyncio locks are
  held over it and nothing inside it suspends. It reads the clock once; time is an exact number
  and may differ between callers without order. Ids are their canonical text; \<open>uuid4()\<close> yields an
  id that is not in use (\<open>call_allowed\<close>, the hypothesis of \<open>created_runs_are_served\<close>). Text is
  ASCII (below 256 in the login); floats have the three special values and are exact, but for the throttle search, where the rounding of
  every operation and the square root are arguments (\<open>float_unit\<close>) and only the decimal constants
  of a configuration and the readings of the clock are exact; the order in which a sort leaves
  scores among which there is NaN is drawn. Executors emit
  no event types of the stores (\<open>honest\<close>). Log lines and spans are left out, except where a
  property is about them. The random generator is a stream of draws and the clock a list of
  readings, both arguments that range over all outcomes. A text stream takes any part of what it
  is given, or raises. Fresh UUIDs are arguments with the form \<open>EVENT_ID\<close>. The end of the
  development infrastructure is one step: between the cancellation of the task and its end only other
  tasks could run, which are store calls. Executors do not catch cancellations.
  The settings of the loggers of the server, which its configuration file makes, are left out.

  \<^bold>\<open>Bounds and termination.\<close> All definitions are total and executable. Loops are recursions over the
  list of runs, the list of tool results or the number of polling attempts left, so no fuel is
  needed; the worker's endless loop is a state machine driven by a list of events. Awaiting a task
  that does not end is \<open>None\<close>, and \<open>application_ends\<close> shows that it does not happen.
  In \<open>created_runs_are_served\<close> the worker takes at most 7 steps per run: one claim, five resumptions
  of the executor and the end of the lease scope; the 8 further steps are for the new run itself and
  for the step the worker may be in.

  \<^bold>\<open>Parameters\<close>, for code that is not in the repository: the MCP library, the JSON decoder and
  \<open>repr\<close> that the tool client uses, the HTTP client, the token library with its parser, the splitting
  of an authorization header by the web framework, the current span, the telemetry library, the
  container of services (\<open>answers_registrations\<close> is its documentation), the import of the module that
  provides the registrars, the processors of the logging library (\<open>structlog_documented\<close>), the
  environment and the parsing of settings, files, the database engine, and the transport between MCP client and servers (\<open>reaches_stand_ins\<close>).

  \<^bold>\<open>Not modelled\<close>: the creation of tracers, the stubs and protocols without implementation or
  caller (\<open>append_event\<close> of the processing store, \<open>RunNotifier\<close>), the request schema in the documentation
  of the login, the empty migrations directory, and the packages of the tests.
\<close>

end
